(* ===== verification/Prelude.thy ===== *)
theory Prelude
  imports Main "HOL-Library.Word"
begin

text \<open>
  Shared material of the development: the error values of the Go code, the
  wrap-around of \<^verbatim>\<open>int64\<close> arithmetic, time and duration arithmetic, and the
  generic list, option and map lemmas the components use.

  A Go function \<^verbatim>\<open>f(...) (T, error)\<close> that changes state is modelled by a HOL function
  that returns a pair: a result of type \<open>error + 'a\<close> (\<open>Inl\<close> the error) and the
  state after the call.
\<close>

named_theorems go_defs \<open>definitions of the model, for unfolding\<close>

named_theorems go_simps \<open>rewriting facts shared by the component proofs\<close>

section \<open>Errors\<close>

text \<open>
  The sentinel errors of the program, errors made from a message, and
  \<^verbatim>\<open>fmt.Errorf\<close> with one \<^verbatim>\<open>%w\<close> verb (the text before and after the wrapped error).
  \<open>Panicked\<close> stands for a Go panic that leaves the function.
\<close>

datatype error =
    ErrInvalidAmount
  | ErrInsufficientFunds
  | ErrLineOverloaded
  | ErrInsufficientCredit
  | ErrInvalidInput
  | ErrAllProvidersUnavailable
  | ErrRecordNotFound
  | NewError string
  | Wrapf string error string
  | Panicked error

text \<open>\<^verbatim>\<open>errors.Is(err, target)\<close> follows the chain of wrapped errors.\<close>

fun errors_Is :: "error \<Rightarrow> error \<Rightarrow> bool" where
  "errors_Is (Wrapf a e b) t = (Wrapf a e b = t \<or> errors_Is e t)"
| "errors_Is e t = (e = t)"

text \<open>Wrapping the error of a call; a panic in the call is not an error value and passes through.\<close>

definition wrap_panic :: "string \<Rightarrow> error \<Rightarrow> error" where
  "wrap_panic prefix err = (case err of Panicked _ \<Rightarrow> err | _ \<Rightarrow> Wrapf prefix err [])"

fun is_panic :: "error \<Rightarrow> bool" where
  "is_panic (Panicked _) = True"
| "is_panic _ = False"

definition nil_deref :: error where
  "nil_deref = Panicked (NewError ''runtime error: invalid memory address or nil pointer dereference'')"

text \<open>\<^verbatim>\<open>err.Error()\<close>: the text of an error.\<close>

fun error_text :: "error \<Rightarrow> string" where
  "error_text ErrInvalidAmount = ''invalid amount''"
| "error_text ErrInsufficientFunds = ''insufficient funds''"
| "error_text ErrLineOverloaded = ''SMS line is at capacity''"
| "error_text ErrInsufficientCredit = ''insufficient wallet credit''"
| "error_text ErrInvalidInput = ''invalid input''"
| "error_text ErrAllProvidersUnavailable = ''all SMS providers are unavailable''"
| "error_text ErrRecordNotFound = ''record not found''"
| "error_text (NewError s) = s"
| "error_text (Wrapf a e b) = a @ error_text e @ b"
| "error_text (Panicked e) = error_text e"

section \<open>Machine integers\<close>

text \<open>Two's complement wrap-around of a 64-bit signed integer.\<close>

definition wrap64 :: "int \<Rightarrow> int" where
  "wrap64 n = (n + 2 ^ 63) mod 2 ^ 64 - 2 ^ 63"

definition in_int64 :: "int \<Rightarrow> bool" where
  "in_int64 n \<longleftrightarrow> - (2 ^ 63) \<le> n \<and> n < 2 ^ 63"

lemma wrap64_id [simp]: "in_int64 n \<Longrightarrow> wrap64 n = n"
  by (simp add: wrap64_def in_int64_def)

lemma in_int64_wrap64 [simp]: "in_int64 (wrap64 n)"
proof -
  have "0 \<le> (n + 2 ^ 63) mod 2 ^ 64" and "(n + 2 ^ 63) mod 2 ^ 64 < 2 ^ 64"
    by simp_all
  then show ?thesis by (simp add: wrap64_def in_int64_def)
qed

section \<open>Time\<close>

text \<open>
  An instant is the number of nanoseconds since Go's zero time (January 1, year 1,
  UTC), so \<^verbatim>\<open>t.IsZero()\<close> is \<open>t = 0\<close>; a \<^verbatim>\<open>time.Duration\<close> is a number of nanoseconds.
  \<^verbatim>\<open>t.Sub(u)\<close> saturates at the limits of a duration.
\<close>

type_synonym time = int
type_synonym duration = int

abbreviation (input) zero_time :: time where
  "zero_time \<equiv> 0"

definition time_Sub :: "time \<Rightarrow> time \<Rightarrow> duration" where
  "time_Sub t u = max (- (2 ^ 63)) (min (2 ^ 63 - 1) (t - u))"

definition second_ns :: duration where
  "second_ns = 1000000000"

text \<open>\<^verbatim>\<open>d.Milliseconds()\<close> divides by a million and truncates towards zero.\<close>

definition Milliseconds :: "duration \<Rightarrow> int" where
  "Milliseconds d = sgn d * (\<bar>d\<bar> div 1000000)"

lemma time_Sub_less_iff:
  "0 < c \<Longrightarrow> c \<le> 2 ^ 63 - 1 \<Longrightarrow> time_Sub t u < c \<longleftrightarrow> t - u < c"
  by (auto simp: time_Sub_def min_def max_def)

section \<open>Words\<close>

lemma unat_plus_one_less:
  fixes g :: "64 word"
  assumes "unat g + 1 < 2 ^ 64"
  shows "unat (g + 1) = unat g + 1"
  using assms by (simp add: unat_word_ariths)

lemma unat_of_nat_small:
  assumes "g < 2 ^ 53" shows "unat (of_nat g :: 64 word) = g"
proof -
  have "g < 2 ^ 64" using assms by simp
  then show ?thesis by (simp add: unsigned_of_nat take_bit_eq_mod)
qed

lemma uint_of_nat_small: "g < 2 ^ 53 \<Longrightarrow> uint (of_nat g :: 64 word) = int g"
  using unat_of_nat_small [of g] by (simp only: uint_nat)

section \<open>Lists\<close>

lemma length_filter_le_one_unique:
  assumes "length (filter P xs) \<le> 1" "x \<in> set xs" "y \<in> set xs" "P x" "P y"
  shows "x = y"
proof -
  have "x \<in> set (filter P xs)" "y \<in> set (filter P xs)" using assms by auto
  with assms(1) show ?thesis by (cases "filter P xs") auto
qed

lemma filter_remove1_count:
  "x \<in> set xs \<Longrightarrow> length (filter P (remove1 x xs)) = length (filter P xs) - (if P x then 1 else 0)"
proof (induction xs)
  case (Cons y xs)
  show ?case
  proof (cases "x = y")
    case False
    with Cons have IH: "length (filter P (remove1 x xs)) = length (filter P xs) - (if P x then 1 else 0)"
      and x: "x \<in> set xs" by auto
    from x have "P x \<Longrightarrow> 0 < length (filter P xs)" by (auto simp: filter_empty_conv)
    with False IH show ?thesis by auto
  qed simp
qed simp

end
