(* ===== verification/GoFloat.thy ===== *)
theory GoFloat
  imports Complex_Main Prelude "HOL-Library.Log_Nat"
begin

text \<open>
  The part of Go's \<^verbatim>\<open>float64\<close> the program uses: IEEE 754 binary64 values with
  rounding to nearest, ties to even, for multiplication, division and conversion
  from \<^verbatim>\<open>int64\<close>; \<^verbatim>\<open>math.Round\<close>; and the conversion back to \<^verbatim>\<open>int64\<close>.
  The two zeros are one value here: the code never observes the sign of zero.
  The lemmas bound the relative error of rounding; they carry the proof that an
  amount in units of 1/10000 survives the trip through a \<^verbatim>\<open>float64\<close>.
\<close>

datatype float64 = NaN | PInf | NInf | Fin rat

section \<open>Rounding to binary64\<close>

text \<open>\<open>pow2 k\<close> is two to the power of an integer.\<close>

definition pow2 :: "int \<Rightarrow> rat" where
  "pow2 k = (if 0 \<le> k then 2 ^ nat k else 1 / 2 ^ nat (- k))"

text \<open>The largest \<open>k\<close> with \<open>pow2 k \<le> x\<close>, for a positive rational \<open>x\<close>.\<close>

definition ilog2 :: "rat \<Rightarrow> int" where
  "ilog2 x = (let (a, b) = quotient_of x; k = bitlen a - bitlen b
    in if pow2 k \<le> x then k else k - 1)"

text \<open>Round half to even.\<close>

definition rhe :: "rat \<Rightarrow> int" where
  "rhe x = (let f = \<lfloor>x\<rfloor>; d = x - of_int f
    in if d < 1/2 then f else if 1/2 < d then f + 1 else if even f then f else f + 1)"

definition fround :: "rat \<Rightarrow> rat" where
  "fround x = (if x = 0 then 0
    else let e = max (ilog2 \<bar>x\<bar> - 52) (- 1074) in of_int (rhe (x / pow2 e)) * pow2 e)"

definition fl :: "rat \<Rightarrow> float64" where
  "fl x = (let y = fround x in
    if pow2 1024 \<le> y then PInf else if y \<le> - pow2 1024 then NInf else Fin y)"

section \<open>Operations\<close>

definition float64_of_int :: "int \<Rightarrow> float64" where
  "float64_of_int n = fl (of_int n)"

text \<open>Multiplication and division by a positive constant, the only uses in the code.\<close>

fun fmul_pos :: "float64 \<Rightarrow> rat \<Rightarrow> float64" where
  "fmul_pos (Fin x) c = fl (x * c)"
| "fmul_pos v c = v"

fun fdiv_pos :: "float64 \<Rightarrow> rat \<Rightarrow> float64" where
  "fdiv_pos (Fin x) c = fl (x / c)"
| "fdiv_pos v c = v"

fun fneg :: "float64 \<Rightarrow> float64" where
  "fneg NaN = NaN"
| "fneg PInf = NInf"
| "fneg NInf = PInf"
| "fneg (Fin x) = Fin (- x)"

text \<open>\<^verbatim>\<open>a < b\<close> on floats; a comparison with NaN is false.\<close>

fun flt :: "float64 \<Rightarrow> float64 \<Rightarrow> bool" where
  "flt (Fin x) (Fin y) = (x < y)"
| "flt NInf (Fin y) = True"
| "flt NInf PInf = True"
| "flt (Fin x) PInf = True"
| "flt _ _ = False"

fun isNaN :: "float64 \<Rightarrow> bool" where
  "isNaN NaN = True"
| "isNaN _ = False"

fun isInf :: "float64 \<Rightarrow> bool" where
  "isInf PInf = True"
| "isInf NInf = True"
| "isInf _ = False"

text \<open>\<^verbatim>\<open>math.Round\<close>: half away from zero; exact, since the result is representable.\<close>

definition round_away :: "rat \<Rightarrow> int" where
  "round_away x = (if 0 \<le> x then \<lfloor>x + 1/2\<rfloor> else - \<lfloor>- x + 1/2\<rfloor>)"

fun math_Round :: "float64 \<Rightarrow> float64" where
  "math_Round (Fin x) = Fin (of_int (round_away x))"
| "math_Round v = v"

text \<open>
  \<^verbatim>\<open>int64(f)\<close>. A value that does not fit has an implementation-defined result; this is
  the one of amd64, where the conversion instruction returns the smallest integer.
\<close>

fun int64_of_float :: "float64 \<Rightarrow> int" where
  "int64_of_float (Fin x) = (let n = (if 0 \<le> x then \<lfloor>x\<rfloor> else \<lceil>x\<rceil>)
    in if in_int64 n then n else - (2 ^ 63))"
| "int64_of_float _ = - (2 ^ 63)"

section \<open>Rounding error\<close>

lemma pow2_pos [simp]: "0 < pow2 k"
  by (simp add: pow2_def)

lemma pow2_ge_0 [simp]: "0 \<le> pow2 k"
  by (simp add: pow2_def)

lemma pow2_nonzero [simp]: "pow2 k \<noteq> 0"
  by (simp add: pow2_def)

lemma pow2_powi: "pow2 k = 2 powi k"
  by (simp add: pow2_def power_int_def field_simps power_one_over)

lemma pow2_add: "pow2 (j + k) = pow2 j * pow2 k"
  by (simp add: pow2_powi power_int_add)

lemma pow2_mono: "j \<le> k \<Longrightarrow> pow2 j \<le> pow2 k"
  by (simp add: pow2_powi power_int_increasing)

lemma pow2_nat: "pow2 (int n) = 2 ^ n"
  by (simp add: pow2_def)

lemma bitlen_bounds_rat:
  assumes "0 < a"
  shows "pow2 (bitlen a - 1) \<le> of_int a" and "of_int a < pow2 (bitlen a)"
proof -
  have b: "2 ^ nat (bitlen a - 1) \<le> a" "a < 2 ^ nat (bitlen a)"
    using bitlen_bounds [OF assms] by auto
  have "0 \<le> bitlen a - 1" using assms bitlen_nonneg [of a] bitlen_eq_zero_iff [of a] by linarith
  then have "pow2 (bitlen a - 1) = of_int (2 ^ nat (bitlen a - 1))"
    and "pow2 (bitlen a) = of_int (2 ^ nat (bitlen a))"
    by (simp_all add: pow2_def)
  with b show "pow2 (bitlen a - 1) \<le> of_int a" and "of_int a < pow2 (bitlen a)"
    by (simp_all only: of_int_le_iff of_int_less_iff)
qed

lemma ilog2_bounds:
  assumes "0 < x"
  shows "pow2 (ilog2 x) \<le> x" and "x < 2 * pow2 (ilog2 x)"
proof -
  obtain a b where q: "quotient_of x = (a, b)" by force
  have b: "0 < b" using quotient_of_denom_pos [OF q] .
  have xab: "x = of_int a / of_int b" using quotient_of_div [OF q] .
  have a: "0 < a" using assms b xab by (simp add: zero_less_divide_iff)
  let ?k = "bitlen a - bitlen b"
  have lo: "pow2 (?k - 1) \<le> x"
  proof -
    have "pow2 (?k - 1) * of_int b \<le> pow2 (?k - 1) * pow2 (bitlen b)"
      using bitlen_bounds_rat(2) [OF b] by (simp add: mult_left_mono)
    also have "\<dots> = pow2 (bitlen a - 1)" by (simp flip: pow2_add add: algebra_simps)
    also have "\<dots> \<le> of_int a" using bitlen_bounds_rat(1) [OF a] .
    finally show ?thesis using b xab by (simp add: le_divide_eq)
  qed
  have hi: "x < 2 * pow2 ?k"
  proof -
    have "of_int a < pow2 (bitlen a)" using bitlen_bounds_rat(2) [OF a] .
    also have "\<dots> = 2 * pow2 ?k * pow2 (bitlen b - 1)"
      using pow2_add [of 1 "?k"] pow2_add [of "1 + ?k" "bitlen b - 1"]
      by (simp add: pow2_def algebra_simps)
    also have "\<dots> \<le> 2 * pow2 ?k * of_int b"
      using bitlen_bounds_rat(1) [OF b] by (simp add: mult_left_mono)
    finally show ?thesis using b xab by (simp add: divide_less_eq)
  qed
  have h: "2 * pow2 (?k - 1) = pow2 ?k"
    using pow2_add [of 1 "?k - 1"] by (simp add: pow2_def)
  show "pow2 (ilog2 x) \<le> x"
    using lo by (simp add: ilog2_def q Let_def)
  show "x < 2 * pow2 (ilog2 x)"
    using hi h by (simp add: ilog2_def q Let_def)
qed

lemma rhe_error: "\<bar>of_int (rhe x) - x\<bar> \<le> 1/2"
proof -
  have "of_int \<lfloor>x\<rfloor> \<le> x" "x < of_int \<lfloor>x\<rfloor> + 1" by linarith+
  then show ?thesis by (auto simp: rhe_def Let_def abs_le_iff)
qed

lemma rhe_int [simp]: "rhe (of_int n) = n"
  by (simp add: rhe_def)

lemma rhe_unique:
  assumes "\<bar>x - of_int n\<bar> < 1/2"
  shows "rhe x = n"
proof -
  have "of_int (rhe x) - of_int n < (1::rat)" "of_int n - of_int (rhe x) < (1::rat)"
    using rhe_error [of x] assms by linarith+
  then have "rhe x - n < 1" "n - rhe x < 1" by (simp_all flip: of_int_diff)
  then show ?thesis by simp
qed

text \<open>The relative error of a normal result is at most \<open>2^-53\<close>.\<close>

lemma fround_error:
  assumes "pow2 (- 1022) \<le> \<bar>x\<bar>"
  shows "\<bar>fround x - x\<bar> \<le> \<bar>x\<bar> / 2 ^ 53"
proof -
  have pos: "0 < \<bar>x\<bar>" using assms pow2_pos [of "- 1022"] by linarith
  define k where "k = ilog2 \<bar>x\<bar>"
  have k: "pow2 k \<le> \<bar>x\<bar>" "\<bar>x\<bar> < 2 * pow2 k" using ilog2_bounds [OF pos] by (simp_all add: k_def)
  have "- 1022 \<le> k"
  proof (rule ccontr)
    assume "\<not> - 1022 \<le> k"
    then have "pow2 (k + 1) \<le> pow2 (- 1022)" by (intro pow2_mono) simp
    moreover have "pow2 (k + 1) = 2 * pow2 k" using pow2_add [of k 1] by (simp add: pow2_def)
    ultimately show False using k assms by simp
  qed
  then have e: "max (k - 52) (- 1074) = k - 52" by simp
  let ?e = "k - 52"
  have "fround x - x = (of_int (rhe (x / pow2 ?e)) - x / pow2 ?e) * pow2 ?e"
    using pos e by (simp add: fround_def k_def left_diff_distrib Let_def)
  then have "\<bar>fround x - x\<bar> = \<bar>of_int (rhe (x / pow2 ?e)) - x / pow2 ?e\<bar> * pow2 ?e"
    by (simp add: abs_mult)
  also have "\<dots> \<le> 1/2 * pow2 ?e" using rhe_error by (simp add: mult_right_mono)
  also have "\<dots> = pow2 k / 2 ^ 53"
    using pow2_add [of "?e" 52] by (simp add: pow2_def [of 52])
  also have "\<dots> \<le> \<bar>x\<bar> / 2 ^ 53" using k by (simp add: divide_right_mono)
  finally show ?thesis .
qed


text \<open>Evaluation of \<open>fround\<close> at a known binary exponent.\<close>

lemma ilog2_unique:
  assumes "pow2 k \<le> x" "x < 2 * pow2 k"
  shows "ilog2 x = k"
proof -
  have "0 < x" using assms(1) pow2_pos [of k] by linarith
  note b = ilog2_bounds [OF this]
  have "\<And>j k. pow2 j \<le> x \<Longrightarrow> x < 2 * pow2 k \<Longrightarrow> j \<le> k"
  proof (rule ccontr)
    fix j k assume jk: "pow2 j \<le> x" "x < 2 * pow2 k" "\<not> j \<le> k"
    then have "pow2 (k + 1) \<le> pow2 j" by (intro pow2_mono) simp
    moreover have "pow2 (k + 1) = 2 * pow2 k" using pow2_add [of k 1] by (simp add: pow2_def)
    ultimately show False using jk by simp
  qed
  with b assms show ?thesis by (meson antisym)
qed

lemma fround_at:
  assumes "pow2 k \<le> x" "x < 2 * pow2 k" "- 1022 \<le> k" "\<bar>x / pow2 (k - 52) - of_int n\<bar> < 1/2"
  shows "fround x = of_int n * pow2 (k - 52)"
proof -
  have pos: "0 < x" using assms(1) pow2_pos [of k] by linarith
  then have "ilog2 \<bar>x\<bar> = k" using assms by (simp add: ilog2_unique)
  moreover have "max (k - 52) (- 1074) = k - 52" using assms(3) by simp
  ultimately show ?thesis using pos rhe_unique [OF assms(4)]
    by (simp add: fround_def Let_def)
qed

text \<open>Integers up to \<open>2^53\<close> are exact, and so is every value that fits the grid.\<close>

lemma fround_0 [simp]: "fround 0 = 0"
  by (simp add: fround_def)

lemma ilog2_less:
  assumes "0 < x" "x < pow2 k"
  shows "ilog2 x < k"
proof (rule ccontr)
  assume "\<not> ilog2 x < k"
  then have "pow2 k \<le> pow2 (ilog2 x)" by (intro pow2_mono) simp
  with ilog2_bounds(1) [OF assms(1)] assms(2) show False by simp
qed

lemma fround_int:
  assumes "\<bar>n\<bar> < 2 ^ 53"
  shows "fround (of_int n) = of_int n"
proof (cases "n = 0")
  case False
  define e where "e = max (ilog2 \<bar>of_int n\<bar> - 52) (- 1074)"
  have "of_int \<bar>n\<bar> < (of_int (2 ^ 53) :: rat)" using assms by (simp only: of_int_less_iff)
  then have "ilog2 \<bar>of_int n\<bar> < 53"
    using False by (intro ilog2_less) (simp_all add: pow2_def)
  then have e: "e \<le> 0" by (simp add: e_def)
  then have "of_int n / pow2 e = (of_int (n * 2 ^ nat (- e)) :: rat)"
    by (auto simp: pow2_def)
  then have "rhe (of_int n / pow2 e) = n * 2 ^ nat (- e)" by (metis rhe_int)
  then have "fround (of_int n) = of_int (n * 2 ^ nat (- e)) * pow2 e"
    using False by (simp add: fround_def e_def Let_def)
  with e show ?thesis by (auto simp: pow2_def)
qed simp

lemma fl_Fin: "\<bar>fround x\<bar> < pow2 1024 \<Longrightarrow> fl x = Fin (fround x)"
  by (auto simp: fl_def Let_def abs_less_iff)

lemma fround_bound:
  assumes "pow2 (- 1022) \<le> \<bar>x\<bar>" "\<bar>x\<bar> \<le> 2 ^ 100"
  shows "\<bar>fround x\<bar> < pow2 1024"
proof -
  have "\<bar>fround x\<bar> \<le> \<bar>x\<bar> + \<bar>x\<bar> / 2 ^ 53" using fround_error [OF assms(1)] by linarith
  also have "\<dots> \<le> 2 ^ 100 + 2 ^ 100 / 2 ^ 53"
    using assms(2) by (intro add_mono divide_right_mono) simp_all
  also have "\<dots> < 2 ^ 1024" by simp
  finally show ?thesis by (simp add: pow2_def)
qed

lemma round_away_unique:
  assumes "\<bar>x - of_int n\<bar> < 1/2"
  shows "round_away x = n"
proof (cases "0 \<le> x")
  case True
  have "of_int n \<le> x + 1/2" "x + 1/2 < of_int n + 1" using assms by linarith+
  with True show ?thesis by (simp add: round_away_def floor_eq_iff)
next
  case False
  have "of_int (- n) \<le> - x + 1/2" "- x + 1/2 < of_int (- n) + 1" unfolding of_int_minus using assms by linarith+
  then have "\<lfloor>- x + 1/2\<rfloor> = - n" by (simp only: floor_eq_iff)
  with False show ?thesis by (simp add: round_away_def)
qed

text \<open>
  The heart of the fixed-point representation: dividing an integer below \<open>10^15\<close> by
  ten thousand, rounding, multiplying back and rounding again stays within 1/4 of the
  integer. The two roundings add at most \<open>2 + 2^-53\<close> units in the last place.
\<close>

lemma fround_scale_error:
  assumes "0 < u" "u < 10 ^ 15"
  defines "d \<equiv> fround (of_int u / 10000)"
  shows "\<bar>fround (d * 10000) - of_int u\<bar> < 1/4" and "pow2 (- 1022) \<le> \<bar>d * 10000\<bar>"
    and "0 < d" and "d \<le> 2 ^ 49" and "\<bar>d * 10000 - of_int u\<bar> < 1/4"
proof -
  let ?u = "of_int u :: rat"
  have u: "1 \<le> ?u" "?u < 10 ^ 15"
    using assms(1,2) of_int_less_iff [of u "10 ^ 15", where ?'a = rat] by simp_all
  have small: "pow2 (- 1022) \<le> 1 / 20000"
    using pow2_mono [of "- 1022" "- 20"] by (simp add: pow2_def [of "- 20"])
  have "pow2 (- 1022) \<le> \<bar>?u / 10000\<bar>" using u small by simp
  from fround_error [OF this] have d: "\<bar>d - ?u / 10000\<bar> \<le> ?u / 10000 / 2 ^ 53"
    using u by (simp add: d_def)
  then have d1: "\<bar>d * 10000 - ?u\<bar> \<le> ?u / 2 ^ 53" by (simp add: abs_le_iff field_simps)
  have "?u / 2 ^ 53 \<le> ?u / 2" using u by simp
  with d1 u have dpos: "1 / 2 \<le> d * 10000" "d * 10000 \<le> ?u + ?u / 2 ^ 53"
    by linarith+
  then show p: "pow2 (- 1022) \<le> \<bar>d * 10000\<bar>" using small by simp
  show "0 < d" using dpos by simp
  have "?u + ?u / 2 ^ 53 < 2 ^ 49 * 10000" using u by simp
  with dpos show "d \<le> 2 ^ 49" by linarith
  have "?u / 2 ^ 53 < 1/4" using u by simp
  with d1 show "\<bar>d * 10000 - ?u\<bar> < 1/4" by linarith
  have "\<bar>fround (d * 10000) - d * 10000\<bar> \<le> (?u + ?u / 2 ^ 53) / 2 ^ 53"
  proof -
    have "\<bar>d * 10000\<bar> / 2 ^ 53 \<le> (?u + ?u / 2 ^ 53) / 2 ^ 53"
      using dpos by (intro divide_right_mono) simp_all
    with fround_error [OF p] show ?thesis by linarith
  qed
  with d1 have "\<bar>fround (d * 10000) - ?u\<bar> \<le> ?u / 2 ^ 53 + (?u + ?u / 2 ^ 53) / 2 ^ 53"
    by linarith
  also have "\<dots> < 1/4" using u by simp
  finally show "\<bar>fround (d * 10000) - ?u\<bar> < 1/4" .
qed

end
