(* ===== verification/GoStrings.thy ===== *)
theory GoStrings
  imports Prelude
begin

text \<open>
  The parts of Go's \<^verbatim>\<open>strconv\<close> and \<^verbatim>\<open>unicode/utf8\<close> packages the program uses.
  A Go string is a list of bytes (\<open>string\<close>). \<open>FormatInt\<close> and \<open>ParseInt\<close> are the decimal
  conversions of an \<^verbatim>\<open>int64\<close>, with the round trip proved; \<open>rune_count\<close> is
  \<^verbatim>\<open>len([]rune(s))\<close>, which decodes UTF-8 and counts every invalid byte as one rune.
\<close>

section \<open>Decimal numbers\<close>

definition digit :: "nat \<Rightarrow> char" where
  "digit n = char_of (48 + n)"

definition is_digit :: "char \<Rightarrow> bool" where
  "is_digit c \<longleftrightarrow> 48 \<le> (of_char c :: nat) \<and> (of_char c :: nat) \<le> 57"

definition digit_val :: "char \<Rightarrow> nat" where
  "digit_val c = of_char c - 48"

fun show_nat :: "nat \<Rightarrow> string" where
  "show_nat n = (if n < 10 then [digit n] else show_nat (n div 10) @ [digit (n mod 10)])"

declare show_nat.simps [simp del]

definition read_nat :: "string \<Rightarrow> nat" where
  "read_nat s = foldl (\<lambda>a c. 10 * a + digit_val c) 0 s"

definition FormatInt :: "int \<Rightarrow> string" where
  "FormatInt n = (if n < 0 then CHR ''-'' # show_nat (nat (- n)) else show_nat (nat n))"

datatype num_error = ErrSyntax | ErrRange

text \<open>A quoted string (\<^verbatim>\<open>%q\<close>; texts without characters that need escaping) and \<^verbatim>\<open>*strconv.NumError\<close>.\<close>

definition quoted :: "string \<Rightarrow> string" where
  "quoted s = CHR 0x22 # s @ [CHR 0x22]"

definition NumError :: "string \<Rightarrow> string \<Rightarrow> num_error \<Rightarrow> error" where
  "NumError fn s e = NewError (''strconv.'' @ fn @ '': parsing '' @ quoted s @ '': '' @
    (case e of ErrSyntax \<Rightarrow> ''invalid syntax'' | ErrRange \<Rightarrow> ''value out of range''))"

text \<open>\<^verbatim>\<open>strconv.ParseInt(s, 10, 64)\<close>: an optional sign, then one or more decimal digits.\<close>

definition ParseUint :: "string \<Rightarrow> num_error + nat" where
  "ParseUint s = (if s = [] \<or> \<not> list_all is_digit s then Inl ErrSyntax
    else if 2 ^ 64 \<le> read_nat s then Inl ErrRange else Inr (read_nat s))"

definition ParseInt :: "string \<Rightarrow> num_error + int" where
  "ParseInt s = (case s of [] \<Rightarrow> Inl ErrSyntax
    | c # r \<Rightarrow>
      (let neg = (c = CHR ''-''); digits = (if c = CHR ''+'' \<or> c = CHR ''-'' then r else s)
       in case ParseUint digits of Inl e \<Rightarrow> Inl e
          | Inr un \<Rightarrow>
            if \<not> neg \<and> 2 ^ 63 \<le> un then Inl ErrRange
            else if neg \<and> 2 ^ 63 < un then Inl ErrRange
            else Inr (if neg then - int un else int un)))"

section \<open>The round trip\<close>

lemma of_char_digit: "n < 10 \<Longrightarrow> (of_char (digit n) :: nat) = 48 + n"
  by (simp add: digit_def)

lemma is_digit_digit [simp]: "n < 10 \<Longrightarrow> is_digit (digit n)"
  by (simp add: is_digit_def of_char_digit)

lemma digit_val_digit [simp]: "n < 10 \<Longrightarrow> digit_val (digit n) = n"
  by (simp add: digit_val_def of_char_digit)

lemma digit_inj: "m < 10 \<Longrightarrow> n < 10 \<Longrightarrow> digit m = digit n \<Longrightarrow> m = n"
  by (metis digit_val_digit)

lemma show_nat_nonempty [simp]: "show_nat n \<noteq> []"
  by (subst show_nat.simps) simp

lemma show_nat_digits: "list_all is_digit (show_nat n)"
proof (induction n rule: show_nat.induct)
  case (1 n)
  then show ?case by (subst show_nat.simps) simp
qed

lemma read_nat_snoc [simp]: "read_nat (s @ [c]) = 10 * read_nat s + digit_val c"
  by (simp add: read_nat_def)

lemma read_show_nat [simp]: "read_nat (show_nat n) = n"
proof (induction n rule: show_nat.induct)
  case (1 n)
  show ?case
  proof (cases "n < 10")
    case True
    then show ?thesis by (simp add: show_nat.simps [of n] read_nat_def)
  next
    case False
    with 1 show ?thesis by (simp add: show_nat.simps [of n])
  qed
qed

lemma show_nat_inj: "show_nat m = show_nat n \<Longrightarrow> m = n"
  by (metis read_show_nat)

lemma hd_show_nat_digit: "is_digit (hd (show_nat n))"
  using show_nat_digits [of n] by (cases "show_nat n") auto

lemma not_digit_sign: "is_digit c \<Longrightarrow> c \<noteq> CHR ''+'' \<and> c \<noteq> CHR ''-''"
  by (auto simp: is_digit_def)

lemma ParseUint_show_nat: "n < 2 ^ 64 \<Longrightarrow> ParseUint (show_nat n) = Inr n"
  by (simp add: ParseUint_def show_nat_digits)

lemma ParseInt_digits:
  assumes "s \<noteq> []" "is_digit (hd s)"
  shows "ParseInt s = (case ParseUint s of Inl e \<Rightarrow> Inl e
    | Inr un \<Rightarrow> if 2 ^ 63 \<le> un then Inl ErrRange else Inr (int un))"
  using assms not_digit_sign [of "hd s"]
  by (cases s) (auto simp: ParseInt_def Let_def split: sum.splits)

lemma ParseInt_minus:
  "ParseInt (CHR ''-'' # s) = (case ParseUint s of Inl e \<Rightarrow> Inl e
    | Inr un \<Rightarrow> if 2 ^ 63 < un then Inl ErrRange else Inr (- int un))"
  by (auto simp: ParseInt_def Let_def split: sum.splits)

lemma ParseInt_FormatInt [simp]:
  assumes "in_int64 n"
  shows "ParseInt (FormatInt n) = Inr n"
proof (cases "n < 0")
  case True
  with assms have "nat (- n) \<le> 2 ^ 63" by (auto simp: in_int64_def)
  with True show ?thesis
    by (simp add: FormatInt_def ParseInt_minus ParseUint_show_nat)
next
  case False
  with assms have "nat n < 2 ^ 63" by (auto simp: in_int64_def)
  with False show ?thesis
    by (simp add: FormatInt_def ParseInt_digits hd_show_nat_digit ParseUint_show_nat)
qed

lemma FormatInt_inj: "in_int64 m \<Longrightarrow> in_int64 n \<Longrightarrow> FormatInt m = FormatInt n \<Longrightarrow> m = n"
  by (metis ParseInt_FormatInt sum.inject(2))

text \<open>What \<open>ParseInt\<close> accepts is always in range.\<close>

lemma ParseInt_in_int64: "ParseInt s = Inr n \<Longrightarrow> in_int64 n"
  by (auto simp: ParseInt_def ParseUint_def in_int64_def Let_def
      split: list.splits sum.splits if_splits)

section \<open>UTF-8\<close>

definition cont :: "nat \<Rightarrow> nat \<Rightarrow> char \<Rightarrow> bool" where
  "cont lo hi c \<longleftrightarrow> lo \<le> of_char c \<and> of_char c \<le> hi"

text \<open>
  The width in bytes of the first rune: 1 for ASCII and for a byte that does not start
  a well-formed sequence (decoded as U+FFFD), 2 to 4 for a well-formed sequence. The
  second byte's range depends on the first one: no overlong forms, no surrogates,
  nothing above U+10FFFF.
\<close>

definition rune_width :: "string \<Rightarrow> nat" where
  "rune_width s = (case s of [] \<Rightarrow> 0 | b # r \<Rightarrow>
    (let n = (of_char b :: nat) in
      if n < 0xC2 then 1
      else if n \<le> 0xDF then
        (case r of c1 # _ \<Rightarrow> if cont 0x80 0xBF c1 then 2 else 1 | _ \<Rightarrow> 1)
      else if n \<le> 0xEF then
        (case r of c1 # c2 # _ \<Rightarrow>
           if cont (if n = 0xE0 then 0xA0 else 0x80) (if n = 0xED then 0x9F else 0xBF) c1
              \<and> cont 0x80 0xBF c2 then 3 else 1
         | _ \<Rightarrow> 1)
      else if n \<le> 0xF4 then
        (case r of c1 # c2 # c3 # _ \<Rightarrow>
           if cont (if n = 0xF0 then 0x90 else 0x80) (if n = 0xF4 then 0x8F else 0xBF) c1
              \<and> cont 0x80 0xBF c2 \<and> cont 0x80 0xBF c3 then 4 else 1
         | _ \<Rightarrow> 1)
      else 1))"

lemma rune_width_pos: "s \<noteq> [] \<Longrightarrow> 1 \<le> rune_width s"
  by (auto simp: rune_width_def Let_def split: list.splits)

lemma rune_width_le_4: "rune_width s \<le> 4"
  by (auto simp: rune_width_def Let_def split: list.splits)

lemma rune_width_le_length: "rune_width s \<le> length s"
  by (auto simp: rune_width_def Let_def split: list.splits)

function rune_count :: "string \<Rightarrow> nat" where
  "rune_count s = (if s = [] then 0 else 1 + rune_count (drop (rune_width s) s))"
  by pat_completeness auto
termination
proof (relation "measure length")
  fix s :: string
  assume "s \<noteq> []"
  then show "(drop (rune_width s) s, s) \<in> measure length"
    using rune_width_pos [of s] by (cases s) auto
qed simp

declare rune_count.simps [simp del]

lemma rune_count_Nil [simp]: "rune_count [] = 0"
  by (simp add: rune_count.simps)

lemma rune_count_eq_0 [simp]: "rune_count s = 0 \<longleftrightarrow> s = []"
  by (subst rune_count.simps) simp

text \<open>A rune takes between one and four bytes.\<close>

lemma rune_count_bounds: "rune_count s \<le> length s" "length s \<le> 4 * rune_count s"
proof (induction s rule: rune_count.induct)
  case (1 s)
  have "rune_count s \<le> length s \<and> length s \<le> 4 * rune_count s"
  proof (cases "s = []")
    case False
    define r where "r = drop (rune_width s) s"
    have r: "rune_count r \<le> length r" "length r \<le> 4 * rune_count r"
      using 1 [OF False] by (simp_all add: r_def)
    have len: "length s = length r + rune_width s"
      using rune_width_le_length [of s] by (simp add: r_def)
    have "rune_count s = 1 + rune_count r"
      using False by (simp add: rune_count.simps [of s] r_def)
    with r len rune_width_pos [OF False] rune_width_le_4 [of s] show ?thesis by linarith
  qed simp
  then show "rune_count s \<le> length s" "length s \<le> 4 * rune_count s" by simp_all
qed

lemma rune_count_ascii:
  "list_all (\<lambda>c. (of_char c :: nat) < 0x80) s \<Longrightarrow> rune_count s = length s"
proof (induction s)
  case (Cons c s)
  then have "rune_width (c # s) = 1" by (simp add: rune_width_def Let_def)
  with Cons show ?case by (simp add: rune_count.simps [of "c # s"])
qed simp

section \<open>Trimming\<close>

text \<open>The UTF-8 encodings of Unicode white space, and \<^verbatim>\<open>strings.TrimSpace\<close>.\<close>

definition space_runes :: "string list" where
  "space_runes = [[CHR 0x09], [CHR 0x0A], [CHR 0x0B], [CHR 0x0C], [CHR 0x0D], [CHR 0x20], [CHR 0xC2, CHR 0x85], [CHR 0xC2, CHR 0xA0],
    [CHR 0xE1, CHR 0x9A, CHR 0x80]] @ map (\<lambda>n. [CHR 0xE2, CHR 0x80, char_of (128 + n)]) [0..<11]
    @ [[CHR 0xE2, CHR 0x80, CHR 0xA8], [CHR 0xE2, CHR 0x80, CHR 0xA9], [CHR 0xE2, CHR 0x80, CHR 0xAF],
       [CHR 0xE2, CHR 0x81, CHR 0x9F], [CHR 0xE3, CHR 0x80, CHR 0x80]]"

definition starting :: "string list \<Rightarrow> string \<Rightarrow> string option" where
  "starting runes s = find (\<lambda>p. p \<noteq> [] \<and> take (length p) s = p) runes"

lemma starting_Some: "starting runes s = Some p \<Longrightarrow> p \<in> set runes \<and> p \<noteq> [] \<and> take (length p) s = p"
  by (auto simp: starting_def find_Some_iff)

function strip_runes :: "string list \<Rightarrow> string \<Rightarrow> string" where
  "strip_runes runes s = (case starting runes s of None \<Rightarrow> s | Some p \<Rightarrow> strip_runes runes (drop (length p) s))"
  by pat_completeness auto
termination
proof (relation "measure (length \<circ> snd)")
  fix runes s p assume "starting runes s = Some p"
  then have "p \<noteq> []" "take (length p) s = p" by (auto dest: starting_Some)
  then have "s \<noteq> []" by auto
  then show "((runes, drop (length p) s), (runes, s)) \<in> measure (length \<circ> snd)" using \<open>p \<noteq> []\<close> by simp
qed simp

declare strip_runes.simps [simp del]

definition TrimSpace :: "string \<Rightarrow> string" where
  "TrimSpace s = rev (strip_runes (map rev space_runes) (rev (strip_runes space_runes s)))"

lemma strip_runes_length: "length (strip_runes runes s) \<le> length s"
proof (induction runes s rule: strip_runes.induct)
  case (1 runes s)
  show ?case using 1 by (subst strip_runes.simps) (auto split: option.splits intro: le_trans)
qed

lemma strip_runes_none: "starting runes (strip_runes runes s) = None"
proof (induction runes s rule: strip_runes.induct)
  case (1 runes s)
  show ?case using 1 by (subst strip_runes.simps) (auto split: option.splits)
qed

lemma strip_runes_suffix: "\<exists>pre. s = pre @ strip_runes runes s"
proof (induction runes s rule: strip_runes.induct)
  case (1 runes s)
  show ?case
  proof (cases "starting runes s")
    case (Some p)
    then obtain pre where "drop (length p) s = pre @ strip_runes runes (drop (length p) s)" using 1 by blast
    moreover have "s = p @ drop (length p) s" using starting_Some [OF Some] by (metis append_take_drop_id)
    ultimately show ?thesis using Some by (subst strip_runes.simps) (metis append.assoc option.simps(5))
  qed (simp add: strip_runes.simps [of runes s])
qed

end
