(* ===== verification/RedisLua.thy ===== *)
theory RedisLua
  imports GoFloat GoStrings
begin

text \<open>
  The language of the Lua scripts the program sends to Redis: the keyspace, the
  Redis commands the scripts and the client calls use, and Lua's numbers. A script is
  a function on the Redis state that returns a reply or raises an error; Redis runs it
  atomically. Lua numbers are \<^verbatim>\<open>double\<close>s: \<open>lua_num\<close> rounds an integer to one and is the
  identity below \<open>2^53\<close>.
\<close>

section \<open>State and replies\<close>

datatype redis_value = RStr string | RHash "string \<Rightarrow> string option"

record redis_state =
  keys :: "string \<Rightarrow> redis_value option"
  clock_us :: int

datatype reply = RInt int | RNil | RBulk string | RArr "reply list"

type_synonym 'a lua = "redis_state \<Rightarrow> (error + 'a) \<times> redis_state"

definition lret :: "'a \<Rightarrow> 'a lua" where
  "lret a s = (Inr a, s)"

definition lraise :: "string \<Rightarrow> 'a lua" where
  "lraise msg s = (Inl (NewError msg), s)"

definition lbind :: "'a lua \<Rightarrow> ('a \<Rightarrow> 'b lua) \<Rightarrow> 'b lua" where
  "lbind m f s = (case m s of (Inl e, s') \<Rightarrow> (Inl e, s') | (Inr a, s') \<Rightarrow> f a s')"

section \<open>Numbers\<close>

definition lua_num :: "int \<Rightarrow> int" where
  "lua_num n = \<lfloor>fround (of_int n)\<rfloor>"

lemma lua_num_id [simp]: "\<bar>n\<bar> < 2 ^ 53 \<Longrightarrow> lua_num n = n"
  by (simp add: lua_num_def fround_int)

text \<open>
  \<^verbatim>\<open>tonumber\<close> on the decimal integers this program writes; any other text is \<^verbatim>\<open>nil\<close>, and
  arithmetic on \<^verbatim>\<open>nil\<close> aborts the script.
\<close>

definition tonumber :: "string \<Rightarrow> int lua" where
  "tonumber s = (case ParseInt s of Inr n \<Rightarrow> lret (lua_num n)
    | Inl _ \<Rightarrow> lraise ''attempt to perform arithmetic on a nil value'')"

section \<open>Commands\<close>

definition wrongtype :: string where
  "wrongtype = ''WRONGTYPE Operation against a key holding the wrong kind of value''"

definition not_integer :: string where
  "not_integer = ''ERR value is not an integer or out of range''"

definition redis_TIME :: "(int \<times> int) lua" where
  "redis_TIME s = (Inr (clock_us s div 1000000, clock_us s mod 1000000), s)"

definition redis_GET :: "string \<Rightarrow> string option lua" where
  "redis_GET k s = (case keys s k of None \<Rightarrow> lret None s
    | Some (RStr v) \<Rightarrow> lret (Some v) s | Some (RHash _) \<Rightarrow> lraise wrongtype s)"

definition redis_EXISTS :: "string \<Rightarrow> int lua" where
  "redis_EXISTS k s = lret (if keys s k = None then 0 else 1) s"

definition redis_SET :: "string \<Rightarrow> string \<Rightarrow> unit lua" where
  "redis_SET k v s = lret () (s\<lparr>keys := (keys s)(k \<mapsto> RStr v)\<rparr>)"

definition redis_SETNX :: "string \<Rightarrow> string \<Rightarrow> int lua" where
  "redis_SETNX k v s = (if keys s k = None then lret 1 (s\<lparr>keys := (keys s)(k \<mapsto> RStr v)\<rparr>)
    else lret 0 s)"

definition redis_DEL :: "string \<Rightarrow> int lua" where
  "redis_DEL k s = (if keys s k = None then lret 0 s
    else lret 1 (s\<lparr>keys := (keys s)(k := None)\<rparr>))"

text \<open>
  \<^verbatim>\<open>INCRBY\<close> treats a missing key as 0 and refuses text that is no 64-bit integer and
  results out of range; \<^verbatim>\<open>DECRBY\<close> is the same with the sign changed.
\<close>

definition redis_INCRBY :: "string \<Rightarrow> int \<Rightarrow> int lua" where
  "redis_INCRBY k d s = (case keys s k of
      Some (RHash _) \<Rightarrow> lraise wrongtype s
    | v \<Rightarrow> (case (case v of Some (RStr t) \<Rightarrow> ParseInt t | _ \<Rightarrow> Inr 0) of
        Inl _ \<Rightarrow> lraise not_integer s
      | Inr n \<Rightarrow> if in_int64 (n + d)
          then lret (n + d) (s\<lparr>keys := (keys s)(k \<mapsto> RStr (FormatInt (n + d)))\<rparr>)
          else lraise not_integer s))"

definition redis_DECRBY :: "string \<Rightarrow> int \<Rightarrow> int lua" where
  "redis_DECRBY k d = redis_INCRBY k (- d)"

definition redis_INCRBY_text :: "string \<Rightarrow> string \<Rightarrow> int lua" where
  "redis_INCRBY_text k t = (case ParseInt t of Inl _ \<Rightarrow> lraise not_integer
    | Inr d \<Rightarrow> redis_INCRBY k d)"

definition redis_HGET :: "string \<Rightarrow> string \<Rightarrow> string option lua" where
  "redis_HGET k f s = (case keys s k of None \<Rightarrow> lret None s
    | Some (RHash h) \<Rightarrow> lret (h f) s | Some (RStr _) \<Rightarrow> lraise wrongtype s)"

definition redis_HSET :: "string \<Rightarrow> (string \<times> string) list \<Rightarrow> unit lua" where
  "redis_HSET k fvs s = (case keys s k of
      None \<Rightarrow> lret () (s\<lparr>keys := (keys s)(k \<mapsto> RHash (map_of (rev fvs)))\<rparr>)
    | Some (RHash h) \<Rightarrow> lret () (s\<lparr>keys := (keys s)(k \<mapsto> RHash (h ++ map_of (rev fvs)))\<rparr>)
    | Some (RStr _) \<Rightarrow> lraise wrongtype s)"

text \<open>
  \<^verbatim>\<open>HDEL\<close>. Redis drops a hash that becomes empty; the scripts never delete the
  \<^verbatim>\<open>state\<close> field, so that case does not arise for them.
\<close>

definition redis_HDEL :: "string \<Rightarrow> string list \<Rightarrow> unit lua" where
  "redis_HDEL k fs s = (case keys s k of
      None \<Rightarrow> lret () s
    | Some (RHash h) \<Rightarrow> lret () (s\<lparr>keys := (keys s)(k \<mapsto> RHash (h |` (- set fs)))\<rparr>)
    | Some (RStr _) \<Rightarrow> lraise wrongtype s)"

definition redis_HINCRBY :: "string \<Rightarrow> string \<Rightarrow> int \<Rightarrow> int lua" where
  "redis_HINCRBY k f d = lbind (redis_HGET k f) (\<lambda>v.
    case (case v of None \<Rightarrow> Inr 0 | Some t \<Rightarrow> ParseInt t) of
      Inl _ \<Rightarrow> lraise not_integer
    | Inr n \<Rightarrow> if in_int64 (n + d)
        then lbind (redis_HSET k [(f, FormatInt (n + d))]) (\<lambda>_. lret (n + d))
        else lraise not_integer)"

lemmas lua_defs = lret_def lraise_def lbind_def tonumber_def redis_TIME_def redis_GET_def
  redis_EXISTS_def redis_SET_def redis_SETNX_def redis_DEL_def redis_INCRBY_def redis_DECRBY_def
  redis_INCRBY_text_def redis_HGET_def redis_HSET_def redis_HDEL_def redis_HINCRBY_def

named_theorems clock_rules \<open>commands and scripts that keep the server's clock\<close>

section \<open>Scripts leave the server's clock alone\<close>

definition keeps_clock :: "'a lua \<Rightarrow> bool" where
  "keeps_clock m \<longleftrightarrow> (\<forall>s. clock_us (snd (m s)) = clock_us s)"

lemma keeps_clock_bind [clock_rules]:
  "keeps_clock m \<Longrightarrow> (\<And>a. keeps_clock (f a)) \<Longrightarrow> keeps_clock (lbind m f)"
  by (auto simp: keeps_clock_def lbind_def split: prod.splits sum.splits)
    (metis snd_conv)+

lemma keeps_clock_cmd [clock_rules]:
  "keeps_clock (lret a)" "keeps_clock (lraise e)" "keeps_clock redis_TIME" "keeps_clock (redis_HGET k f)"
  "keeps_clock (redis_HSET k fvs)" "keeps_clock (redis_HDEL k fs)" "keeps_clock (redis_GET k)"
  "keeps_clock (redis_EXISTS k)" "keeps_clock (redis_SET k v)" "keeps_clock (redis_SETNX k v)"
  "keeps_clock (redis_DEL k)" "keeps_clock (redis_INCRBY k d)" "keeps_clock (redis_DECRBY k d)"
  by (auto simp: keeps_clock_def lua_defs split: option.splits redis_value.splits sum.splits)

lemma keeps_clock_tonumber [clock_rules]: "keeps_clock (tonumber t)"
  by (auto simp: keeps_clock_def lua_defs split: sum.splits)

lemma keeps_clock_HINCRBY [clock_rules]: "keeps_clock (redis_HINCRBY k f d)"
  unfolding redis_HINCRBY_def by (intro clock_rules) (auto intro!: clock_rules split: sum.splits option.splits)

lemma keeps_clock_if [clock_rules]: "keeps_clock m \<Longrightarrow> keeps_clock n \<Longrightarrow> keeps_clock (if b then m else n)"
  by simp

lemma keeps_clockD: "keeps_clock m \<Longrightarrow> m s = (r, s') \<Longrightarrow> clock_us s' = clock_us s"
  by (metis keeps_clock_def snd_conv)

section \<open>The client\<close>

text \<open>
  The Redis client is a parameter \<open>eval\<close> of the model: it runs a script or a single command
  against the server. \<open>red\<close> reads the server's state out of the world and \<open>frame\<close> is
  whatever else of the world is observed. What the code relies on is documented behaviour:
  the server executes a script as one atomic unit at some later time of its clock and the
  client returns its reply; or the client returns an error, and then the script was either
  not executed or executed completely. Nothing else of the world changes.
\<close>

type_synonym 'w redis_client = "reply lua \<Rightarrow> 'w \<Rightarrow> (error + reply) \<times> 'w"

definition redis_client_ok :: "'w redis_client \<Rightarrow> ('w \<Rightarrow> redis_state) \<Rightarrow> ('w \<Rightarrow> 'f) \<Rightarrow> bool" where
  "redis_client_ok eval red frame \<longleftrightarrow> (\<forall>f w r w'. eval f w = (r, w') \<longrightarrow>
     frame w' = frame w \<and> (\<exists>c \<ge> clock_us (red w). let s = (red w)\<lparr>clock_us := c\<rparr> in
       f s = (r, red w') \<or> (\<exists>e. r = Inl e) \<and> (red w' = s \<or> red w' = snd (f s))))"

lemma client_run:
  assumes "redis_client_ok eval red frame" "eval f w = (r, w')"
  obtains s where "s = (red w)\<lparr>clock_us := clock_us s\<rparr>" "clock_us (red w) \<le> clock_us s" "frame w' = frame w"
    "f s = (r, red w') \<or> (\<exists>e. r = Inl e) \<and> (red w' = s \<or> red w' = snd (f s))"
proof -
  from assms obtain c where "c \<ge> clock_us (red w)" "frame w' = frame w"
    "f ((red w)\<lparr>clock_us := c\<rparr>) = (r, red w') \<or> (\<exists>e. r = Inl e)
      \<and> (red w' = (red w)\<lparr>clock_us := c\<rparr> \<or> red w' = snd (f ((red w)\<lparr>clock_us := c\<rparr>)))"
    unfolding redis_client_ok_def Let_def by blast
  then show thesis by (intro that [of "(red w)\<lparr>clock_us := c\<rparr>"]) simp_all
qed

lemma client_mono:
  assumes "redis_client_ok eval red frame" "eval f w = (r, w')" "keeps_clock f"
  shows "clock_us (red w) \<le> clock_us (red w')"
proof -
  obtain s where "clock_us (red w) \<le> clock_us s"
    "f s = (r, red w') \<or> (\<exists>e. r = Inl e) \<and> (red w' = s \<or> red w' = snd (f s))"
    using client_run [OF assms(1,2)] by metis
  with assms(3) show ?thesis by (metis keeps_clock_def snd_conv)
qed

text \<open>
  A script whose reply and effect on the keys do not depend on the clock: what is left after a
  call of the client.
\<close>

lemma client_effect:
  assumes ok: "redis_client_ok eval red frame" and ev: "eval f w = (r, w')"
    and f: "\<And>c. f ((red w)\<lparr>clock_us := c\<rparr>) = (Inr reply, (red w)\<lparr>clock_us := c, keys := K\<rparr>)"
  shows "frame w' = frame w \<and> (r = Inr reply \<and> keys (red w') = K
    \<or> (\<exists>e. r = Inl e) \<and> (keys (red w') = K \<or> keys (red w') = keys (red w)))"
proof -
  obtain s where s: "s = (red w)\<lparr>clock_us := clock_us s\<rparr>" "frame w' = frame w"
    "f s = (r, red w') \<or> (\<exists>e. r = Inl e) \<and> (red w' = s \<or> red w' = snd (f s))"
    using client_run [OF ok ev] by metis
  obtain s' where "f s = (Inr reply, s')" "keys s' = K" using f [of "clock_us s"] s(1) by simp
  moreover have "keys s = keys (red w)" using s(1) by (metis redis_state.select_convs(1) redis_state.surjective redis_state.update_convs(2))
  ultimately show ?thesis using s(2,3) by auto
qed

text \<open>The simplest client: it never fails and its world is the server state.\<close>

definition direct_client :: "redis_state redis_client" where
  "direct_client f s = f s"

lemma direct_client_ok: "redis_client_ok direct_client (\<lambda>s. s) (\<lambda>_. ())"
  by (force simp: redis_client_ok_def direct_client_def Let_def)

end
