(* ===== verification/CircuitContract.thy ===== *)
theory CircuitContract
  imports Prelude
begin

text \<open>
  What the two circuit breakers of the provider pool (the in-process one and the one in
  Redis) promise to their callers, as a locale: an admitted call gets the current
  generation as its ticket, a report with another generation is ignored, and every
  change of the state other than open to half-open makes all outstanding tickets stale.
  The consequences for any number of interleaved callers are proved once, here.
\<close>

datatype circuitState = stateClosed | stateOpen | stateHalfOpen

fun circuitState_String :: "circuitState \<Rightarrow> string" where
  "circuitState_String stateOpen = ''open''"
| "circuitState_String stateHalfOpen = ''half-open''"
| "circuitState_String stateClosed = ''closed''"

section \<open>Interleaved callers\<close>

text \<open>
  A breaker shared by any number of callers: \<open>tickets\<close> are the generations of the calls
  that were admitted and have not reported yet. A call reports any outcome at any time,
  in any order, or never (its worker died).
\<close>

record ('b, 'g) shared =
  brk :: 'b
  tickets :: "'g list"

inductive shared_step ::
  "('b \<Rightarrow> time \<Rightarrow> 'g option \<times> 'b) \<Rightarrow> ('b \<Rightarrow> 'g \<Rightarrow> bool \<Rightarrow> time \<Rightarrow> 'b) \<Rightarrow>
   ('b, 'g) shared \<Rightarrow> ('b, 'g) shared \<Rightarrow> bool" for acq com where
  admit: "acq (brk s) now = (Some g, b) \<Longrightarrow>
    shared_step acq com s \<lparr>brk = b, tickets = g # tickets s\<rparr>"
| refuse: "acq (brk s) now = (None, b) \<Longrightarrow>
    shared_step acq com s \<lparr>brk = b, tickets = tickets s\<rparr>"
| report: "g \<in> set (tickets s) \<Longrightarrow> com (brk s) g success now = b \<Longrightarrow>
    shared_step acq com s \<lparr>brk = b, tickets = remove1 g (tickets s)\<rparr>"
| lose: "g \<in> set (tickets s) \<Longrightarrow>
    shared_step acq com s \<lparr>brk = brk s, tickets = remove1 g (tickets s)\<rparr>"

text \<open>The states reachable in exactly \<open>n\<close> steps from the breaker \<open>b0\<close> with no call outstanding.\<close>

inductive shared_reach ::
  "('b \<Rightarrow> time \<Rightarrow> 'g option \<times> 'b) \<Rightarrow> ('b \<Rightarrow> 'g \<Rightarrow> bool \<Rightarrow> time \<Rightarrow> 'b) \<Rightarrow>
   'b \<Rightarrow> nat \<Rightarrow> ('b, 'g) shared \<Rightarrow> bool" for acq com b0 where
  start: "shared_reach acq com b0 0 \<lparr>brk = b0, tickets = []\<rparr>"
| step: "shared_reach acq com b0 n s \<Longrightarrow> shared_step acq com s t \<Longrightarrow>
    shared_reach acq com b0 (Suc n) t"

lemma remove1_all: "\<forall>g \<in> set ts. P g \<Longrightarrow> \<forall>g \<in> set (remove1 x ts). P g"
  by (meson notin_set_remove1)

lemma length_filter_remove1: "length (filter P (remove1 x xs)) \<le> length (filter P xs)"
  by (induction xs) auto

section \<open>The contract\<close>

locale circuit_contract =
  fixes acq :: "'b \<Rightarrow> time \<Rightarrow> 'g option \<times> 'b"
    and com :: "'b \<Rightarrow> 'g \<Rightarrow> bool \<Rightarrow> time \<Rightarrow> 'b"
    and st :: "'b \<Rightarrow> circuitState"
    and gen :: "'b \<Rightarrow> 'g"
    and num :: "'g \<Rightarrow> nat"
    and wf :: "'b \<Rightarrow> bool"
    and limit :: nat
  assumes num_inj: "num g = num h \<Longrightarrow> g = h"
    and acq_wf: "wf b \<Longrightarrow> num (gen b) + 1 < limit \<Longrightarrow> wf (snd (acq b now))"
    and com_wf: "wf b \<Longrightarrow> num (gen b) + 1 < limit \<Longrightarrow> wf (com b g success now)"
    and acq_refused: "wf b \<Longrightarrow> acq b now = (None, b') \<Longrightarrow> st b' = st b \<and> gen b' = gen b"
    and acq_admitted: "wf b \<Longrightarrow> num (gen b) + 1 < limit \<Longrightarrow> acq b now = (Some g, b') \<Longrightarrow>
      g = gen b' \<and> (st b = stateClosed \<and> st b' = stateClosed \<and> gen b' = gen b
        \<or> st b = stateOpen \<and> st b' = stateHalfOpen \<and> gen b' = gen b
        \<or> st b = stateHalfOpen \<and> st b' = stateHalfOpen \<and> num (gen b') = num (gen b) + 1)"
    and com_stale: "wf b \<Longrightarrow> g \<noteq> gen b \<Longrightarrow> com b g success now = b"
    and com_closed: "wf b \<Longrightarrow> num (gen b) + 1 < limit \<Longrightarrow> st b = stateClosed \<Longrightarrow>
      b' = com b (gen b) success now \<Longrightarrow>
      st b' = stateClosed \<and> gen b' = gen b
        \<or> \<not> success \<and> st b' = stateOpen \<and> num (gen b') = num (gen b) + 1"
    and com_half_open: "wf b \<Longrightarrow> num (gen b) + 1 < limit \<Longrightarrow> st b = stateHalfOpen \<Longrightarrow>
      b' = com b (gen b) success now \<Longrightarrow>
      st b' = (if success then stateClosed else stateOpen) \<and> num (gen b') = num (gen b) + 1"
begin

definition current :: "('b, 'g) shared \<Rightarrow> 'g list" where
  "current s = filter (\<lambda>g. g = gen (brk s)) (tickets s)"

definition inv :: "nat \<Rightarrow> ('b, 'g) shared \<Rightarrow> bool" where
  "inv n s \<longleftrightarrow> wf (brk s) \<and> num (gen (brk s)) \<le> n
   \<and> (\<forall>g \<in> set (tickets s). num g \<le> num (gen (brk s)))
   \<and> (st (brk s) = stateHalfOpen \<longrightarrow> length (current s) \<le> 1)
   \<and> (st (brk s) = stateOpen \<longrightarrow> current s = [])"

lemma inv_fresh_generation:
  assumes "\<forall>g \<in> set ts. num g \<le> num (gen b)" "num (gen b') = num (gen b) + 1"
  shows "filter (\<lambda>g. g = gen b') ts = []" and "\<forall>g \<in> set ts. num g \<le> num (gen b')"
  using assms by (force simp: filter_empty_conv)+

lemma inv_admit:
  assumes inv: "inv n s" and acq: "acq (brk s) now = (Some g, b)" and n: "Suc n < limit"
  shows "inv (Suc n) \<lparr>brk = b, tickets = g # tickets s\<rparr>"
proof -
  have w: "wf (brk s)" and l: "num (gen (brk s)) + 1 < limit" using inv n by (simp_all add: inv_def)
  have "wf b" using acq_wf [OF w l, of now] acq by simp
  moreover note acq_admitted [OF w l acq]
  moreover have "num (gen b) = num (gen (brk s)) + 1 \<Longrightarrow> filter (\<lambda>g. g = gen b) (tickets s) = []
      \<and> (\<forall>g \<in> set (tickets s). num g \<le> num (gen b))"
    using inv inv_fresh_generation [of "tickets s" "brk s" b] by (simp add: inv_def)
  ultimately show ?thesis using inv by (auto simp: inv_def current_def)
qed

lemma inv_report:
  assumes inv: "inv n s" and g: "g \<in> set (tickets s)" and n: "Suc n < limit"
  shows "inv (Suc n) \<lparr>brk = com (brk s) g success now, tickets = remove1 g (tickets s)\<rparr>"
proof -
  let ?b = "brk s" and ?ts = "remove1 g (tickets s)"
  let ?b' = "com ?b g success now"
  have w: "wf ?b" and l: "num (gen ?b) + 1 < limit" using inv n by (simp_all add: inv_def)
  have w': "wf ?b'" by (rule com_wf [OF w l])
  have le: "\<forall>h \<in> set ?ts. num h \<le> num (gen ?b)"
    by (rule remove1_all) (use inv in \<open>simp add: inv_def\<close>)
  note fresh = inv_fresh_generation [OF le, of ?b']
  have cnt: "length (filter (\<lambda>h. h = gen ?b) ?ts) \<le> length (current s)"
    by (simp add: current_def length_filter_remove1)
  show ?thesis
  proof (cases "g = gen ?b")
    case False
    then have "?b' = ?b" by (rule com_stale [OF w])
    with inv le cnt show ?thesis by (auto simp: inv_def current_def)
  next
    case True
    show ?thesis
    proof (cases "st ?b")
      case stateClosed
      with com_closed [OF w l stateClosed refl, of success now] True fresh w' inv le
      show ?thesis by (auto simp: inv_def current_def)
    next
      case stateOpen
      with inv True g show ?thesis by (auto simp: inv_def current_def filter_empty_conv)
    next
      case stateHalfOpen
      with com_half_open [OF w l stateHalfOpen refl, of success now] True fresh w' inv
      show ?thesis by (auto simp: inv_def current_def split: if_splits)
    qed
  qed
qed

lemma inv_refuse:
  assumes inv: "inv n s" and acq: "acq (brk s) now = (None, b)" and n: "Suc n < limit"
  shows "inv (Suc n) \<lparr>brk = b, tickets = tickets s\<rparr>"
proof -
  have w: "wf (brk s)" and l: "num (gen (brk s)) + 1 < limit" using inv n by (simp_all add: inv_def)
  from acq_wf [OF w l, of now] acq_refused [OF w acq] acq inv show ?thesis
    by (auto simp: inv_def current_def)
qed

lemma inv_lose:
  assumes inv: "inv n s"
  shows "inv (Suc n) \<lparr>brk = brk s, tickets = remove1 g (tickets s)\<rparr>"
proof -
  let ?ts = "remove1 g (tickets s)"
  have "\<forall>h \<in> set ?ts. num h \<le> num (gen (brk s))"
    by (rule remove1_all) (use inv in \<open>simp add: inv_def\<close>)
  moreover have "length (filter (\<lambda>h. h = gen (brk s)) ?ts) \<le> length (current s)"
    by (simp add: current_def length_filter_remove1)
  ultimately show ?thesis using inv by (auto simp: inv_def current_def)
qed

lemma reach_inv:
  assumes "shared_reach acq com b0 n s" "wf b0" "num (gen b0) = 0" "n < limit"
  shows "inv n s"
  using assms
proof (induction rule: shared_reach.induct)
  case start
  then show ?case by (simp add: inv_def current_def)
next
  case (step n s t)
  then have inv: "inv n s" and n: "Suc n < limit" by simp_all
  from \<open>shared_step acq com s t\<close> show ?case
    by cases (use inv n in \<open>auto intro: inv_admit inv_refuse inv_report inv_lose\<close>)
qed

lemma one_probe:
  assumes "shared_reach acq com b0 n s" "wf b0" "num (gen b0) = 0" "n < limit"
    and "st (brk s) = stateHalfOpen"
  shows "length (filter (\<lambda>g. g = gen (brk s)) (tickets s)) \<le> 1"
  using reach_inv [OF assms(1-4)] assms(5) by (simp add: inv_def current_def)

lemma late_result_ignored:
  assumes "shared_reach acq com b0 n s" "wf b0" "num (gen b0) = 0" "n < limit"
    and "st (brk s) = stateOpen" "g \<in> set (tickets s)"
  shows "com (brk s) g success now = brk s"
proof -
  have i: "inv n s" by (rule reach_inv [OF assms(1-4)])
  with assms(5,6) have "g \<noteq> gen (brk s)"
    by (auto simp: inv_def current_def filter_empty_conv)
  with i show ?thesis by (simp add: inv_def com_stale)
qed

end

end
