(* ===== verification/GoBase64.thy ===== *)
theory GoBase64
  imports Prelude
begin

text \<open>
  \<^verbatim>\<open>base64.RawURLEncoding.EncodeToString\<close>, used to build Redis keys from provider and pool
  names. The encoding is injective, so different names never share a key.
\<close>

definition b64_alphabet :: string where
  "b64_alphabet = ''ABCDEFGHIJKLMNOPQRSTUVWXYZabcdefghijklmnopqrstuvwxyz0123456789-_''"

definition b64_char :: "nat \<Rightarrow> char" where
  "b64_char n = b64_alphabet ! n"

fun b64_encode :: "string \<Rightarrow> string" where
  "b64_encode [] = []"
| "b64_encode [x] = (let a = of_char x in [b64_char (a div 4), b64_char (a mod 4 * 16)])"
| "b64_encode [x, y] = (let a = of_char x; b = of_char y in
     [b64_char (a div 4), b64_char (a mod 4 * 16 + b div 16), b64_char (b mod 16 * 4)])"
| "b64_encode (x # y # z # r) = (let a = of_char x; b = of_char y; c = of_char z in
     b64_char (a div 4) # b64_char (a mod 4 * 16 + b div 16) # b64_char (b mod 16 * 4 + c div 64)
       # b64_char (c mod 64) # b64_encode r)"

lemma b64_char_inj: "m < 64 \<Longrightarrow> n < 64 \<Longrightarrow> b64_char m = b64_char n \<longleftrightarrow> m = n"
proof -
  have "distinct b64_alphabet" "length b64_alphabet = 64" by (simp_all add: b64_alphabet_def)
  then show "m < 64 \<Longrightarrow> n < 64 \<Longrightarrow> ?thesis" by (simp add: b64_char_def nth_eq_iff_index_eq)
qed

lemma mult_add_unique:
  fixes k x y p q :: nat
  assumes "x * k + p = y * k + q" "p < k" "q < k"
  shows "x = y \<and> p = q"
proof -
  have "(x * k + p) div k = (y * k + q) div k" "(x * k + p) mod k = (y * k + q) mod k"
    using assms(1) by simp_all
  with assms(2,3) show ?thesis by simp
qed

lemma first_byte:
  fixes a a' b b' :: nat
  assumes "a div 4 = a' div 4" "a mod 4 * 16 + b div 16 = a' mod 4 * 16 + b' div 16" "b < 256" "b' < 256"
  shows "a = a' \<and> b div 16 = b' div 16"
proof -
  have "b div 16 < 16" "b' div 16 < 16" using assms by simp_all
  then have "a mod 4 = a' mod 4 \<and> b div 16 = b' div 16" using assms(2) mult_add_unique by blast
  then show ?thesis using assms(1) div_mult_mod_eq [of a 4] div_mult_mod_eq [of a' 4] by metis
qed

lemma second_byte:
  fixes b b' c c' :: nat
  assumes "b div 16 = b' div 16" "b mod 16 * 4 + c div 64 = b' mod 16 * 4 + c' div 64" "c < 256" "c' < 256"
  shows "b = b' \<and> c div 64 = c' div 64"
proof -
  have "c div 64 < 4" "c' div 64 < 4" using assms by simp_all
  then have "b mod 16 = b' mod 16 \<and> c div 64 = c' div 64" using assms(2) mult_add_unique by blast
  then show ?thesis using assms(1) div_mult_mod_eq [of b 16] div_mult_mod_eq [of b' 16] by metis
qed

lemma third_byte:
  fixes c c' :: nat
  shows "c div 64 = c' div 64 \<Longrightarrow> c mod 64 = c' mod 64 \<Longrightarrow> c = c'"
  by (metis div_mult_mod_eq)

lemma b64_bounds [simp]:
  "(of_char x :: nat) div 4 < 64" "(of_char x :: nat) mod 4 * 16 + of_char y div 16 < 64"
  "(of_char y :: nat) mod 16 * 4 + of_char z div 64 < 64" "(of_char z :: nat) mod 64 < 64"
  "(of_char x :: nat) mod 4 * 16 < 64" "(of_char y :: nat) mod 16 * 4 < 64"
proof -
  show "(of_char x :: nat) div 4 < 64" by (rule less_mult_imp_div_less) simp
  have "(of_char x :: nat) mod 4 \<le> 3" "(of_char y :: nat) mod 16 \<le> 15" by simp_all
  moreover have "(of_char y :: nat) div 16 < 16" by (rule less_mult_imp_div_less) simp
  moreover have "(of_char z :: nat) div 64 < 4" by (rule less_mult_imp_div_less) simp
  ultimately show "(of_char x :: nat) mod 4 * 16 + of_char y div 16 < 64"
    "(of_char y :: nat) mod 16 * 4 + of_char z div 64 < 64" by linarith+
qed simp_all

lemma b64_encode_inj: "b64_encode s = b64_encode t \<Longrightarrow> s = t"
proof (induction s arbitrary: t rule: b64_encode.induct)
  case 1
  then show ?case by (cases t rule: b64_encode.cases) (simp_all add: Let_def)
next
  case (2 x)
  show ?case
  proof (cases t rule: b64_encode.cases)
    case (2 x')
    with "2.prems" have "(of_char x :: nat) div 4 = of_char x' div 4" "(of_char x :: nat) mod 4 * 16 = of_char x' mod 4 * 16"
      by (simp_all add: Let_def b64_char_inj)
    then show ?thesis using 2 first_byte [of "of_char x" "of_char x'" 0 0] by simp
  qed (use "2.prems" in \<open>simp_all add: Let_def\<close>)
next
  case (3 x y)
  show ?case
  proof (cases t rule: b64_encode.cases)
    case (3 x' y')
    with "3.prems" have e: "(of_char x :: nat) div 4 = of_char x' div 4"
      "(of_char x :: nat) mod 4 * 16 + of_char y div 16 = of_char x' mod 4 * 16 + of_char y' div 16"
      "(of_char y :: nat) mod 16 * 4 = of_char y' mod 16 * 4"
      by (simp_all add: Let_def b64_char_inj)
    have "(of_char x :: nat) = of_char x' \<and> (of_char y :: nat) div 16 = of_char y' div 16"
      using first_byte [OF e(1,2)] by simp
    with e(3) show ?thesis using 3 second_byte [of "of_char y" "of_char y'" 0 0] by simp
  qed (use "3.prems" in \<open>simp_all add: Let_def\<close>)
next
  case (4 x y z r)
  show ?case
  proof (cases t rule: b64_encode.cases)
    case (4 x' y' z' r')
    with "4.prems" have e:
      "(of_char x :: nat) div 4 = of_char x' div 4"
      "(of_char x :: nat) mod 4 * 16 + of_char y div 16 = of_char x' mod 4 * 16 + of_char y' div 16"
      "(of_char y :: nat) mod 16 * 4 + of_char z div 64 = of_char y' mod 16 * 4 + of_char z' div 64"
      "(of_char z :: nat) mod 64 = of_char z' mod 64" "b64_encode r = b64_encode r'"
      by (simp_all add: Let_def b64_char_inj)
    have "(of_char x :: nat) = of_char x' \<and> (of_char y :: nat) div 16 = of_char y' div 16"
      using first_byte [OF e(1,2)] by simp
    moreover from this have "(of_char y :: nat) = of_char y' \<and> (of_char z :: nat) div 64 = of_char z' div 64"
      using second_byte [OF _ e(3)] by simp
    moreover from this have "(of_char z :: nat) = of_char z'" using third_byte e(4) by blast
    ultimately show ?thesis using "4.IH" [OF refl refl refl e(5)] 4 by simp
  qed (use "4.prems" in \<open>simp_all add: Let_def\<close>)
qed

end
