(* ===== verification/RedisCircuit.thy ===== *)
theory RedisCircuit
  imports RedisLua CircuitContract GoBase64
begin

text \<open>
  The circuit breaker that all worker replicas share through Redis
  (\<^verbatim>\<open>internal/infrastructure/sms/redis_provider_state.go\<close>): the two Lua scripts, command by
  command, and the Go functions around them. The scripts are shown to refine a small
  state machine on records (\<open>rc_acquire\<close>, \<open>rc_complete\<close>), which keeps the contract of
  \<open>CircuitContract\<close>; a half-open probe has a lease, after which another worker takes over.
\<close>

section \<open>The scripts\<close>

definition or_zero :: "string option \<Rightarrow> string" where
  "or_zero v = (case v of None \<Rightarrow> ''0'' | Some t \<Rightarrow> t)"

definition or_closed :: "string option \<Rightarrow> string" where
  "or_closed v = (case v of None \<Rightarrow> ''closed'' | Some t \<Rightarrow> t)"

definition time_ms :: "int \<times> int \<Rightarrow> int" where
  "time_ms t = lua_num (lua_num (fst t * 1000) + snd t div 1000)"

definition ints :: "int list \<Rightarrow> reply" where
  "ints ns = RArr (map RInt ns)"

definition redisCircuitAcquireScript :: "string \<Rightarrow> int \<Rightarrow> int \<Rightarrow> reply lua" where
  "redisCircuitAcquireScript K cooldown lease =
    lbind redis_TIME (\<lambda>t. let now = time_ms t in
    lbind (redis_HGET K ''state'') (\<lambda>st. let state = or_closed st in
    lbind (redis_HGET K ''generation'') (\<lambda>g. lbind (tonumber (or_zero g)) (\<lambda>generation.
    if state = ''open'' then
      lbind (redis_HGET K ''opened_at'') (\<lambda>oa. lbind (tonumber (or_zero oa)) (\<lambda>opened_at.
      if lua_num (now - opened_at) < lua_num cooldown then lret (ints [0, generation, 1, 0])
      else lbind (redis_HSET K [(''state'', ''half-open''), (''half_open_until'', FormatInt (lua_num (now + lua_num lease)))])
        (\<lambda>_. lret (ints [1, generation, 2, 1]))))
    else if state = ''half-open'' then
      lbind (redis_HGET K ''half_open_until'') (\<lambda>u. lbind (tonumber (or_zero u)) (\<lambda>lease_until.
      if lease_until > now then lret (ints [0, generation, 2, 0])
      else
        let generation = lua_num (generation + 1) in
        lbind (redis_HSET K [(''generation'', FormatInt generation), (''half_open_until'', FormatInt (lua_num (now + lua_num lease)))])
          (\<lambda>_. lret (ints [1, generation, 2, 0]))))
    else lret (ints [1, generation, 0, 0])))))"

definition state_code :: "string \<Rightarrow> int" where
  "state_code state = (if state = ''open'' then 1 else if state = ''half-open'' then 2 else 0)"

definition redisCircuitCompleteScript :: "string \<Rightarrow> int \<Rightarrow> int \<Rightarrow> int \<Rightarrow> reply lua" where
  "redisCircuitCompleteScript K gen success threshold =
    lbind redis_TIME (\<lambda>t. let now = time_ms t in
    lbind (redis_HGET K ''generation'') (\<lambda>g. lbind (tonumber (or_zero g)) (\<lambda>generation.
    if generation \<noteq> lua_num gen then
      lbind (redis_HGET K ''state'') (\<lambda>st. lret (ints [state_code (or_closed st), 0]))
    else
    lbind (redis_HGET K ''state'') (\<lambda>st. let state = or_closed st in
    if state = ''half-open'' then
      let generation = lua_num (generation + 1) in
      if success = 1 then
        lbind (redis_HSET K [(''state'', ''closed''), (''failures'', FormatInt 0), (''generation'', FormatInt generation)]) (\<lambda>_.
        lbind (redis_HDEL K [''opened_at'', ''half_open_until'']) (\<lambda>_. lret (ints [0, 1])))
      else
        lbind (redis_HSET K [(''state'', ''open''), (''opened_at'', FormatInt now), (''generation'', FormatInt generation)]) (\<lambda>_.
        lbind (redis_HDEL K [''half_open_until'']) (\<lambda>_. lret (ints [1, 1])))
    else if state = ''closed'' \<and> success = 1 then
      lbind (redis_HSET K [(''failures'', FormatInt 0)]) (\<lambda>_. lret (ints [0, 0]))
    else if state = ''closed'' then
      lbind (redis_HINCRBY K ''failures'' 1) (\<lambda>failures.
      if lua_num failures \<ge> lua_num threshold then
        let generation = lua_num (generation + 1) in
        lbind (redis_HSET K [(''state'', ''open''), (''opened_at'', FormatInt now), (''generation'', FormatInt generation)]) (\<lambda>_.
        lret (ints [1, 1]))
      else lret (ints [state_code state, 0]))
    else lret (ints [state_code state, 0])))))"

section \<open>The state machine the scripts implement\<close>

record rcircuit =
  rc_state :: circuitState
  rc_generation :: nat
  rc_failures :: int
  rc_opened_at :: int
  rc_half_open_until :: int

definition rc_new :: rcircuit where
  "rc_new = \<lparr>rc_state = stateClosed, rc_generation = 0, rc_failures = 0, rc_opened_at = 0, rc_half_open_until = 0\<rparr>"

definition rc_acquire :: "int \<Rightarrow> int \<Rightarrow> rcircuit \<Rightarrow> int \<Rightarrow> (bool \<times> nat \<times> circuitState \<times> bool) \<times> rcircuit" where
  "rc_acquire cooldown lease c now = (case rc_state c of
     stateClosed \<Rightarrow> ((True, rc_generation c, stateClosed, False), c)
   | stateOpen \<Rightarrow>
       if now - rc_opened_at c < cooldown then ((False, rc_generation c, stateOpen, False), c)
       else ((True, rc_generation c, stateHalfOpen, True),
         c\<lparr>rc_state := stateHalfOpen, rc_half_open_until := now + lease\<rparr>)
   | stateHalfOpen \<Rightarrow>
       if now < rc_half_open_until c then ((False, rc_generation c, stateHalfOpen, False), c)
       else ((True, rc_generation c + 1, stateHalfOpen, False),
         c\<lparr>rc_generation := rc_generation c + 1, rc_half_open_until := now + lease\<rparr>))"

definition rc_complete :: "int \<Rightarrow> rcircuit \<Rightarrow> nat \<Rightarrow> bool \<Rightarrow> int \<Rightarrow> (circuitState \<times> bool) \<times> rcircuit" where
  "rc_complete threshold c g success now =
    (if g \<noteq> rc_generation c then ((rc_state c, False), c)
     else case rc_state c of
       stateHalfOpen \<Rightarrow>
         if success then ((stateClosed, True), c\<lparr>rc_state := stateClosed, rc_failures := 0,
           rc_generation := rc_generation c + 1, rc_opened_at := 0, rc_half_open_until := 0\<rparr>)
         else ((stateOpen, True), c\<lparr>rc_state := stateOpen, rc_opened_at := now,
           rc_generation := rc_generation c + 1, rc_half_open_until := 0\<rparr>)
     | stateClosed \<Rightarrow>
         if success then ((stateClosed, False), c\<lparr>rc_failures := 0\<rparr>)
         else if threshold \<le> rc_failures c + 1
         then ((stateOpen, True), c\<lparr>rc_failures := rc_failures c + 1, rc_state := stateOpen,
           rc_opened_at := now, rc_generation := rc_generation c + 1\<rparr>)
         else ((stateClosed, False), c\<lparr>rc_failures := rc_failures c + 1\<rparr>)
     | stateOpen \<Rightarrow> ((stateOpen, False), c))"

section \<open>Hashes as circuits\<close>

definition hash_at :: "redis_state \<Rightarrow> string \<Rightarrow> (string \<Rightarrow> string option) option" where
  "hash_at s K = (case keys s K of None \<Rightarrow> Some Map.empty | Some (RHash h) \<Rightarrow> Some h | Some (RStr _) \<Rightarrow> None)"

definition num_field :: "(string \<Rightarrow> string option) \<Rightarrow> string \<Rightarrow> int" where
  "num_field h f = (case ParseInt (or_zero (h f)) of Inr n \<Rightarrow> n | Inl _ \<Rightarrow> 0)"

definition num_ok :: "(string \<Rightarrow> string option) \<Rightarrow> string \<Rightarrow> bool" where
  "num_ok h f \<longleftrightarrow> ParseInt (or_zero (h f)) = Inr (num_field h f) \<and> 0 \<le> num_field h f \<and> num_field h f < 2 ^ 53"

definition state_of :: "string \<Rightarrow> circuitState" where
  "state_of t = (if t = ''open'' then stateOpen else if t = ''half-open'' then stateHalfOpen else stateClosed)"

definition rc_of :: "(string \<Rightarrow> string option) \<Rightarrow> rcircuit" where
  "rc_of h = \<lparr>rc_state = state_of (or_closed (h ''state'')), rc_generation = nat (num_field h ''generation''),
    rc_failures = num_field h ''failures'', rc_opened_at = num_field h ''opened_at'',
    rc_half_open_until = num_field h ''half_open_until''\<rparr>"

definition circuit_ok :: "(string \<Rightarrow> string option) \<Rightarrow> bool" where
  "circuit_ok h \<longleftrightarrow> or_closed (h ''state'') \<in> {''closed'', ''open'', ''half-open''}
    \<and> num_ok h ''generation'' \<and> num_ok h ''failures'' \<and> num_ok h ''opened_at'' \<and> num_ok h ''half_open_until''"

definition now_ms :: "redis_state \<Rightarrow> int" where
  "now_ms s = clock_us s div 1000"

definition code :: "circuitState \<Rightarrow> int" where
  "code c = (case c of stateClosed \<Rightarrow> 0 | stateOpen \<Rightarrow> 1 | stateHalfOpen \<Rightarrow> 2)"

lemma circuit_ok_empty: "circuit_ok Map.empty" "rc_of Map.empty = rc_new"
  by (simp_all add: circuit_ok_def num_ok_def num_field_def rc_of_def rc_new_def or_zero_def or_closed_def
      state_of_def ParseInt_def ParseUint_def read_nat_def digit_val_def is_digit_def)

lemma num_ok_parse: "num_ok h f \<Longrightarrow> ParseInt (or_zero (h f)) = Inr (num_field h f)"
  by (simp add: num_ok_def)

lemma num_ok_lua: "num_ok h f \<Longrightarrow> lua_num (num_field h f) = num_field h f"
  by (simp add: num_ok_def)

lemma tonumber_field [simp]: "num_ok h f \<Longrightarrow> tonumber (or_zero (h f)) s = (Inr (num_field h f), s)"
  by (simp add: tonumber_def num_ok_parse num_ok_lua lret_def)

lemma num_field_upd:
  "h f = Some (FormatInt n) \<Longrightarrow> in_int64 n \<Longrightarrow> num_field h f = n"
  by (simp add: num_field_def or_zero_def)

lemma num_ok_upd:
  "h f = Some (FormatInt n) \<Longrightarrow> 0 \<le> n \<Longrightarrow> n < 2 ^ 53 \<Longrightarrow> num_ok h f"
  by (simp add: num_ok_def num_field_def or_zero_def in_int64_def)

lemma num_field_none: "h f = None \<Longrightarrow> num_field h f = 0 \<and> num_ok h f"
  by (simp add: num_ok_def num_field_def or_zero_def ParseInt_def ParseUint_def read_nat_def
      digit_val_def is_digit_def)

lemma num_field_same: "h f = h' f \<Longrightarrow> num_field h f = num_field h' f \<and> num_ok h f = num_ok h' f"
  by (simp add: num_ok_def num_field_def)

lemma redis_HGET_hash [simp]: "hash_at s K = Some h \<Longrightarrow> redis_HGET K f s = (Inr (h f), s)"
  by (auto simp: hash_at_def redis_HGET_def lret_def split: option.splits redis_value.splits)

lemma redis_HSET_hash: "hash_at s K = Some h \<Longrightarrow>
  redis_HSET K fvs s = (Inr (), s\<lparr>keys := (keys s)(K \<mapsto> RHash (h ++ map_of (rev fvs)))\<rparr>)"
  by (auto simp: hash_at_def redis_HSET_def lret_def split: option.splits redis_value.splits)

lemma redis_HDEL_upd: "redis_HDEL K fs (s\<lparr>keys := (keys s)(K \<mapsto> RHash h)\<rparr>) =
  (Inr (), s\<lparr>keys := (keys s)(K \<mapsto> RHash (h |` (- set fs)))\<rparr>)"
  by (simp add: redis_HDEL_def lret_def)

lemma time_ms_now:
  assumes "0 \<le> clock_us s" "now_ms s < 2 ^ 53"
  shows "redis_TIME s = (Inr (clock_us s div 1000000, clock_us s mod 1000000), s)"
    and "time_ms (clock_us s div 1000000, clock_us s mod 1000000) = now_ms s"
proof -
  have "clock_us s = clock_us s mod 1000000 + clock_us s div 1000000 * 1000 * 1000" by simp
  then have "now_ms s = (clock_us s mod 1000000 + clock_us s div 1000000 * 1000 * 1000) div 1000"
    by (simp only: now_ms_def)
  also have "\<dots> = clock_us s div 1000000 * 1000 + clock_us s mod 1000000 div 1000"
    by (simp only: div_mult_self1)
  finally have e: "clock_us s div 1000000 * 1000 + clock_us s mod 1000000 div 1000 = now_ms s" ..
  have "0 \<le> clock_us s div 1000000 * 1000" "0 \<le> clock_us s mod 1000000 div 1000"
    using assms(1) by (simp_all add: pos_imp_zdiv_nonneg_iff)
  with e assms(2) show "time_ms (clock_us s div 1000000, clock_us s mod 1000000) = now_ms s"
    by (simp add: time_ms_def)
qed (simp add: redis_TIME_def)


section \<open>The scripts refine the state machine\<close>

definition acquire_reply :: "bool \<times> nat \<times> circuitState \<times> bool \<Rightarrow> reply" where
  "acquire_reply r = (case r of (allowed, g, st, changed) \<Rightarrow>
    ints [if allowed then 1 else 0, int g, code st, if changed then 1 else 0])"

definition complete_reply :: "circuitState \<times> bool \<Rightarrow> reply" where
  "complete_reply r = (case r of (st, changed) \<Rightarrow> ints [code st, if changed then 1 else 0])"

text \<open>A script run that leaves the circuit \<open>c\<close> at key \<open>K\<close> and touches nothing else.\<close>

definition leaves :: "redis_state \<Rightarrow> string \<Rightarrow> rcircuit \<Rightarrow> redis_state \<Rightarrow> bool" where
  "leaves s K c s' \<longleftrightarrow> (\<exists>h'. hash_at s' K = Some h' \<and> circuit_ok h' \<and> rc_of h' = c)
    \<and> (\<forall>k. k \<noteq> K \<longrightarrow> keys s' k = keys s k) \<and> clock_us s' = clock_us s"

lemma leaves_same: "hash_at s K = Some h \<Longrightarrow> circuit_ok h \<Longrightarrow> leaves s K (rc_of h) s"
  by (auto simp: leaves_def)

lemma leaves_upd:
  "circuit_ok h' \<Longrightarrow> rc_of h' = c \<Longrightarrow> leaves s K c (s\<lparr>keys := (keys s)(K \<mapsto> RHash h')\<rparr>)"
  by (auto simp: leaves_def hash_at_def)

lemmas field_simps' = num_field_def num_ok_def or_zero_def or_closed_def state_of_def

lemma rc_of_sel [simp]:
  "rc_state (rc_of h) = state_of (or_closed (h ''state''))"
  "rc_generation (rc_of h) = nat (num_field h ''generation'')"
  "rc_failures (rc_of h) = num_field h ''failures''"
  "rc_opened_at (rc_of h) = num_field h ''opened_at''"
  "rc_half_open_until (rc_of h) = num_field h ''half_open_until''"
  by (simp_all add: rc_of_def)

lemma circuit_okD:
  assumes "circuit_ok h"
  shows "num_ok h ''generation''" "num_ok h ''failures''" "num_ok h ''opened_at''" "num_ok h ''half_open_until''"
    "or_closed (h ''state'') = ''closed'' \<or> or_closed (h ''state'') = ''open'' \<or> or_closed (h ''state'') = ''half-open''"
    "0 \<le> num_field h ''generation''" "num_field h ''generation'' < 2 ^ 53"
    "0 \<le> num_field h ''failures''" "num_field h ''failures'' < 2 ^ 53"
    "0 \<le> num_field h ''opened_at''" "num_field h ''opened_at'' < 2 ^ 53"
  using assms by (auto simp: circuit_ok_def num_ok_def)

lemma FormatInt_field [simp]: "0 \<le> n \<Longrightarrow> n < 2 ^ 53 \<Longrightarrow> ParseInt (FormatInt n) = Inr n"
  by (simp add: in_int64_def)

lemma acquire_refines:
  assumes h: "hash_at s K = Some h" and ok: "circuit_ok h"
    and clk: "0 \<le> clock_us s" "now_ms s + lease < 2 ^ 53" and par: "0 \<le> lease" "0 \<le> cd" "cd < 2 ^ 53"
    and gen: "num_field h ''generation'' + 1 < 2 ^ 53"
  shows "\<exists>s'. redisCircuitAcquireScript K cd lease s
      = (Inr (acquire_reply (fst (rc_acquire cd lease (rc_of h) (now_ms s)))), s')
    \<and> leaves s K (snd (rc_acquire cd lease (rc_of h) (now_ms s))) s'"
proof -
  note d = circuit_okD [OF ok]
  have now0: "0 \<le> now_ms s" "now_ms s < 2 ^ 53" using clk par by (simp_all add: now_ms_def pos_imp_zdiv_nonneg_iff)
  note t = time_ms_now [OF clk(1) now0(2)]
  have [simp]: "lua_num cd = cd" "lua_num lease = lease" "lua_num (now_ms s + lease) = now_ms s + lease"
    "lua_num (now_ms s - num_field h ''opened_at'') = now_ms s - num_field h ''opened_at''"
    "lua_num (num_field h ''generation'' + 1) = num_field h ''generation'' + 1"
    "1 + num_field h ''generation'' = num_field h ''generation'' + 1"
    using clk par gen d now0 by simp_all
  note exec = redisCircuitAcquireScript_def lbind_def t h d lret_def redis_HSET_hash [OF h] Let_def
    rc_acquire_def acquire_reply_def
  from d(5) consider (closed) "or_closed (h ''state'') = ''closed''" | (opn) "or_closed (h ''state'') = ''open''"
    | (half) "or_closed (h ''state'') = ''half-open''" by blast
  then show ?thesis
  proof cases
    case closed
    then show ?thesis using leaves_same [OF h ok] d by (simp add: exec state_of_def code_def)
  next
    case opn
    let ?h = "h ++ map_of (rev [(''state'', ''half-open''), (''half_open_until'', FormatInt (now_ms s + lease))])"
    have "circuit_ok ?h" "rc_of ?h = (rc_of h)\<lparr>rc_state := stateHalfOpen, rc_half_open_until := now_ms s + lease\<rparr>"
      using ok clk par now0 by (simp_all add: circuit_ok_def rc_of_def field_simps')
    from leaves_upd [OF this] leaves_same [OF h ok] opn d show ?thesis
      by (simp add: exec state_of_def code_def)
  next
    case half
    let ?h = "h ++ map_of (rev [(''generation'', FormatInt (num_field h ''generation'' + 1)), (''half_open_until'', FormatInt (now_ms s + lease))])"
    have "circuit_ok ?h" "rc_of ?h = (rc_of h)\<lparr>rc_generation := rc_generation (rc_of h) + 1, rc_half_open_until := now_ms s + lease\<rparr>"
      using ok clk par now0 gen d by (simp_all add: circuit_ok_def rc_of_def field_simps' nat_add_distrib)
    from leaves_upd [OF this] leaves_same [OF h ok] half d show ?thesis
      by (simp add: exec state_of_def code_def)
  qed
qed


lemma complete_refines:
  assumes h: "hash_at s K = Some h" and ok: "circuit_ok h"
    and clk: "0 \<le> clock_us s" "now_ms s < 2 ^ 53" and par: "0 \<le> th" "th < 2 ^ 53" "g < 2 ^ 53"
    and gen: "num_field h ''generation'' + 1 < 2 ^ 53" "num_field h ''failures'' + 1 < 2 ^ 53"
  shows "\<exists>s'. redisCircuitCompleteScript K (int g) (if success then 1 else 0) th s
      = (Inr (complete_reply (fst (rc_complete th (rc_of h) g success (now_ms s)))), s')
    \<and> leaves s K (snd (rc_complete th (rc_of h) g success (now_ms s))) s'"
proof -
  note d = circuit_okD [OF ok]
  have now0: "0 \<le> now_ms s" using clk by (simp add: now_ms_def pos_imp_zdiv_nonneg_iff)
  note t = time_ms_now [OF clk]
  let ?G = "num_field h ''generation''" and ?F = "num_field h ''failures''"
  have [simp]: "lua_num th = th" "lua_num (int g) = int g" "lua_num (?G + 1) = ?G + 1" "lua_num (?F + 1) = ?F + 1"
    using par gen d by simp_all
  have gcmp: "?G \<noteq> int g \<longleftrightarrow> g \<noteq> rc_generation (rc_of h)" using d by auto
  have inc: "redis_HINCRBY K ''failures'' 1 s =
      (Inr (?F + 1), s\<lparr>keys := (keys s)(K \<mapsto> RHash (h(''failures'' \<mapsto> FormatInt (?F + 1))))\<rparr>)"
  proof -
    have "(case h ''failures'' of None \<Rightarrow> Inr 0 | Some x \<Rightarrow> ParseInt x) = Inr ?F"
      using num_ok_parse [OF d(2)] num_field_none [of h "''failures''"]
      by (cases "h ''failures''") (simp_all add: or_zero_def)
    moreover have "in_int64 (?F + 1)" using gen d by (simp add: in_int64_def)
    ultimately show ?thesis
      by (simp add: redis_HINCRBY_def lbind_def h redis_HSET_hash [OF h] lret_def)
  qed
  note exec = redisCircuitCompleteScript_def lbind_def t h d lret_def redis_HSET_hash [OF h]
    inc Let_def rc_complete_def complete_reply_def gcmp
  have st_code: "state_code (or_closed (h ''state'')) = code (rc_state (rc_of h))"
    using d(5) by (auto simp: state_code_def code_def state_of_def)
  show ?thesis
  proof (cases "g = rc_generation (rc_of h)")
    case False
    then show ?thesis using leaves_same [OF h ok] st_code by (simp add: exec)
  next
    case g: True
    from d(5) consider (closed) "or_closed (h ''state'') = ''closed''" | (opn) "or_closed (h ''state'') = ''open''"
      | (half) "or_closed (h ''state'') = ''half-open''" by blast
    then show ?thesis
    proof cases
      case closed
      let ?h0 = "h(''failures'' \<mapsto> FormatInt 0)" and ?h1 = "h(''failures'' \<mapsto> FormatInt (?F + 1))"
      let ?h2 = "?h1 ++ map_of (rev [(''state'', ''open''), (''opened_at'', FormatInt (now_ms s)), (''generation'', FormatInt (?G + 1))])"
      have 0: "circuit_ok ?h0" "rc_of ?h0 = (rc_of h)\<lparr>rc_failures := 0\<rparr>"
        using ok by (simp_all add: circuit_ok_def rc_of_def field_simps')
      have 1: "circuit_ok ?h1" "rc_of ?h1 = (rc_of h)\<lparr>rc_failures := ?F + 1\<rparr>"
        using ok gen d by (simp_all add: circuit_ok_def rc_of_def field_simps')
      have 2: "circuit_ok ?h2" "rc_of ?h2 = (rc_of h)\<lparr>rc_failures := ?F + 1, rc_state := stateOpen,
          rc_opened_at := now_ms s, rc_generation := rc_generation (rc_of h) + 1\<rparr>"
        using ok gen d clk now0 by (simp_all add: circuit_ok_def rc_of_def field_simps' nat_add_distrib)
      have at1: "hash_at (s\<lparr>keys := (keys s)(K \<mapsto> RHash ?h1)\<rparr>) K = Some ?h1" by (simp add: hash_at_def)
      show ?thesis
        using leaves_upd [OF 0, of s K] leaves_upd [OF 1, of s K] leaves_upd [OF 2, of s K] closed g d
        by (simp add: exec redis_HSET_hash [OF at1] state_of_def code_def state_code_def)
    next
      case opn
      then show ?thesis using leaves_same [OF h ok] g d
        by (simp add: exec state_of_def code_def state_code_def)
    next
      case half
      let ?hc = "(h ++ map_of (rev [(''state'', ''closed''), (''failures'', FormatInt 0), (''generation'', FormatInt (?G + 1))]))
          |` (- {''opened_at'', ''half_open_until''})"
      let ?ho = "(h ++ map_of (rev [(''state'', ''open''), (''opened_at'', FormatInt (now_ms s)), (''generation'', FormatInt (?G + 1))]))
          |` (- {''half_open_until''})"
      have c: "circuit_ok ?hc" "rc_of ?hc = (rc_of h)\<lparr>rc_state := stateClosed, rc_failures := 0,
           rc_generation := rc_generation (rc_of h) + 1, rc_opened_at := 0, rc_half_open_until := 0\<rparr>"
        using ok gen d by (simp_all add: circuit_ok_def rc_of_def num_field_none restrict_map_def)
          (simp_all add: field_simps' nat_add_distrib)
      have o: "circuit_ok ?ho" "rc_of ?ho = (rc_of h)\<lparr>rc_state := stateOpen, rc_opened_at := now_ms s,
           rc_generation := rc_generation (rc_of h) + 1, rc_half_open_until := 0\<rparr>"
        using ok gen d clk now0 by (simp_all add: circuit_ok_def rc_of_def num_field_none restrict_map_def)
          (simp_all add: field_simps' nat_add_distrib)
      have G: "(?G \<noteq> int g) = False" using g gcmp by simp
      have "redisCircuitCompleteScript K (int g) (if success then 1 else 0) th s
          = (Inr (ints (if success then [0, 1] else [1, 1])),
             s\<lparr>keys := (keys s)(K \<mapsto> RHash (if success then ?hc else ?ho))\<rparr>)"
        by (cases success)
          (simp_all only: redisCircuitCompleteScript_def lbind_def t h d(1) lret_def tonumber_field
            redis_HGET_hash [OF h] redis_HSET_hash [OF h] redis_HDEL_upd Let_def G half
            \<open>lua_num (int g) = int g\<close> \<open>lua_num (?G + 1) = ?G + 1\<close>
            prod.case sum.case if_True if_False simp_thms list.set zero_neq_one)
      moreover have "rc_complete th (rc_of h) g success (now_ms s) =
          (if success then ((stateClosed, True), rc_of ?hc) else ((stateOpen, True), rc_of ?ho))"
        unfolding c(2) o(2) using half g by (simp add: rc_complete_def state_of_def)
      ultimately show ?thesis
        using leaves_upd [OF c(1) refl, of s K] leaves_upd [OF o(1) refl, of s K]
        by (simp add: complete_reply_def code_def)
    qed
  qed
qed


section \<open>The contract\<close>

definition rc_acq :: "int \<Rightarrow> int \<Rightarrow> rcircuit \<Rightarrow> time \<Rightarrow> nat option \<times> rcircuit" where
  "rc_acq cd lease c now = (case rc_acquire cd lease c now of
    ((allowed, g, _), c') \<Rightarrow> (if allowed then Some g else None, c'))"

definition rc_com :: "int \<Rightarrow> rcircuit \<Rightarrow> nat \<Rightarrow> bool \<Rightarrow> time \<Rightarrow> rcircuit" where
  "rc_com th c g success now = snd (rc_complete th c g success now)"

definition rc_wf :: "int \<Rightarrow> rcircuit \<Rightarrow> bool" where
  "rc_wf th c \<longleftrightarrow> 1 \<le> th \<and> (rc_state c = stateClosed \<longrightarrow> 0 \<le> rc_failures c \<and> rc_failures c < th)"

interpretation rc: circuit_contract "rc_acq cd lease" "rc_com th" rc_state rc_generation "\<lambda>n. n" "rc_wf th" limit
  for cd lease th limit
  by unfold_locales
    (auto simp: rc_acq_def rc_com_def rc_acquire_def rc_complete_def rc_wf_def
      split: circuitState.splits if_splits)

section \<open>The Go functions\<close>

record redisProviderState =
  rp_prefix :: string
  rp_failureThreshold :: int
  rp_cooldown :: duration
  rp_halfOpenLease :: duration

text \<open>
  The constructor. Parsing the URL and pinging the server are the client library's;
  \<open>parse\<close> and \<open>ping\<close> stand for them.
\<close>

definition newRedisProviderState ::
  "(string \<Rightarrow> error + 'o) \<Rightarrow> ('o \<Rightarrow> error option) \<Rightarrow> string \<Rightarrow> string \<Rightarrow> int \<Rightarrow> duration \<Rightarrow> duration \<Rightarrow>
   error + redisProviderState" where
  "newRedisProviderState parse ping redisURL poolName th cd lease =
    (if poolName = [] then Inl (NewError ''Redis provider pool name is required'')
     else if lease \<le> 0 then Inl (NewError ''circuit breaker half-open lease must be positive'')
     else case parse redisURL of
       Inl err \<Rightarrow> Inl (Wrapf ''parse provider pool Redis URL: '' err [])
     | Inr options \<Rightarrow> (case ping options of
         Some err \<Rightarrow> Inl (Wrapf ''connect provider pool Redis: '' err [])
       | None \<Rightarrow> Inr \<lparr>rp_prefix = ''sms:provider-pool:'' @ b64_encode poolName,
           rp_failureThreshold = th, rp_cooldown = cd, rp_halfOpenLease = lease\<rparr>))"

definition circuitKey :: "redisProviderState \<Rightarrow> string \<Rightarrow> string" where
  "circuitKey s provider = rp_prefix s @ '':circuit:'' @ b64_encode provider"

definition redisInt64 :: "reply \<Rightarrow> error + int" where
  "redisInt64 v = (case v of
     RInt n \<Rightarrow> Inr n
   | RBulk t \<Rightarrow> (case ParseInt t of
        Inl err \<Rightarrow> Inl (Wrapf (''parse Redis integer '' @ quoted t @ '': '') (NumError ''ParseInt'' t err) []) | Inr n \<Rightarrow> Inr n)
   | RNil \<Rightarrow> Inl (NewError ''unexpected Redis integer type <nil>'')
   | RArr _ \<Rightarrow> Inl (NewError ''unexpected Redis integer type []interface {}''))"

definition redisCircuitState :: "reply \<Rightarrow> error + circuitState" where
  "redisCircuitState v = (case redisInt64 v of Inl err \<Rightarrow> Inl err
   | Inr c \<Rightarrow> if c = 0 then Inr stateClosed else if c = 1 then Inr stateOpen
       else if c = 2 then Inr stateHalfOpen
       else Inl (NewError (''unknown Redis circuit state '' @ FormatInt c)))"

definition redis_next_key :: "redisProviderState \<Rightarrow> string" where
  "redis_next_key s = rp_prefix s @ '':round-robin''"

definition rp_next :: "'w redis_client \<Rightarrow> redisProviderState \<Rightarrow> 'w \<Rightarrow> (error + 64 word) \<times> 'w" where
  "rp_next eval s w = (case eval (lbind (redis_INCRBY (redis_next_key s) 1) (\<lambda>n. lret (RInt n))) w of
     (Inl err, w') \<Rightarrow> (Inl err, w')
   | (Inr (RInt n), w') \<Rightarrow> (Inr (word_of_int n - 1), w')
   | (Inr _, w') \<Rightarrow> (Inl (NewError ''redis: unexpected reply''), w'))"

definition rp_acquire ::
  "'w redis_client \<Rightarrow> redisProviderState \<Rightarrow> string \<Rightarrow> 'w \<Rightarrow> (error + 64 word \<times> bool \<times> circuitState \<times> bool) \<times> 'w" where
  "rp_acquire eval s provider w =
    (case eval (redisCircuitAcquireScript (circuitKey s provider)
        (Milliseconds (rp_cooldown s)) (Milliseconds (rp_halfOpenLease s))) w of
       (Inl err, w') \<Rightarrow> (Inl err, w')
     | (Inr (RArr result), w') \<Rightarrow>
         (case result of [r0, r1, r2, r3] \<Rightarrow>
            (case redisInt64 r0 of Inl err \<Rightarrow> (Inl err, w') | Inr allowed \<Rightarrow>
             case redisInt64 r1 of Inl err \<Rightarrow> (Inl err, w') | Inr generation \<Rightarrow>
             case redisCircuitState r2 of Inl err \<Rightarrow> (Inl err, w') | Inr state \<Rightarrow>
             case redisInt64 r3 of Inl err \<Rightarrow> (Inl err, w') | Inr changed \<Rightarrow>
               (Inr (word_of_int generation, allowed = 1, state, changed = 1), w'))
          | _ \<Rightarrow> (Inl (NewError (''unexpected circuit acquire result length '' @ FormatInt (int (length result)))), w'))
     | (Inr _, w') \<Rightarrow> (Inl (NewError ''redis: unexpected reply''), w'))"

definition rp_complete ::
  "'w redis_client \<Rightarrow> redisProviderState \<Rightarrow> string \<Rightarrow> 64 word \<Rightarrow> bool \<Rightarrow> 'w \<Rightarrow> (error + circuitState \<times> bool) \<times> 'w" where
  "rp_complete eval s provider generation success w =
    (case eval (redisCircuitCompleteScript (circuitKey s provider)
        (uint generation) (if success then 1 else 0) (rp_failureThreshold s)) w of
       (Inl err, w') \<Rightarrow> (Inl err, w')
     | (Inr (RArr result), w') \<Rightarrow>
         (case result of [r0, r1] \<Rightarrow>
            (case redisCircuitState r0 of Inl err \<Rightarrow> (Inl err, w') | Inr state \<Rightarrow>
             case redisInt64 r1 of Inl err \<Rightarrow> (Inl err, w') | Inr changed \<Rightarrow>
               (Inr (state, changed = 1), w'))
          | _ \<Rightarrow> (Inl (NewError (''unexpected circuit completion result length '' @ FormatInt (int (length result)))), w'))
     | (Inr _, w') \<Rightarrow> (Inl (NewError ''redis: unexpected reply''), w'))"

lemma circuitKey_inj: "circuitKey s p = circuitKey s q \<Longrightarrow> p = q"
  by (simp add: circuitKey_def b64_encode_inj)

lemma circuitKey_next: "circuitKey s p \<noteq> redis_next_key s"
  by (simp add: circuitKey_def redis_next_key_def)

lemma redisCircuitState_code: "redisCircuitState (RInt (code c)) = Inr c"
  by (cases c) (simp_all add: redisCircuitState_def redisInt64_def code_def)

lemma Milliseconds_bounds: "0 < d \<Longrightarrow> d < 2 ^ 63 \<Longrightarrow> 0 \<le> Milliseconds d \<and> Milliseconds d < 2 ^ 53"
  by (simp add: Milliseconds_def) linarith


lemma hash_at_clock: "s = (r :: redis_state)\<lparr>clock_us := c\<rparr> \<Longrightarrow> hash_at s K = hash_at r K"
  by (simp add: hash_at_def)

text \<open>The circuit stored for a provider, and the numeric range in which Lua's arithmetic is exact.\<close>

definition circuit_at :: "redisProviderState \<Rightarrow> string \<Rightarrow> redis_state \<Rightarrow> rcircuit \<Rightarrow> bool" where
  "circuit_at s p r c \<longleftrightarrow> (\<exists>h. hash_at r (circuitKey s p) = Some h \<and> circuit_ok h \<and> rc_of h = c)"

definition exact_range :: "redisProviderState \<Rightarrow> redis_state \<Rightarrow> rcircuit \<Rightarrow> bool" where
  "exact_range s r c \<longleftrightarrow> 0 \<le> clock_us r \<and> now_ms r + Milliseconds (rp_halfOpenLease s) < 2 ^ 53
    \<and> 0 < rp_cooldown s \<and> rp_cooldown s < 2 ^ 63 \<and> 0 < rp_halfOpenLease s \<and> rp_halfOpenLease s < 2 ^ 63
    \<and> 0 \<le> rp_failureThreshold s \<and> rp_failureThreshold s < 2 ^ 53
    \<and> int (rc_generation c) + 1 < 2 ^ 53 \<and> rc_failures c + 1 < 2 ^ 53"

lemma circuit_atE:
  assumes "circuit_at s p r c" "exact_range s r' c"
  obtains h where "hash_at r (circuitKey s p) = Some h" "circuit_ok h" "rc_of h = c"
    "num_field h ''generation'' + 1 < 2 ^ 53" "num_field h ''failures'' + 1 < 2 ^ 53"
proof -
  from assms obtain h where h: "hash_at r (circuitKey s p) = Some h" "circuit_ok h" "rc_of h = c"
    by (auto simp: circuit_at_def)
  have "0 \<le> num_field h ''generation''" using circuit_okD [OF h(2)] by simp
  with assms(2) h(3) have "num_field h ''generation'' + 1 < 2 ^ 53" "num_field h ''failures'' + 1 < 2 ^ 53"
    by (auto simp: exact_range_def)
  with h show thesis by (rule that)
qed

lemma acquire_reply_cases:
  "acquire_reply ((allowed, g, st, ch)) = RArr [RInt (if allowed then 1 else 0), RInt (int g), RInt (code st), RInt (if ch then 1 else 0)]"
  by (simp add: acquire_reply_def ints_def)

lemma complete_reply_cases:
  "complete_reply (st, ch) = RArr [RInt (code st), RInt (if ch then 1 else 0)]"
  by (simp add: complete_reply_def ints_def)

lemma exact_range_clock:
  "exact_range s r c \<Longrightarrow> clock_us r' = clock_us r \<Longrightarrow> exact_range s r' c"
  by (simp add: exact_range_def now_ms_def)

lemma keeps_clock_acquire: "keeps_clock (redisCircuitAcquireScript K cd le)"
  unfolding redisCircuitAcquireScript_def Let_def by (intro clock_rules)

lemma keeps_clock_complete: "keeps_clock (redisCircuitCompleteScript K g ok th)"
  unfolding redisCircuitCompleteScript_def Let_def by (intro clock_rules)

text \<open>
  One script run through the client: the world after it, whatever the client reported. The run
  took effect (\<open>m\<close> is what the state machine does) or, if the client reports an error, it may
  not have been executed at all.
\<close>

definition script_ran :: "redisProviderState \<Rightarrow> string \<Rightarrow> ('w \<Rightarrow> redis_state) \<Rightarrow> ('w \<Rightarrow> 'f) \<Rightarrow> 'w \<Rightarrow> 'w \<Rightarrow> rcircuit \<Rightarrow> bool" where
  "script_ran S p red frame w w' c \<longleftrightarrow> circuit_at S p (red w') c \<and> frame w' = frame w
    \<and> clock_us (red w) \<le> clock_us (red w')
    \<and> (\<forall>k. k \<noteq> circuitKey S p \<longrightarrow> keys (red w') k = keys (red w) k)"

lemma script_ran_run:
  assumes s: "s = (red w)\<lparr>clock_us := clock_us s\<rparr>" "clock_us (red w) \<le> clock_us s" "frame w' = frame w"
    and h: "hash_at (red w) (circuitKey S p) = Some h" "circuit_ok h"
    and run: "f s = (r, red w') \<or> (\<exists>e. r = Inl e) \<and> (red w' = s \<or> red w' = snd (f s))"
    and f: "f s = (Inr reply, s')" "leaves s (circuitKey S p) c s'"
  shows "(r = Inr reply \<or> (\<exists>e. r = Inl e)) \<and> (script_ran S p red frame w w' c
    \<or> (\<exists>e. r = Inl e) \<and> script_ran S p red frame w w' (rc_of h))"
proof -
  have k: "keys s = keys (red w)" using s(1) by (metis redis_state.select_convs(1) redis_state.surjective redis_state.update_convs(2))
  have "script_ran S p red frame w w' c" if "red w' = s'"
    using f(2) s k that unfolding leaves_def script_ran_def circuit_at_def by auto
  moreover have "script_ran S p red frame w w' (rc_of h)" if "red w' = s"
    using s k h that unfolding script_ran_def circuit_at_def hash_at_def by auto
  ultimately show ?thesis using run f(1) by auto
qed

lemma eval_acquire:
  assumes client: "redis_client_ok eval red frame" and c: "circuit_at S p (red w) c"
    and ev: "eval (redisCircuitAcquireScript (circuitKey S p) (Milliseconds (rp_cooldown S))
      (Milliseconds (rp_halfOpenLease S))) w = (r, w')"
    and rng: "exact_range S (red w') c"
  defines "m \<equiv> rc_acquire (Milliseconds (rp_cooldown S)) (Milliseconds (rp_halfOpenLease S)) c (now_ms (red w'))"
  shows "(r = Inr (acquire_reply (fst m)) \<or> (\<exists>e. r = Inl e)) \<and> (script_ran S p red frame w w' (snd m)
    \<or> (\<exists>e. r = Inl e) \<and> script_ran S p red frame w w' c)"
proof -
  let ?K = "circuitKey S p" and ?cd = "Milliseconds (rp_cooldown S)" and ?le = "Milliseconds (rp_halfOpenLease S)"
  let ?f = "redisCircuitAcquireScript ?K ?cd ?le"
  obtain s where s: "s = (red w)\<lparr>clock_us := clock_us s\<rparr>" "clock_us (red w) \<le> clock_us s" "frame w' = frame w"
    and run: "?f s = (r, red w') \<or> (\<exists>e. r = Inl e) \<and> (red w' = s \<or> red w' = snd (?f s))"
    using client_run [OF client ev] by metis
  obtain h where h: "hash_at (red w) ?K = Some h" "circuit_ok h" "rc_of h = c"
    "num_field h ''generation'' + 1 < 2 ^ 53" using circuit_atE [OF c rng] by metis
  have hs: "hash_at s ?K = Some h" using hash_at_clock [OF s(1)] h(1) by simp
  have clk: "clock_us (red w') = clock_us s"
    using run keeps_clock_acquire [of ?K ?cd ?le] by (metis keeps_clock_def snd_conv)
  have rs: "exact_range S s c" using exact_range_clock [OF rng] clk by simp
  have n: "now_ms (red w') = now_ms s" using clk by (simp add: now_ms_def)
  have "\<exists>s'. ?f s = (Inr (acquire_reply (fst m)), s') \<and> leaves s ?K (snd m) s'"
    unfolding m_def n h(3) [symmetric]
    using rs h Milliseconds_bounds [of "rp_cooldown S"] Milliseconds_bounds [of "rp_halfOpenLease S"]
    by (intro acquire_refines [OF hs h(2)]) (simp_all add: exact_range_def)
  then show ?thesis using script_ran_run [where f = ?f and red = red and w = w and frame = frame and s = s and w' = w' and r = r, OF s h(1,2) run] h(3) by metis
qed

lemma eval_complete:
  assumes client: "redis_client_ok eval red frame" and c: "circuit_at S p (red w) c"
    and ev: "eval (redisCircuitCompleteScript (circuitKey S p) (int g) (if success then 1 else 0)
      (rp_failureThreshold S)) w = (r, w')"
    and g: "g < 2 ^ 53" and rng: "exact_range S (red w') c"
  defines "m \<equiv> rc_complete (rp_failureThreshold S) c g success (now_ms (red w'))"
  shows "(r = Inr (complete_reply (fst m)) \<or> (\<exists>e. r = Inl e)) \<and> (script_ran S p red frame w w' (snd m)
    \<or> (\<exists>e. r = Inl e) \<and> script_ran S p red frame w w' c)"
proof -
  let ?K = "circuitKey S p" and ?th = "rp_failureThreshold S" and ?ok = "if success then 1 else 0"
  let ?f = "redisCircuitCompleteScript ?K (int g) ?ok ?th"
  obtain s where s: "s = (red w)\<lparr>clock_us := clock_us s\<rparr>" "clock_us (red w) \<le> clock_us s" "frame w' = frame w"
    and run: "?f s = (r, red w') \<or> (\<exists>e. r = Inl e) \<and> (red w' = s \<or> red w' = snd (?f s))"
    using client_run [OF client ev] by metis
  obtain h where h: "hash_at (red w) ?K = Some h" "circuit_ok h" "rc_of h = c"
    "num_field h ''generation'' + 1 < 2 ^ 53" "num_field h ''failures'' + 1 < 2 ^ 53"
    using circuit_atE [OF c rng] by metis
  have hs: "hash_at s ?K = Some h" using hash_at_clock [OF s(1)] h(1) by simp
  have clk: "clock_us (red w') = clock_us s"
    using run keeps_clock_complete [of ?K "int g" ?ok ?th] by (metis keeps_clock_def snd_conv)
  have rs: "exact_range S s c" using exact_range_clock [OF rng] clk by simp
  have n: "now_ms (red w') = now_ms s" using clk by (simp add: now_ms_def)
  have "\<exists>s'. ?f s = (Inr (complete_reply (fst m)), s') \<and> leaves s ?K (snd m) s'"
    unfolding m_def n h(3) [symmetric]
    using rs h g Milliseconds_bounds [of "rp_halfOpenLease S"]
    by (intro complete_refines [OF hs h(2)]) (simp_all add: exact_range_def)
  then show ?thesis using script_ran_run [where f = ?f and red = red and w = w and frame = frame and s = s and w' = w' and r = r, OF s h(1,2) run] h(3) by metis
qed

lemma rp_acquire_decodes:
  assumes client: "redis_client_ok eval red frame" and c: "circuit_at S p (red w) c"
    and acq: "rp_acquire eval S p w = (r, w')" and rng: "exact_range S (red w') c"
  defines "m \<equiv> rc_acquire (Milliseconds (rp_cooldown S)) (Milliseconds (rp_halfOpenLease S)) c (now_ms (red w'))"
  shows "(case fst m of (allowed, g, st, ch) \<Rightarrow>
       r = Inr (of_nat g, allowed, st, ch) \<and> script_ran S p red frame w w' (snd m))
    \<or> (\<exists>e. r = Inl e) \<and> (script_ran S p red frame w w' (snd m) \<or> script_ran S p red frame w w' c)"
proof -
  obtain r0 w0 where ev: "eval (redisCircuitAcquireScript (circuitKey S p) (Milliseconds (rp_cooldown S))
      (Milliseconds (rp_halfOpenLease S))) w = (r0, w0)" by fastforce
  obtain a g st ch where f: "fst m = (a, g, st, ch)" by (cases "fst m")
  have w0: "w0 = w'" using acq ev
    by (auto simp: rp_acquire_def split: sum.splits reply.splits list.splits)
  note run = eval_acquire [OF client c ev [unfolded w0] rng, folded m_def]
  show ?thesis
  proof (cases r0)
    case (Inl e)
    then have "r = Inl e" using acq ev by (simp add: rp_acquire_def)
    with run Inl f show ?thesis by auto
  next
    case (Inr reply)
    with run f have "r0 = Inr (acquire_reply (a, g, st, ch))" by simp
    then have "r = Inr (of_nat g, a, st, ch)" using acq ev
      by (simp add: rp_acquire_def acquire_reply_cases redisInt64_def redisCircuitState_code split: if_splits)
    with run Inr f show ?thesis by auto
  qed
qed

lemma rp_complete_decodes:
  assumes client: "redis_client_ok eval red frame" and c: "circuit_at S p (red w) c"
    and com: "rp_complete eval S p (of_nat g) success w = (r, w')" and rng: "exact_range S (red w') c"
    and g: "g < 2 ^ 53"
  defines "m \<equiv> rc_complete (rp_failureThreshold S) c g success (now_ms (red w'))"
  shows "r = Inr (fst m) \<and> script_ran S p red frame w w' (snd m)
    \<or> (\<exists>e. r = Inl e) \<and> (script_ran S p red frame w w' (snd m) \<or> script_ran S p red frame w w' c)"
proof -
  have u: "uint (of_nat g :: 64 word) = int g" by (rule uint_of_nat_small [OF g])
  obtain r0 w0 where ev: "eval (redisCircuitCompleteScript (circuitKey S p) (int g) (if success then 1 else 0)
      (rp_failureThreshold S)) w = (r0, w0)" by fastforce
  obtain st ch where f: "fst m = (st, ch)" by (cases "fst m")
  have w0: "w0 = w'" using com ev
    by (auto simp: rp_complete_def u split: sum.splits reply.splits list.splits)
  note run = eval_complete [OF client c ev [unfolded w0] g rng, folded m_def]
  show ?thesis
  proof (cases r0)
    case (Inl e)
    then have "r = Inl e" using com ev by (simp add: rp_complete_def u)
    with run Inl f show ?thesis by auto
  next
    case (Inr reply)
    with run f have "r0 = Inr (complete_reply (st, ch))" by simp
    then have "r = Inr (st, ch)" using com ev
      by (simp add: rp_complete_def u complete_reply_cases redisInt64_def redisCircuitState_code split: if_splits)
    with run Inr f show ?thesis by auto
  qed
qed

end
