(* ===== verification/RedisReplicas.thy ===== *)
theory RedisReplicas
  imports RedisCircuit
begin

text \<open>
  Any number of worker replicas that use one provider's circuit in Redis at the same time.
  A step is one call of \<^verbatim>\<open>acquire\<close> or \<^verbatim>\<open>complete\<close> by some worker, a worker that dies with
  its call outstanding, or anything else that happens in the world and leaves the circuit's
  key alone. Every such run is a run of the state machine of \<open>RedisCircuit\<close>, so the
  contract's theorems hold of the hash that is stored in Redis.
\<close>

section \<open>Runs\<close>

inductive replica_reach ::
  "'w redis_client \<Rightarrow> ('w \<Rightarrow> redis_state) \<Rightarrow> redisProviderState \<Rightarrow> string \<Rightarrow> 'w \<Rightarrow> nat \<Rightarrow> 'w \<Rightarrow> 64 word list \<Rightarrow> bool"
  for eval red S p w0 where
  start: "replica_reach eval red S p w0 0 w0 []"
| acquired: "replica_reach eval red S p w0 n w ts \<Longrightarrow> rp_acquire eval S p w = (Inr (g, allowed, st, ch), w') \<Longrightarrow>
    replica_reach eval red S p w0 (Suc n) w' (if allowed then g # ts else ts)"
| acquire_failed: "replica_reach eval red S p w0 n w ts \<Longrightarrow> rp_acquire eval S p w = (Inl e, w') \<Longrightarrow>
    replica_reach eval red S p w0 (Suc n) w' ts"
| reported: "replica_reach eval red S p w0 n w ts \<Longrightarrow> g \<in> set ts \<Longrightarrow> rp_complete eval S p g ok w = (r, w') \<Longrightarrow>
    replica_reach eval red S p w0 (Suc n) w' (remove1 g ts)"
| crashed: "replica_reach eval red S p w0 n w ts \<Longrightarrow> g \<in> set ts \<Longrightarrow>
    replica_reach eval red S p w0 (Suc n) w (remove1 g ts)"
| other: "replica_reach eval red S p w0 n w ts \<Longrightarrow> keys (red w') (circuitKey S p) = keys (red w) (circuitKey S p) \<Longrightarrow>
    clock_us (red w) \<le> clock_us (red w') \<Longrightarrow> replica_reach eval red S p w0 (Suc n) w' ts"

section \<open>Simulation\<close>

abbreviation machine_reach :: "redisProviderState \<Rightarrow> nat \<Rightarrow> rcircuit \<Rightarrow> nat list \<Rightarrow> bool" where
  "machine_reach S k c ts \<equiv> shared_reach (rc_acq (Milliseconds (rp_cooldown S)) (Milliseconds (rp_halfOpenLease S)))
    (rc_com (rp_failureThreshold S)) rc_new k \<lparr>brk = c, tickets = ts\<rparr>"

definition params_ok :: "redisProviderState \<Rightarrow> bool" where
  "params_ok S \<longleftrightarrow> 0 < rp_cooldown S \<and> rp_cooldown S < 2 ^ 63 \<and> 0 < rp_halfOpenLease S \<and> rp_halfOpenLease S < 2 ^ 63
    \<and> 1 \<le> rp_failureThreshold S \<and> rp_failureThreshold S < 2 ^ 53"

lemma rc_failures_bound:
  assumes "shared_reach (rc_acq cd le) (rc_com th) rc_new k s"
  shows "rc_failures (brk s) \<le> int k"
  using assms
proof (induction rule: shared_reach.induct)
  case (step n s t)
  from step(2) show ?case
    by cases (use step(3) in \<open>auto simp: rc_acq_def rc_acquire_def rc_com_def rc_complete_def
      split: circuitState.splits if_splits\<close>)
qed (simp add: rc_new_def)

lemma machine_inv:
  assumes "machine_reach S k c ts" "params_ok S"
  shows "rc_generation c \<le> k \<and> (\<forall>g \<in> set ts. g \<le> rc_generation c) \<and> rc_failures c \<le> int k"
proof -
  have w: "rc_wf (rp_failureThreshold S) rc_new" using assms(2) by (simp add: rc_wf_def rc_new_def params_ok_def)
  have g: "rc_generation rc_new = 0" by (simp add: rc_new_def)
  show ?thesis
    using rc.reach_inv [OF assms(1) w g, of "Suc k"] rc_failures_bound [OF assms(1)] by (simp add: rc.inv_def)
qed

lemma machine_range:
  assumes "machine_reach S k c ts" "params_ok S" "int k + 1 < 2 ^ 53" "0 \<le> clock_us r"
    "now_ms r + Milliseconds (rp_halfOpenLease S) < 2 ^ 53"
  shows "exact_range S r c"
  using machine_inv [OF assms(1,2)] assms(2-) by (simp add: exact_range_def params_ok_def)

lemma machine_acquire:
  assumes "machine_reach S k c ts"
    "rc_acquire (Milliseconds (rp_cooldown S)) (Milliseconds (rp_halfOpenLease S)) c now = ((a, g, st, ch), c')"
  shows "machine_reach S (Suc k) c' (if a then g # ts else ts)"
proof -
  let ?acq = "rc_acq (Milliseconds (rp_cooldown S)) (Milliseconds (rp_halfOpenLease S))"
  have "?acq c now = (if a then Some g else None, c')" using assms(2) by (simp add: rc_acq_def)
  then have "shared_step ?acq (rc_com (rp_failureThreshold S)) \<lparr>brk = c, tickets = ts\<rparr>
      \<lparr>brk = c', tickets = if a then g # ts else ts\<rparr>"
    using shared_step.admit [of ?acq "\<lparr>brk = c, tickets = ts\<rparr>" now g c']
      shared_step.refuse [of ?acq "\<lparr>brk = c, tickets = ts\<rparr>" now c'] by (cases a) simp_all
  with assms(1) show ?thesis by (rule shared_reach.step)
qed

lemma machine_lose:
  assumes "machine_reach S k c ts" "g \<in> set ts"
  shows "machine_reach S (Suc k) c (remove1 g ts)"
  using shared_reach.step [OF assms(1) shared_step.lose [of g "\<lparr>brk = c, tickets = ts\<rparr>"]] assms(2) by simp

lemma machine_complete:
  assumes "machine_reach S k c ts" "g \<in> set ts"
  shows "machine_reach S (Suc k) (snd (rc_complete (rp_failureThreshold S) c g ok now)) (remove1 g ts)"
  using shared_reach.step [OF assms(1) shared_step.report [of g "\<lparr>brk = c, tickets = ts\<rparr>"
    "rc_com (rp_failureThreshold S)" ok now]] assms(2) by (simp add: rc_com_def)

lemma map_remove1_inj: "inj f \<Longrightarrow> map f (remove1 x xs) = remove1 (f x) (map f xs)"
  by (induction xs) (auto dest: injD)

lemma map_unat_remove1: "map unat (remove1 (g :: 64 word) ts) = remove1 (unat g) (map unat ts)"
  by (rule map_remove1_inj) (simp add: inj_def word_unat_eq_iff)

text \<open>An acquisition the client reports as failed may have been executed: an admission whose ticket is lost.\<close>

lemma machine_acquire_lost:
  assumes "machine_reach S k c ts"
    "rc_acquire (Milliseconds (rp_cooldown S)) (Milliseconds (rp_halfOpenLease S)) c now = (x, c')"
  shows "\<exists>k' \<le> k + 2. machine_reach S k' c' ts"
proof -
  obtain a g st ch where x: "x = (a, g, st, ch)" by (cases x)
  note m = machine_acquire [OF assms [unfolded x]]
  show ?thesis
  proof (cases a)
    case True
    with m machine_lose [of S "Suc k" c' "g # ts" g] show ?thesis by auto
  next
    case False
    with m show ?thesis by (intro exI [of _ "Suc k"]) simp
  qed
qed

definition simulated :: "('w \<Rightarrow> redis_state) \<Rightarrow> redisProviderState \<Rightarrow> string \<Rightarrow> nat \<Rightarrow> 'w \<Rightarrow> 64 word list \<Rightarrow> bool" where
  "simulated red S p n w ts \<longleftrightarrow> 0 \<le> clock_us (red w) \<and>
    (\<exists>c k. k \<le> 2 * n \<and> circuit_at S p (red w) c \<and> machine_reach S k c (map unat ts))"

lemma simulatedI:
  "0 \<le> clock_us (red w) \<Longrightarrow> circuit_at S p (red w) c \<Longrightarrow> machine_reach S k c (map unat ts) \<Longrightarrow> k \<le> 2 * n \<Longrightarrow>
    simulated red S p n w ts"
  by (auto simp: simulated_def)

text \<open>The server's clock only moves forward.\<close>

lemma rp_acquire_mono:
  assumes "redis_client_ok eval red frame" "rp_acquire eval S p w = (r, w')"
  shows "clock_us (red w) \<le> clock_us (red w')"
proof -
  obtain r0 where "eval (redisCircuitAcquireScript (circuitKey S p) (Milliseconds (rp_cooldown S))
      (Milliseconds (rp_halfOpenLease S))) w = (r0, w')"
    using assms(2) by (auto simp: rp_acquire_def split: sum.splits prod.splits reply.splits list.splits)
  from client_mono [OF assms(1) this keeps_clock_acquire] show ?thesis .
qed

lemma rp_complete_mono:
  assumes "redis_client_ok eval red frame" "rp_complete eval S p g ok w = (r, w')"
  shows "clock_us (red w) \<le> clock_us (red w')"
proof -
  obtain r0 where "eval (redisCircuitCompleteScript (circuitKey S p) (uint g) (if ok then 1 else 0)
      (rp_failureThreshold S)) w = (r0, w')"
    using assms(2) by (auto simp: rp_complete_def split: sum.splits prod.splits reply.splits list.splits)
  from client_mono [OF assms(1) this keeps_clock_complete] show ?thesis .
qed

lemma simulated_acquire:
  assumes client: "redis_client_ok eval red frame" and S: "params_ok S"
    and sim: "simulated red S p n w ts" and acq: "rp_acquire eval S p w = (r, w')"
    and clk: "now_ms (red w') + Milliseconds (rp_halfOpenLease S) < 2 ^ 53" "n < 2 ^ 51"
  shows "case r of Inl e \<Rightarrow> simulated red S p (Suc n) w' ts
    | Inr (g, a, _) \<Rightarrow> simulated red S p (Suc n) w' (if a then g # ts else ts)"
proof -
  obtain c k where k: "k \<le> 2 * n" "circuit_at S p (red w) c" "machine_reach S k c (map unat ts)" "0 \<le> clock_us (red w)"
    using sim by (auto simp: simulated_def)
  have c0: "0 \<le> clock_us (red w')" using k(4) rp_acquire_mono [OF client acq] by simp
  have rng: "exact_range S (red w') c" using machine_range [OF k(3) S _ c0 clk(1)] k(1) clk(2) by simp
  obtain a g st ch c' where m: "rc_acquire (Milliseconds (rp_cooldown S)) (Milliseconds (rp_halfOpenLease S)) c (now_ms (red w'))
      = ((a, g, st, ch), c')" by (metis surj_pair)
  note dec = rp_acquire_decodes [OF client k(2) acq rng, unfolded m]
  note lost = machine_acquire_lost [OF k(3) m]
  note ok = machine_acquire [OF k(3) m]
  show ?thesis
  proof (cases r)
    case (Inl e)
    with dec have "circuit_at S p (red w') c' \<or> circuit_at S p (red w') c" by (auto simp: script_ran_def)
    with lost k c0 Inl show ?thesis by (auto intro!: simulatedI)
  next
    case (Inr x)
    with dec have x: "x = (of_nat g, a, st, ch)" "circuit_at S p (red w') c'" by (auto simp: script_ran_def)
    have "rc_generation c' \<le> Suc k" and "a \<Longrightarrow> g \<le> rc_generation c'" using machine_inv [OF ok S] by auto
    then have "a \<Longrightarrow> g < 2 ^ 53" using k(1) clk(2) by simp
    then have "a \<Longrightarrow> unat (of_nat g :: 64 word) = g" by (rule unat_of_nat_small)
    then have "map unat (if a then of_nat g # ts else ts) = (if a then g # map unat ts else map unat ts)" by simp
    with ok x(2) c0 k(1) Inr x(1) show ?thesis by (auto intro!: simulatedI)
  qed
qed

lemma simulated_complete:
  assumes client: "redis_client_ok eval red frame" and S: "params_ok S"
    and sim: "simulated red S p n w ts" and g: "g \<in> set ts" and com: "rp_complete eval S p g ok w = (r, w')"
    and clk: "now_ms (red w') + Milliseconds (rp_halfOpenLease S) < 2 ^ 53" "n < 2 ^ 51"
  shows "simulated red S p (Suc n) w' (remove1 g ts)"
proof -
  obtain c k where k: "k \<le> 2 * n" "circuit_at S p (red w) c" "machine_reach S k c (map unat ts)" "0 \<le> clock_us (red w)"
    using sim by (auto simp: simulated_def)
  have c0: "0 \<le> clock_us (red w')" using k(4) rp_complete_mono [OF client com] by simp
  have rng: "exact_range S (red w') c" using machine_range [OF k(3) S _ c0 clk(1)] k(1) clk(2) by simp
  have u: "unat g \<in> set (map unat ts)" using g by simp
  have "unat g \<le> k" using machine_inv [OF k(3) S] u by force
  then have b: "unat g < 2 ^ 53" using k(1) clk(2) by simp
  have com': "rp_complete eval S p (of_nat (unat g)) ok w = (r, w')" using com by simp
  have "circuit_at S p (red w') (snd (rc_complete (rp_failureThreshold S) c (unat g) ok (now_ms (red w'))))
      \<or> circuit_at S p (red w') c"
    using rp_complete_decodes [OF client k(2) com' rng b] by (auto simp: script_ran_def)
  with machine_complete [OF k(3) u] machine_lose [OF k(3) u] k(1) c0 show ?thesis
    by (auto intro!: simulatedI [where k = "Suc k"] simp: map_unat_remove1)
qed

lemma replica_simulated:
  assumes run: "replica_reach eval red S p w0 n w ts" and client: "redis_client_ok eval red frame"
    and S: "params_ok S" and init: "circuit_at S p (red w0) rc_new" "0 \<le> clock_us (red w0)"
    and clk: "now_ms (red w) + Milliseconds (rp_halfOpenLease S) < 2 ^ 53" "n < 2 ^ 51"
  shows "simulated red S p n w ts"
  using run clk
proof (induction rule: replica_reach.induct)
  case start
  from shared_reach.start init show ?case by (auto intro!: simulatedI)
next
  case (acquired n w ts g allowed st ch w')
  have "now_ms (red w) \<le> now_ms (red w')"
    using rp_acquire_mono [OF client acquired(2)] by (simp add: now_ms_def zdiv_mono1)
  with acquired simulated_acquire [OF client S _ acquired(2), of n ts] show ?case by simp
next
  case (acquire_failed n w ts e w')
  have "now_ms (red w) \<le> now_ms (red w')"
    using rp_acquire_mono [OF client acquire_failed(2)] by (simp add: now_ms_def zdiv_mono1)
  with acquire_failed simulated_acquire [OF client S _ acquire_failed(2), of n ts] show ?case by simp
next
  case (reported n w ts g ok r w')
  have "now_ms (red w) \<le> now_ms (red w')"
    using rp_complete_mono [OF client reported(3)] by (simp add: now_ms_def zdiv_mono1)
  with reported simulated_complete [OF client S _ reported(2,3), of n] show ?case by simp
next
  case (crashed n w ts g)
  then have "simulated red S p n w ts" by simp
  then obtain c k where k: "k \<le> 2 * n" "circuit_at S p (red w) c" "machine_reach S k c (map unat ts)" "0 \<le> clock_us (red w)"
    by (auto simp: simulated_def)
  have "unat g \<in> set (map unat ts)" using crashed(2) by simp
  from machine_lose [OF k(3) this] k(1,2,4) show ?case
    by (intro simulatedI [where k = "Suc k" and c = c]) (simp_all add: map_unat_remove1)
next
  case (other n w ts w')
  have "now_ms (red w) \<le> now_ms (red w')" using other(3) by (simp add: now_ms_def zdiv_mono1)
  with other have "simulated red S p n w ts" by simp
  then obtain c k where k: "k \<le> 2 * n" "circuit_at S p (red w) c" "machine_reach S k c (map unat ts)" "0 \<le> clock_us (red w)"
    by (auto simp: simulated_def)
  have "circuit_at S p (red w') c" using other(2) k(2) by (simp add: circuit_at_def hash_at_def)
  with k other(3) show ?case by (intro simulatedI [where k = k and c = c]) simp_all
qed

section \<open>Properties\<close>

text \<open>
  C17: \<^verbatim>\<open>acquire\<close> against Redis. Whenever the client answers, the Go call returns the decoded
  decision of the state machine at the server's time, the stored hash is the machine's next
  state, and no other key changes; no reply of the script is ever undecodable, so an error
  comes from the client, and then the hash is the old or the next state.
\<close>

theorem redis_acquire_refines:
  assumes "redis_client_ok eval red frame" "circuit_at S p (red w) c" "rp_acquire eval S p w = (r, w')"
    "exact_range S (red w') c"
  defines "m \<equiv> rc_acquire (Milliseconds (rp_cooldown S)) (Milliseconds (rp_halfOpenLease S)) c (now_ms (red w'))"
  shows "(\<forall>k. k \<noteq> circuitKey S p \<longrightarrow> keys (red w') k = keys (red w) k) \<and> frame w' = frame w
    \<and> (case r of
        Inr (g, allowed, st, ch) \<Rightarrow> (\<exists>n. fst m = (allowed, n, st, ch) \<and> g = of_nat n) \<and> circuit_at S p (red w') (snd m)
      | Inl e \<Rightarrow> circuit_at S p (red w') (snd m) \<or> circuit_at S p (red w') c)"
proof -
  obtain a g st ch where f: "fst m = (a, g, st, ch)" by (cases "fst m")
  show ?thesis using rp_acquire_decodes [OF assms(1-4)] f unfolding m_def
    by (auto simp: script_ran_def)
qed

definition S_example :: redisProviderState where
  "S_example = \<lparr>rp_prefix = ''p'', rp_failureThreshold = 2, rp_cooldown = 30000000000, rp_halfOpenLease = 40000000000\<rparr>"

definition redis_example :: redis_state where
  "redis_example = \<lparr>keys = Map.empty, clock_us = 1700000000000000\<rparr>"

lemma circuit_at_example: "circuit_at S_example p redis_example rc_new"
  by (simp add: circuit_at_def hash_at_def redis_example_def circuit_ok_empty)

lemma exact_range_example: "exact_range S_example redis_example rc_new"
  by (simp add: exact_range_def S_example_def redis_example_def now_ms_def Milliseconds_def rc_new_def)

lemma params_example: "params_ok S_example"
  by (simp add: params_ok_def S_example_def)

lemma direct_acquire:
  assumes c: "circuit_at S p s c" and rng: "exact_range S s c"
    and m: "rc_acquire (Milliseconds (rp_cooldown S)) (Milliseconds (rp_halfOpenLease S)) c (now_ms s) = ((a, g, st, ch), c')"
  obtains s' where "rp_acquire direct_client S p s = (Inr (of_nat g, a, st, ch), s')" "clock_us s' = clock_us s"
    "circuit_at S p s' c'"
proof -
  obtain h where h: "hash_at s (circuitKey S p) = Some h" "circuit_ok h" "rc_of h = c" "num_field h ''generation'' + 1 < 2 ^ 53"
    using circuit_atE [OF c rng] by metis
  obtain s' where s': "redisCircuitAcquireScript (circuitKey S p) (Milliseconds (rp_cooldown S)) (Milliseconds (rp_halfOpenLease S)) s
      = (Inr (acquire_reply (a, g, st, ch)), s')" "leaves s (circuitKey S p) c' s'"
    using acquire_refines [OF h(1,2) _ _ _ _ _ h(4), of "Milliseconds (rp_halfOpenLease S)" "Milliseconds (rp_cooldown S)"]
      rng Milliseconds_bounds [of "rp_cooldown S"] Milliseconds_bounds [of "rp_halfOpenLease S"]
    by (auto simp: exact_range_def h(3) m)
  then have "rp_acquire direct_client S p s = (Inr (of_nat g, a, st, ch), s')"
    by (simp add: rp_acquire_def direct_client_def acquire_reply_cases redisInt64_def redisCircuitState_code)
  with s'(2) show thesis by (intro that [of s']) (auto simp: leaves_def circuit_at_def)
qed

lemma direct_complete:
  assumes c: "circuit_at S p s c" and rng: "exact_range S s c" and g: "g < 2 ^ 53"
    and m: "rc_complete (rp_failureThreshold S) c g ok (now_ms s) = ((st, ch), c')"
  obtains s' where "rp_complete direct_client S p (of_nat g) ok s = (Inr (st, ch), s')" "clock_us s' = clock_us s"
    "circuit_at S p s' c'"
proof -
  obtain h where h: "hash_at s (circuitKey S p) = Some h" "circuit_ok h" "rc_of h = c" "num_field h ''generation'' + 1 < 2 ^ 53"
    "num_field h ''failures'' + 1 < 2 ^ 53" using circuit_atE [OF c rng] by metis
  obtain s' where s': "redisCircuitCompleteScript (circuitKey S p) (int g) (if ok then 1 else 0) (rp_failureThreshold S) s
      = (Inr (complete_reply (st, ch)), s')" "leaves s (circuitKey S p) c' s'"
    using complete_refines [OF h(1,2) _ _ _ _ g h(4,5), of "rp_failureThreshold S" ok]
      rng Milliseconds_bounds [of "rp_halfOpenLease S"]
    by (auto simp: exact_range_def h(3) m)
  then have "rp_complete direct_client S p (of_nat g) ok s = (Inr (st, ch), s')"
    by (simp add: rp_complete_def direct_client_def uint_of_nat_small [OF g] complete_reply_cases redisInt64_def redisCircuitState_code)
  with s'(2) show thesis by (intro that [of s']) (auto simp: leaves_def circuit_at_def)
qed

lemma direct_acquire_example:
  "rp_acquire direct_client S_example ''a'' redis_example = (Inr (0, True, stateClosed, False), redis_example)"
proof -
  have h: "hash_at redis_example (circuitKey S_example ''a'') = Some Map.empty"
    by (simp add: hash_at_def redis_example_def)
  show ?thesis
    using tonumber_field [of Map.empty "''generation''"] circuit_okD(1) [OF circuit_ok_empty(1)]
    by (simp add: rp_acquire_def direct_client_def redisCircuitAcquireScript_def lbind_def Let_def redis_TIME_def
        redis_HGET_hash [OF h] lret_def or_closed_def ints_def redisInt64_def redisCircuitState_def num_field_none)
qed

theorem redis_acquire_refines_witness:
  "rp_acquire direct_client S_example ''a'' redis_example = (Inr (0, True, stateClosed, False), redis_example)
   \<and> (\<exists>n. fst (rc_acquire 30000 40000 rc_new 1700000000000) = (True, n, stateClosed, False) \<and> (0 :: 64 word) = of_nat n)"
  using redis_acquire_refines [OF direct_client_ok circuit_at_example direct_acquire_example exact_range_example]
    direct_acquire_example
  by (simp add: S_example_def redis_example_def now_ms_def Milliseconds_def)

text \<open>
  C18: \<^verbatim>\<open>complete\<close> against Redis, likewise: the decoded answer and the stored hash are those of
  the state machine, a stale generation included; nothing else changes.
\<close>

theorem redis_complete_refines:
  assumes "redis_client_ok eval red frame" "circuit_at S p (red w) c"
    "rp_complete eval S p (of_nat g) success w = (r, w')" "exact_range S (red w') c" "g < 2 ^ 53"
  defines "m \<equiv> rc_complete (rp_failureThreshold S) c g success (now_ms (red w'))"
  shows "(\<forall>k. k \<noteq> circuitKey S p \<longrightarrow> keys (red w') k = keys (red w) k) \<and> frame w' = frame w
    \<and> (case r of
        Inr answer \<Rightarrow> answer = fst m \<and> circuit_at S p (red w') (snd m)
      | Inl e \<Rightarrow> circuit_at S p (red w') (snd m) \<or> circuit_at S p (red w') c)"
  using rp_complete_decodes [OF assms(1-5)] unfolding m_def by (auto simp: script_ran_def)

theorem redis_complete_refines_witness:
  "\<exists>w'. rp_complete direct_client S_example ''a'' (of_nat 0) False redis_example = (Inr (stateClosed, False), w')
    \<and> circuit_at S_example ''a'' w' (rc_new\<lparr>rc_failures := 1\<rparr>)"
proof -
  obtain s' where s': "rp_complete direct_client S_example ''a'' (of_nat 0) False redis_example = (Inr (stateClosed, False), s')"
    "clock_us s' = clock_us redis_example"
    by (rule direct_complete [OF circuit_at_example exact_range_example, of 0 False stateClosed False "rc_new\<lparr>rc_failures := 1\<rparr>"])
      (simp_all add: rc_complete_def rc_new_def S_example_def)
  from redis_complete_refines [OF direct_client_ok circuit_at_example s'(1) exact_range_clock [OF exact_range_example s'(2)]]
    s'(1) show ?thesis
    by (simp add: S_example_def rc_complete_def rc_new_def)
qed

text \<open>
  C12: one probe over all replicas. Whatever fewer than \<open>2^51\<close> calls, client errors, crashes and
  unrelated events have happened since the key was empty, the hash in Redis is a well-formed
  circuit; while it is half-open at most one outstanding call carries its generation, and
  while it is open none does, so that a late result cannot move it.
\<close>

theorem redis_single_probe:
  assumes "replica_reach eval red S p w0 n w ts" "redis_client_ok eval red frame" "params_ok S"
    "keys (red w0) (circuitKey S p) = None" "0 \<le> clock_us (red w0)"
    "now_ms (red w) + Milliseconds (rp_halfOpenLease S) < 2 ^ 53" "n < 2 ^ 51"
  shows "\<exists>c. circuit_at S p (red w) c
    \<and> (rc_state c = stateHalfOpen \<longrightarrow> length (filter (\<lambda>g. unat g = rc_generation c) ts) \<le> 1)
    \<and> (rc_state c = stateOpen \<longrightarrow> (\<forall>g \<in> set ts. unat g \<noteq> rc_generation c))"
proof -
  have "circuit_at S p (red w0) rc_new" using assms(4) by (simp add: circuit_at_def hash_at_def circuit_ok_empty)
  from replica_simulated [OF assms(1,2,3) this assms(5-7)] obtain c k
    where k: "circuit_at S p (red w) c" "machine_reach S k c (map unat ts)" by (auto simp: simulated_def)
  have w: "rc_wf (rp_failureThreshold S) rc_new" using assms(3) by (simp add: rc_wf_def rc_new_def params_ok_def)
  have g: "rc_generation rc_new = 0" by (simp add: rc_new_def)
  have "length (filter (\<lambda>g. g = rc_generation c) (map unat ts)) = length (filter (\<lambda>g. unat g = rc_generation c) ts)"
    by (simp add: filter_map comp_def)
  with rc.reach_inv [OF k(2) w g, of "Suc k"] k(1) show ?thesis
    by (force simp: rc.inv_def rc.current_def filter_empty_conv)
qed

theorem redis_single_probe_witness:
  "\<exists>c. circuit_at S_example ''a'' redis_example c
    \<and> (rc_state c = stateHalfOpen \<longrightarrow> length (filter (\<lambda>g :: 64 word. unat g = rc_generation c) [0, 0]) \<le> 1)"
proof -
  let ?R = "replica_reach direct_client (\<lambda>s. s) S_example ''a'' redis_example"
  have "?R 1 redis_example [0]"
    using replica_reach.acquired [OF replica_reach.start direct_acquire_example] by simp
  then have "?R 2 redis_example [0, 0]"
    using replica_reach.acquired [OF _ direct_acquire_example] by (fastforce simp: numeral_2_eq_2)
  from redis_single_probe [OF this direct_client_ok params_example] show ?thesis
    by (auto simp: redis_example_def S_example_def now_ms_def Milliseconds_def)
qed

text \<open>
  C19: the lease of a probe. A half-open circuit refuses every worker until the lease ends and
  then admits the next one as the new probe, with the next generation; whatever the former
  probe (any earlier ticket) reports afterwards leaves the circuit as it is.
\<close>

theorem redis_lease_takeover:
  assumes "redis_client_ok eval red frame" "circuit_at S p (red w) c" "rc_state c = stateHalfOpen"
    "rp_acquire eval S p w = (Inr (g, allowed, st, ch), w')" "exact_range S (red w') c"
    "old \<le> rc_generation c" "rp_complete eval S p (of_nat old) success w' = (r, w'')"
    "exact_range S (red w'') (c\<lparr>rc_generation := rc_generation c + 1\<rparr>)"
  shows "st = stateHalfOpen \<and> (allowed \<longleftrightarrow> rc_half_open_until c \<le> now_ms (red w'))
    \<and> (allowed \<longrightarrow> unat g = rc_generation c + 1
        \<and> circuit_at S p (red w'') (c\<lparr>rc_generation := rc_generation c + 1,
            rc_half_open_until := now_ms (red w') + Milliseconds (rp_halfOpenLease S)\<rparr>))"
proof -
  let ?m = "rc_acquire (Milliseconds (rp_cooldown S)) (Milliseconds (rp_halfOpenLease S)) c (now_ms (red w'))"
  have a: "fst ?m = (allowed, k, st, ch) \<and> g = of_nat k \<and> circuit_at S p (red w') (snd ?m)" if "k = fst (snd (fst ?m))" for k
    using rp_acquire_decodes [OF assms(1,2,4,5)] that by (auto simp: script_ran_def split: prod.splits)
  have b: "rc_generation c + 1 < 2 ^ 53" using assms(5) by (simp add: exact_range_def)
  have "circuit_at S p (red w'') (snd ?m)" if "rc_half_open_until c \<le> now_ms (red w')"
  proof -
    have m: "snd ?m = c\<lparr>rc_generation := rc_generation c + 1,
        rc_half_open_until := now_ms (red w') + Milliseconds (rp_halfOpenLease S)\<rparr>"
      using that assms(3) by (simp add: rc_acquire_def)
    have rng: "exact_range S (red w'') (snd ?m)" using assms(8) by (simp add: m exact_range_def)
    have "circuit_at S p (red w') (snd ?m)" using a by blast
    from rp_complete_decodes [OF assms(1) this assms(7) rng] assms(6) b show ?thesis
      by (auto simp: script_ran_def rc_complete_def m)
  qed
  then show ?thesis using a [OF refl] assms(3) unat_of_nat_small [OF b]
    by (auto simp: rc_acquire_def split: if_splits)
qed

definition half_open_example :: rcircuit where
  "half_open_example = \<lparr>rc_state = stateHalfOpen, rc_generation = 3, rc_failures = 2, rc_opened_at = 5, rc_half_open_until = 100\<rparr>"

definition redis_half_open :: redis_state where
  "redis_half_open = redis_example\<lparr>keys := [circuitKey S_example ''a'' \<mapsto> RHash [''state'' \<mapsto> ''half-open'',
    ''generation'' \<mapsto> FormatInt 3, ''failures'' \<mapsto> FormatInt 2, ''opened_at'' \<mapsto> FormatInt 5, ''half_open_until'' \<mapsto> FormatInt 100]]\<rparr>"

lemma circuit_at_half_open: "circuit_at S_example ''a'' redis_half_open half_open_example"
  by (simp add: circuit_at_def hash_at_def redis_half_open_def half_open_example_def circuit_ok_def rc_of_def field_simps')

lemma exact_range_half_open:
  "clock_us s = clock_us redis_example \<Longrightarrow> exact_range S_example s half_open_example
    \<and> exact_range S_example s (half_open_example\<lparr>rc_generation := 4\<rparr>)"
  by (simp add: exact_range_def S_example_def redis_example_def now_ms_def Milliseconds_def half_open_example_def)

theorem redis_lease_takeover_witness:
  "\<exists>w' w''. rp_acquire direct_client S_example ''a'' redis_half_open = (Inr (4, True, stateHalfOpen, False), w')
    \<and> rp_complete direct_client S_example ''a'' 3 True w' = (Inr (stateHalfOpen, False), w'')
    \<and> circuit_at S_example ''a'' w'' (half_open_example\<lparr>rc_generation := 4, rc_half_open_until := 1700000040000\<rparr>)"
proof -
  let ?c = "half_open_example\<lparr>rc_generation := 4, rc_half_open_until := 1700000040000\<rparr>"
  have clk: "clock_us redis_half_open = clock_us redis_example" by (simp add: redis_half_open_def)
  note ev = rc_acquire_def rc_complete_def half_open_example_def S_example_def redis_half_open_def redis_example_def
    now_ms_def Milliseconds_def
  obtain w' where w': "rp_acquire direct_client S_example ''a'' redis_half_open = (Inr (of_nat 4, True, stateHalfOpen, False), w')"
    "clock_us w' = clock_us redis_half_open" "circuit_at S_example ''a'' w' ?c"
    by (rule direct_acquire [OF circuit_at_half_open, of True 4 stateHalfOpen False ?c])
      (use exact_range_half_open [OF clk] in \<open>simp_all add: ev\<close>)
  have r: "exact_range S_example w' ?c" using exact_range_half_open [of w'] w'(2) clk by (simp add: exact_range_def)
  obtain w'' where w'': "rp_complete direct_client S_example ''a'' (of_nat 3) True w' = (Inr (stateHalfOpen, False), w'')"
    "clock_us w'' = clock_us w'"
    by (rule direct_complete [OF w'(3) r, of 3 True stateHalfOpen False ?c]) (simp_all add: ev)
  have "now_ms w' = 1700000000000" using w'(2) by (simp add: ev)
  with redis_lease_takeover [OF direct_client_ok circuit_at_half_open _ w'(1) _ _ w''(1)]
    exact_range_half_open [of w'] exact_range_half_open [of w''] w' w'' clk show ?thesis
    by (simp add: half_open_example_def S_example_def Milliseconds_def)
qed

text \<open>
  C38: a half-open lease shorter than a millisecond is accepted by the constructor and protects
  nothing: the script is given a lease of zero, so when the cooldown of an open circuit has passed, two workers whose calls of
  \<^verbatim>\<open>acquire\<close> Redis answers within the same millisecond are both admitted as probes, the second one as if it took over from a lease that ran out.
\<close>

theorem submillisecond_lease_two_probes:
  assumes "redis_client_ok eval red frame" "newRedisProviderState parse ping url poolName th cd lease = Inr S" "lease < 1000000"
    "0 < cd" "cd < 2 ^ 63" "0 \<le> th" "th < 2 ^ 53"
    "hash_at (red w) (circuitKey S p) = Some h" "circuit_ok h" "h ''state'' = Some ''open''"
    "Milliseconds cd \<le> now_ms (red w1) - num_field h ''opened_at''"
    "num_field h ''generation'' + 2 < 2 ^ 53" "num_field h ''failures'' + 1 < 2 ^ 53" "0 \<le> clock_us (red w)" "now_ms (red w1) < 2 ^ 53"
    "rp_acquire eval S p w = (Inr x1, w1)" "rp_acquire eval S p w1 = (Inr x2, w2)" "now_ms (red w2) = now_ms (red w1)"
  shows "x1 = (of_int (num_field h ''generation''), True, stateHalfOpen, True)
    \<and> x2 = (of_int (num_field h ''generation'' + 1), True, stateHalfOpen, False)"
proof -
  let ?c = "rc_of h" and ?g = "nat (num_field h ''generation'')"
  let ?c1 = "?c\<lparr>rc_state := stateHalfOpen, rc_half_open_until := now_ms (red w1)\<rparr>"
  have S: "rp_cooldown S = cd" "rp_failureThreshold S = th" "Milliseconds (rp_halfOpenLease S) = 0" "0 < rp_halfOpenLease S" "rp_halfOpenLease S < 2 ^ 63"
    using assms(2,3) by (auto simp: newRedisProviderState_def Milliseconds_def split: if_splits sum.splits option.splits)
  have n: "0 \<le> num_field h ''generation''" using circuit_okD [OF assms(9)] by simp
  have clk: "0 \<le> clock_us (red w1)" "0 \<le> clock_us (red w2)"
    using assms(14) rp_acquire_mono [OF assms(1,16)] rp_acquire_mono [OF assms(1,17)] by simp_all
  have c: "circuit_at S p (red w) ?c" using assms(8,9) by (auto simp: circuit_at_def)
  have st: "rc_state ?c = stateOpen" using assms(10) by (simp add: or_closed_def state_of_def)
  have r1: "exact_range S (red w1) ?c" and r2: "exact_range S (red w2) ?c1"
    using S assms(4-7,12,13,15,18) clk n by (simp_all add: exact_range_def)
  have m1: "rc_acquire (Milliseconds (rp_cooldown S)) (Milliseconds (rp_halfOpenLease S)) ?c (now_ms (red w1)) = ((True, ?g, stateHalfOpen, True), ?c1)"
    using st assms(11) S by (simp add: rc_acquire_def)
  from rp_acquire_decodes [OF assms(1) c assms(16) r1, unfolded m1]
  have 1: "x1 = (of_nat ?g, True, stateHalfOpen, True)" "circuit_at S p (red w1) ?c1" by (auto simp: script_ran_def)
  have "fst (rc_acquire (Milliseconds (rp_cooldown S)) (Milliseconds (rp_halfOpenLease S)) ?c1 (now_ms (red w2))) = (True, ?g + 1, stateHalfOpen, False)"
    using assms(18) by (simp add: rc_acquire_def)
  with rp_acquire_decodes [OF assms(1) 1(2) assms(17) r2] have 2: "x2 = (of_nat (?g + 1), True, stateHalfOpen, False)" by auto
  show ?thesis using 1(1) 2 n by (simp add: of_nat_nat nat_add_distrib)
qed

definition S_short_example :: redisProviderState where
  "S_short_example = \<lparr>rp_prefix = ''sms:provider-pool:'' @ b64_encode ''global'', rp_failureThreshold = 3, rp_cooldown = 30000000000, rp_halfOpenLease = 999999\<rparr>"

definition open_example :: redis_state where
  "open_example = redis_example\<lparr>keys := [circuitKey S_short_example ''a'' \<mapsto> RHash [''state'' \<mapsto> ''open'']]\<rparr>"

theorem submillisecond_lease_two_probes_witness:
  "\<exists>w1 w2. newRedisProviderState (\<lambda>_. Inr ()) (\<lambda>_. None) ''redis://r'' ''global'' 3 30000000000 999999 = Inr S_short_example
    \<and> rp_acquire direct_client S_short_example ''a'' open_example = (Inr (0, True, stateHalfOpen, True), w1)
    \<and> rp_acquire direct_client S_short_example ''a'' w1 = (Inr (1, True, stateHalfOpen, False), w2)"
proof -
  let ?h = "[''state'' \<mapsto> ''open''] :: string \<Rightarrow> string option"
  let ?S = S_short_example
  have new: "newRedisProviderState (\<lambda>_. Inr ()) (\<lambda>_. None) ''redis://r'' ''global'' 3 30000000000 999999 = Inr ?S"
    by (simp add: newRedisProviderState_def S_short_example_def)
  have h: "hash_at open_example (circuitKey ?S ''a'') = Some ?h" by (simp add: hash_at_def open_example_def)
  have f: "num_field ?h ''generation'' = 0" "num_field ?h ''failures'' = 0" "num_field ?h ''opened_at'' = 0" "circuit_ok ?h"
    by (simp_all add: num_field_none circuit_ok_def or_closed_def)
  have ms: "Milliseconds (rp_cooldown ?S) = 30000" "Milliseconds (rp_halfOpenLease ?S) = 0" by (simp_all add: S_short_example_def Milliseconds_def)
  have n: "now_ms open_example = 1700000000000" "clock_us open_example = 1700000000000000" by (simp_all add: open_example_def redis_example_def now_ms_def)
  have c: "circuit_at ?S ''a'' open_example (rc_of ?h)" using h f(4) by (auto simp: circuit_at_def)
  have r: "exact_range ?S s (rc_of ?h)" if "clock_us s = clock_us open_example" for s
    using f n that by (simp add: exact_range_def now_ms_def ms(2)) (simp add: S_short_example_def)
  have m: "\<exists>a g st ch c'. rc_acquire (Milliseconds (rp_cooldown ?S)) (Milliseconds (rp_halfOpenLease ?S)) c0 t = ((a, g, st, ch), c')" for c0 t
    by (metis surj_pair)
  have m1: "rc_acquire (Milliseconds (rp_cooldown ?S)) (Milliseconds (rp_halfOpenLease ?S)) (rc_of ?h) (now_ms open_example)
      = ((True, 0, stateHalfOpen, True), (rc_of ?h)\<lparr>rc_state := stateHalfOpen, rc_half_open_until := 1700000000000\<rparr>)"
    using f n ms by (simp add: rc_acquire_def or_closed_def state_of_def)
  obtain w1 where 1: "rp_acquire direct_client ?S ''a'' open_example = (Inr (of_nat 0, True, stateHalfOpen, True), w1)" "clock_us w1 = clock_us open_example"
    "circuit_at ?S ''a'' w1 ((rc_of ?h)\<lparr>rc_state := stateHalfOpen, rc_half_open_until := 1700000000000\<rparr>)"
    by (rule direct_acquire [OF c r [OF refl] m1])
  have r1: "exact_range ?S w1 ((rc_of ?h)\<lparr>rc_state := stateHalfOpen, rc_half_open_until := 1700000000000\<rparr>)"
    using r [OF 1(2)] by (simp add: exact_range_def)
  obtain a g st ch c' where m2: "rc_acquire (Milliseconds (rp_cooldown ?S)) (Milliseconds (rp_halfOpenLease ?S))
      ((rc_of ?h)\<lparr>rc_state := stateHalfOpen, rc_half_open_until := 1700000000000\<rparr>) (now_ms w1) = ((a, g, st, ch), c')" using m by blast
  obtain w2 where 2: "rp_acquire direct_client ?S ''a'' w1 = (Inr (of_nat g, a, st, ch), w2)" "clock_us w2 = clock_us w1"
    by (rule direct_acquire [OF 1(3) r1 m2])
  have "(of_nat g :: 64 word, a, st, ch) = (of_int (num_field ?h ''generation'' + 1), True, stateHalfOpen, False)"
    using submillisecond_lease_two_probes [OF direct_client_ok new _ _ _ _ _ h f(4) _ _ _ _ _ _ 1(1) 2(1)] 1(2) 2(2) f n by (simp add: now_ms_def Milliseconds_def)
  with new 1(1) 2(1) f(1) show ?thesis by simp
qed

end
