(* ===== verification/CircuitBreaker.thy ===== *)
theory CircuitBreaker
  imports CircuitContract
begin

text \<open>
  The in-process circuit breaker of \<^verbatim>\<open>internal/infrastructure/sms/provider_pool.go\<close>.
  Its methods run under the breaker's mutex, so each is one atomic step here; any number
  of goroutines may hold a ticket (the generation an \<^verbatim>\<open>acquire\<close> returned) and hand it
  back later. The results: a half-open circuit has exactly one probe in flight, an open
  circuit cannot be closed by a late result, and the circuit opens after exactly the
  configured number of consecutive failures.
\<close>

section \<open>The breaker\<close>

record circuitBreaker =
  state :: circuitState
  failures :: int
  failureThreshold :: int
  cooldown :: duration
  openedAt :: time
  halfOpenInFlight :: bool
  generation :: "64 word"

definition newCircuitBreaker :: "int \<Rightarrow> duration \<Rightarrow> circuitBreaker" where
  "newCircuitBreaker th cd = \<lparr>state = stateClosed, failures = 0, failureThreshold = th,
    cooldown = cd, openedAt = zero_time, halfOpenInFlight = False, generation = 0\<rparr>"

text \<open>The result is the generation, whether the call may proceed, the state, and whether it changed.\<close>

definition cb_acquire ::
  "circuitBreaker \<Rightarrow> time \<Rightarrow> (64 word \<times> bool \<times> circuitState \<times> bool) \<times> circuitBreaker" where
  "cb_acquire b now =
    (let previous = state b in
     if state b = stateOpen \<and> time_Sub now (openedAt b) < cooldown b
     then ((0, False, state b, False), b)
     else
       let b = (if state b = stateOpen then b\<lparr>state := stateHalfOpen\<rparr> else b) in
       if state b = stateHalfOpen \<and> halfOpenInFlight b
       then ((0, False, state b, previous \<noteq> state b), b)
       else
         let b = (if state b = stateHalfOpen then b\<lparr>halfOpenInFlight := True\<rparr> else b) in
         ((generation b, True, state b, previous \<noteq> state b), b))"

definition cb_complete ::
  "circuitBreaker \<Rightarrow> 64 word \<Rightarrow> bool \<Rightarrow> time \<Rightarrow> (circuitState \<times> bool) \<times> circuitBreaker" where
  "cb_complete b gen success now =
    (if gen \<noteq> generation b then ((state b, False), b)
     else
       let previous = state b;
           b = (case state b of
               stateHalfOpen \<Rightarrow>
                 (let b = b\<lparr>halfOpenInFlight := False, generation := generation b + 1\<rparr> in
                  if success then b\<lparr>state := stateClosed, failures := 0\<rparr>
                  else b\<lparr>state := stateOpen, openedAt := now\<rparr>)
             | stateClosed \<Rightarrow>
                 (if success then b\<lparr>failures := 0\<rparr>
                  else
                    let b = b\<lparr>failures := wrap64 (failures b + 1)\<rparr> in
                    if failureThreshold b \<le> failures b
                    then b\<lparr>state := stateOpen, openedAt := now, generation := generation b + 1\<rparr>
                    else b)
             | stateOpen \<Rightarrow> b)
       in ((state b, previous \<noteq> state b), b))"

section \<open>The breaker keeps the contract\<close>

definition mem_acq :: "circuitBreaker \<Rightarrow> time \<Rightarrow> 64 word option \<times> circuitBreaker" where
  "mem_acq b now = (case cb_acquire b now of ((g, allowed, _), b') \<Rightarrow> (if allowed then Some g else None, b'))"

definition mem_com :: "circuitBreaker \<Rightarrow> 64 word \<Rightarrow> bool \<Rightarrow> time \<Rightarrow> circuitBreaker" where
  "mem_com b g success now = snd (cb_complete b g success now)"

text \<open>
  The invariant of the fields: the in-flight flag is set exactly in the half-open state,
  and a closed circuit has counted fewer failures than the threshold (so the counter never
  overflows).
\<close>

definition cb_wf :: "circuitBreaker \<Rightarrow> bool" where
  "cb_wf b \<longleftrightarrow> (halfOpenInFlight b \<longleftrightarrow> state b = stateHalfOpen)
   \<and> (state b = stateClosed \<longrightarrow> 0 \<le> failures b \<and> failures b < failureThreshold b)
   \<and> 1 \<le> failureThreshold b \<and> failureThreshold b < 2 ^ 63"

lemma cb_wf_new: "1 \<le> th \<Longrightarrow> th < 2 ^ 63 \<Longrightarrow> cb_wf (newCircuitBreaker th cd)"
  by (simp add: cb_wf_def newCircuitBreaker_def)

lemma cb_acquire_closed:
  "state b = stateClosed \<Longrightarrow> cb_acquire b now = ((generation b, True, stateClosed, False), b)"
  by (simp add: cb_acquire_def)

lemma cb_acquire_open_wait:
  "state b = stateOpen \<Longrightarrow> time_Sub now (openedAt b) < cooldown b \<Longrightarrow>
    cb_acquire b now = ((0, False, stateOpen, False), b)"
  by (simp add: cb_acquire_def)

lemma cb_acquire_open_probe:
  "state b = stateOpen \<Longrightarrow> \<not> time_Sub now (openedAt b) < cooldown b \<Longrightarrow> \<not> halfOpenInFlight b \<Longrightarrow>
    cb_acquire b now = ((generation b, True, stateHalfOpen, True),
      b\<lparr>state := stateHalfOpen, halfOpenInFlight := True\<rparr>)"
  by (simp add: cb_acquire_def)

lemma cb_acquire_half_open:
  "state b = stateHalfOpen \<Longrightarrow> halfOpenInFlight b \<Longrightarrow>
    cb_acquire b now = ((0, False, stateHalfOpen, False), b)"
  by (simp add: cb_acquire_def)

lemma cb_acquire_wf:
  "cb_wf b \<Longrightarrow> cb_acquire b now =
    (case state b of stateClosed \<Rightarrow> ((generation b, True, stateClosed, False), b)
     | stateOpen \<Rightarrow> if time_Sub now (openedAt b) < cooldown b then ((0, False, stateOpen, False), b)
         else ((generation b, True, stateHalfOpen, True), b\<lparr>state := stateHalfOpen, halfOpenInFlight := True\<rparr>)
     | stateHalfOpen \<Rightarrow> ((0, False, stateHalfOpen, False), b))"
  by (auto simp: cb_wf_def cb_acquire_closed cb_acquire_open_wait cb_acquire_open_probe
      cb_acquire_half_open split: circuitState.split)

lemma cb_complete_stale: "g \<noteq> generation b \<Longrightarrow> cb_complete b g ok now = ((state b, False), b)"
  by (simp add: cb_complete_def)

lemma cb_complete_closed_failure:
  assumes "state b = stateClosed" "0 \<le> failures b" "failures b < failureThreshold b" "failureThreshold b < 2 ^ 63"
  shows "snd (cb_complete b (generation b) False t) =
    (if failureThreshold b \<le> failures b + 1
     then b\<lparr>failures := failures b + 1, state := stateOpen, openedAt := t, generation := generation b + 1\<rparr>
     else b\<lparr>failures := failures b + 1\<rparr>)"
proof -
  have "wrap64 (failures b + 1) = failures b + 1" using assms by (simp add: in_int64_def)
  with assms show ?thesis by (simp add: cb_complete_def)
qed

lemma cb_complete_closed_success:
  "state b = stateClosed \<Longrightarrow> cb_complete b (generation b) True t = ((stateClosed, False), b\<lparr>failures := 0\<rparr>)"
  by (simp add: cb_complete_def)

lemma cb_complete_half_open:
  "state b = stateHalfOpen \<Longrightarrow> snd (cb_complete b (generation b) success t) =
    (if success
     then b\<lparr>halfOpenInFlight := False, generation := generation b + 1, state := stateClosed, failures := 0\<rparr>
     else b\<lparr>halfOpenInFlight := False, generation := generation b + 1, state := stateOpen, openedAt := t\<rparr>)"
  by (simp add: cb_complete_def)

lemma mem_com_cases:
  assumes "cb_wf b"
  shows "mem_com b g success t =
    (if g \<noteq> generation b then b
     else case state b of
       stateClosed \<Rightarrow> if success then b\<lparr>failures := 0\<rparr>
         else if failureThreshold b \<le> failures b + 1
         then b\<lparr>failures := failures b + 1, state := stateOpen, openedAt := t, generation := generation b + 1\<rparr>
         else b\<lparr>failures := failures b + 1\<rparr>
     | stateOpen \<Rightarrow> b
     | stateHalfOpen \<Rightarrow>
         if success
         then b\<lparr>halfOpenInFlight := False, generation := generation b + 1, state := stateClosed, failures := 0\<rparr>
         else b\<lparr>halfOpenInFlight := False, generation := generation b + 1, state := stateOpen, openedAt := t\<rparr>)"
  using assms cb_complete_closed_failure [of b t]
  by (cases "state b"; cases success)
    (simp_all add: mem_com_def cb_wf_def cb_complete_stale cb_complete_closed_success cb_complete_half_open,
     simp_all add: cb_complete_def)

interpretation mem: circuit_contract mem_acq mem_com state generation unat cb_wf "2 ^ 64"
proof unfold_locales
  fix b :: circuitBreaker and g :: "64 word" and now success b'
  assume w: "cb_wf b"
  show "g \<noteq> generation b \<Longrightarrow> mem_com b g success now = b"
    by (simp add: mem_com_cases [OF w])
  show "mem_acq b now = (None, b') \<Longrightarrow> state b' = state b \<and> generation b' = generation b"
    by (auto simp: mem_acq_def cb_acquire_wf [OF w] split: circuitState.splits if_splits)
  assume l: "unat (generation b) + 1 < 2 ^ 64"
  then have up: "unat (generation b + 1) = unat (generation b) + 1" by (rule unat_plus_one_less)
  show "cb_wf (snd (mem_acq b now))"
    using w by (auto simp: mem_acq_def cb_acquire_wf cb_wf_def split: circuitState.splits)
  show "cb_wf (mem_com b g success now)"
    using w by (auto simp: mem_com_cases cb_wf_def split: circuitState.splits)
  show "mem_acq b now = (Some g, b') \<Longrightarrow> g = generation b' \<and>
      (state b = stateClosed \<and> state b' = stateClosed \<and> generation b' = generation b
      \<or> state b = stateOpen \<and> state b' = stateHalfOpen \<and> generation b' = generation b
      \<or> state b = stateHalfOpen \<and> state b' = stateHalfOpen \<and> unat (generation b') = unat (generation b) + 1)"
    by (auto simp: mem_acq_def cb_acquire_wf [OF w] split: circuitState.splits if_splits)
  show "state b = stateClosed \<Longrightarrow> b' = mem_com b (generation b) success now \<Longrightarrow>
      state b' = stateClosed \<and> generation b' = generation b
      \<or> \<not> success \<and> state b' = stateOpen \<and> unat (generation b') = unat (generation b) + 1"
    using up by (simp add: mem_com_cases [OF w])
  show "state b = stateHalfOpen \<Longrightarrow> b' = mem_com b (generation b) success now \<Longrightarrow>
      state b' = (if success then stateClosed else stateOpen) \<and> unat (generation b') = unat (generation b) + 1"
    using up by (simp add: mem_com_cases [OF w])
qed (simp add: word_unat_eq_iff)

section \<open>Consecutive failures\<close>

text \<open>The results of calls of one generation, as they are reported one after the other.\<close>

fun cb_report_all :: "circuitBreaker \<Rightarrow> 64 word \<Rightarrow> (bool \<times> time) list \<Rightarrow> circuitBreaker" where
  "cb_report_all b g [] = b"
| "cb_report_all b g ((ok, t) # rs) = cb_report_all (snd (cb_complete b g ok t)) g rs"

lemma cb_report_all_stale: "g \<noteq> generation b \<Longrightarrow> cb_report_all b g rs = b"
  by (induction b g rs rule: cb_report_all.induct) (simp_all add: cb_complete_stale)

lemma cb_report_failures:
  assumes "state b = stateClosed" "0 \<le> failures b" "failures b < failureThreshold b"
    "failureThreshold b < 2 ^ 63" "list_all (\<lambda>(ok, t). \<not> ok) rs"
  shows "state (cb_report_all b (generation b) rs)
    = (if failureThreshold b \<le> failures b + int (length rs) then stateOpen else stateClosed)"
  using assms
proof (induction rs arbitrary: b)
  case (Cons x rs)
  obtain t where x: "x = (False, t)" using Cons.prems(5) by (cases x) auto
  show ?case
  proof (cases "failureThreshold b \<le> failures b + 1")
    case True
    with x Cons.prems show ?thesis
      by (simp add: cb_complete_closed_failure cb_report_all_stale)
  next
    case False
    let ?b = "b\<lparr>failures := failures b + 1\<rparr>"
    have "state (cb_report_all ?b (generation ?b) rs)
        = (if failureThreshold ?b \<le> failures ?b + int (length rs) then stateOpen else stateClosed)"
      using False Cons.prems by (intro Cons.IH) simp_all
    with x False Cons.prems show ?thesis by (simp add: cb_complete_closed_failure add.assoc)
  qed
qed simp

section \<open>Properties\<close>

text \<open>
  C4: one half-open probe. In every state that fewer than \<open>2^64\<close> interleaved calls can
  reach, at most one admitted call of the current generation is outstanding while the
  circuit is half-open, and a half-open circuit admits no other call at any time.
\<close>

theorem single_half_open_probe:
  assumes "shared_reach mem_acq mem_com (newCircuitBreaker th cd) n s" "1 \<le> th" "th < 2 ^ 63" "n < 2 ^ 64"
    and "state (brk s) = stateHalfOpen"
  shows "length (filter (\<lambda>g. g = generation (brk s)) (tickets s)) \<le> 1
    \<and> (\<forall>now. cb_acquire (brk s) now = ((0, False, stateHalfOpen, False), brk s))"
proof -
  have w: "cb_wf (newCircuitBreaker th cd)" using assms by (simp add: cb_wf_new)
  have g: "unat (generation (newCircuitBreaker th cd)) = 0" by (simp add: newCircuitBreaker_def)
  have "cb_wf (brk s)" using mem.reach_inv [OF assms(1) w g assms(4)] by (simp add: mem.inv_def)
  with mem.one_probe [OF assms(1) w g assms(4,5)] assms(5) show ?thesis
    by (simp add: cb_acquire_wf)
qed

definition open_example :: circuitBreaker where
  "open_example = (newCircuitBreaker 1 10)\<lparr>failures := 1, state := stateOpen, openedAt := 5, generation := 1\<rparr>"

definition probe_example :: circuitBreaker where
  "probe_example = open_example\<lparr>state := stateHalfOpen, halfOpenInFlight := True\<rparr>"

text \<open>Two calls are admitted, the first one fails and opens the circuit; later a probe starts.\<close>

lemma late_example_reach:
  "shared_reach mem_acq mem_com (newCircuitBreaker 1 10) 3 \<lparr>brk = open_example, tickets = [0]\<rparr>"
proof -
  let ?b0 = "newCircuitBreaker 1 10"
  have "mem_acq ?b0 0 = (Some 0, ?b0)"
    by (simp add: mem_acq_def cb_acquire_def newCircuitBreaker_def)
  then have a: "shared_step mem_acq mem_com \<lparr>brk = ?b0, tickets = ts\<rparr> \<lparr>brk = ?b0, tickets = 0 # ts\<rparr>" for ts
    using shared_step.admit [of mem_acq "\<lparr>brk = ?b0, tickets = ts\<rparr>" 0 0 ?b0] by simp
  have "mem_com ?b0 0 False 5 = open_example"
    by (simp add: mem_com_def cb_complete_def newCircuitBreaker_def open_example_def in_int64_def)
  then have "shared_step mem_acq mem_com \<lparr>brk = ?b0, tickets = [0, 0]\<rparr> \<lparr>brk = open_example, tickets = [0]\<rparr>"
    using shared_step.report [of 0 "\<lparr>brk = ?b0, tickets = [0, 0]\<rparr>" mem_com False 5 open_example mem_acq]
    by simp
  with a [of "[]"] a [of "[0]"]
  have "shared_reach mem_acq mem_com ?b0 (Suc (Suc (Suc 0))) \<lparr>brk = open_example, tickets = [0]\<rparr>"
    by (blast intro: shared_reach.intros)
  then show ?thesis by (simp add: numeral_3_eq_3)
qed

lemma probe_example_reach:
  "shared_reach mem_acq mem_com (newCircuitBreaker 1 10) 4 \<lparr>brk = probe_example, tickets = [1, 0]\<rparr>"
proof -
  have "mem_acq open_example 20 = (Some 1, probe_example)"
    by (simp add: mem_acq_def cb_acquire_def newCircuitBreaker_def open_example_def probe_example_def time_Sub_def)
  then have "shared_step mem_acq mem_com \<lparr>brk = open_example, tickets = [0]\<rparr>
      \<lparr>brk = probe_example, tickets = [1, 0]\<rparr>"
    using shared_step.admit [of mem_acq "\<lparr>brk = open_example, tickets = [0]\<rparr>" 20 1 probe_example] by simp
  from shared_reach.step [OF late_example_reach this] show ?thesis by simp
qed

theorem single_half_open_probe_witness:
  "state probe_example = stateHalfOpen
    \<and> length (filter (\<lambda>g. g = generation probe_example) [1, 0]) \<le> 1
    \<and> cb_acquire probe_example 100 = ((0, False, stateHalfOpen, False), probe_example)"
  using single_half_open_probe [OF probe_example_reach] by (simp add: probe_example_def)

text \<open>
  An open circuit ignores late results. In every reachable state whose circuit is open,
  no outstanding call carries the current generation, so whatever it reports and whenever,
  the breaker does not change: only a probe after the cooldown can close the circuit.
\<close>

theorem open_circuit_ignores_late_results:
  assumes "shared_reach mem_acq mem_com (newCircuitBreaker th cd) n s" "1 \<le> th" "th < 2 ^ 63" "n < 2 ^ 64"
    and "state (brk s) = stateOpen" "g \<in> set (tickets s)"
  shows "snd (cb_complete (brk s) g success now) = brk s"
proof -
  have w: "cb_wf (newCircuitBreaker th cd)" using assms by (simp add: cb_wf_new)
  have g: "unat (generation (newCircuitBreaker th cd)) = 0" by (simp add: newCircuitBreaker_def)
  show ?thesis using mem.late_result_ignored [OF assms(1) w g assms(4-6)] by (simp add: mem_com_def)
qed

theorem open_circuit_ignores_late_results_witness:
  "state open_example = stateOpen \<and> snd (cb_complete open_example 0 True 7) = open_example"
  using open_circuit_ignores_late_results [OF late_example_reach, of 0 True 7]
  by (simp add: open_example_def)

text \<open>
  The circuit opens after exactly \<^verbatim>\<open>failureThreshold\<close> consecutive failures: however many
  results of the same generation are reported, a closed circuit that has seen a success
  (its failure count is zero) stays closed under fewer failures and is open from the
  threshold on.
\<close>

theorem opens_at_threshold:
  fixes t0 :: time
  assumes "state b = stateClosed" "failures b < failureThreshold b" "1 \<le> failureThreshold b"
    "failureThreshold b < 2 ^ 63" "list_all (\<lambda>(ok, t). \<not> ok) rs"
  defines "b' \<equiv> snd (cb_complete b (generation b) True t0)"
  shows "state (cb_report_all b' (generation b) rs)
    = (if failureThreshold b \<le> int (length rs) then stateOpen else stateClosed)"
proof -
  have b': "b' = b\<lparr>failures := 0\<rparr>" using assms(1) by (simp add: b'_def cb_complete_def)
  show ?thesis using cb_report_failures [of b' rs] assms(1-5) by (simp add: b')
qed

theorem opens_at_threshold_witness:
  "state (cb_report_all (snd (cb_complete (newCircuitBreaker 2 10) 0 True 1)) 0 [(False, 2), (False, 3)]) = stateOpen
   \<and> state (cb_report_all (snd (cb_complete (newCircuitBreaker 2 10) 0 True 1)) 0 [(False, 2)]) = stateClosed"
  using opens_at_threshold [of "newCircuitBreaker 2 10" "[(False, 2), (False, 3)]" 1]
    opens_at_threshold [of "newCircuitBreaker 2 10" "[(False, 2)]" 1]
  by (simp add: newCircuitBreaker_def)

text \<open>
  The cooldown and the probe. An open circuit admits a call exactly when the cooldown has
  passed since it opened; that call is the probe: its success closes the circuit with a
  cleared failure count, its failure opens it again from the time of the report.
\<close>

theorem cooldown_then_probe_decides:
  assumes "state b = stateOpen" "\<not> halfOpenInFlight b" "0 < cooldown b" "cooldown b < 2 ^ 63"
  shows "if cooldown b \<le> now - openedAt b
    then \<exists>g p. cb_acquire b now = ((g, True, stateHalfOpen, True), p)
      \<and> cb_complete p g True t =
          ((stateClosed, True), b\<lparr>state := stateClosed, failures := 0, generation := generation b + 1\<rparr>)
      \<and> cb_complete p g False t = ((stateOpen, True), b\<lparr>openedAt := t, generation := generation b + 1\<rparr>)
    else cb_acquire b now = ((0, False, stateOpen, False), b)"
proof -
  have "time_Sub now (openedAt b) < cooldown b \<longleftrightarrow> now - openedAt b < cooldown b"
    using assms by (intro time_Sub_less_iff) simp_all
  with assms show ?thesis
    by (auto simp: cb_acquire_open_probe cb_acquire_open_wait cb_complete_def)
qed

theorem cooldown_then_probe_decides_witness:
  "let b = open_example in
    cb_acquire b 14 = ((0, False, stateOpen, False), b)
    \<and> fst (snd (fst (cb_acquire b 15)))"
  using cooldown_then_probe_decides [of open_example 14 20]
    cooldown_then_probe_decides [of open_example 15 20]
  by (auto simp: open_example_def newCircuitBreaker_def)

end
