(* ===== verification/GoTime.thy ===== *)
theory GoTime
  imports GoStrings
begin

text \<open>
  The RFC 3339 text of an instant, as \<^verbatim>\<open>time.Time\<close> writes it to JSON and reads it back: the civil
  date of a day number, fixed-width numbers, an optional fraction without trailing zeros, and
  the zone. The result is the round trip for the years 0 to 9999.
\<close>

section \<open>Civil dates\<close>

definition is_leap :: "nat \<Rightarrow> bool" where
  "is_leap y \<longleftrightarrow> 4 dvd y \<and> (\<not> 100 dvd y \<or> 400 dvd y)"

definition year_len :: "nat \<Rightarrow> nat" where
  "year_len y = (if is_leap y then 366 else 365)"

definition months :: "nat \<Rightarrow> nat list" where
  "months y = [31, if is_leap y then 29 else 28, 31, 30, 31, 30, 31, 31, 30, 31, 30, 31]"

text \<open>Which block of consecutive blocks of the given lengths a number falls in, and where.\<close>

fun split_by :: "nat list \<Rightarrow> nat \<Rightarrow> nat \<times> nat" where
  "split_by [] n = (0, n)"
| "split_by (l # ls) n = (if n < l then (0, n) else let (i, r) = split_by ls (n - l) in (Suc i, r))"

definition join_by :: "nat list \<Rightarrow> nat \<Rightarrow> nat \<Rightarrow> nat" where
  "join_by ls i r = sum_list (take i ls) + r"

lemma split_by_join:
  "n < sum_list ls \<Longrightarrow> split_by ls n = (i, r) \<Longrightarrow> i < length ls \<and> r < ls ! i \<and> join_by ls i r = n"
  by (induction ls n arbitrary: i r rule: split_by.induct)
    (fastforce simp: join_by_def split: if_splits prod.splits)+

text \<open>The calendar repeats after 400 years, 146097 days. Day 0 is the first day of the year 0.\<close>

definition cycle_years :: "nat list" where
  "cycle_years = map year_len [0..<400]"

definition civil :: "nat \<Rightarrow> nat \<times> nat \<times> nat" where
  "civil n = (let (yc, r) = split_by cycle_years (n mod 146097); y = 400 * (n div 146097) + yc;
    (m, d) = split_by (months y) r in (y, m + 1, d + 1))"

definition day_number :: "nat \<Rightarrow> nat \<Rightarrow> nat \<Rightarrow> nat" where
  "day_number y m d = 146097 * (y div 400) + join_by cycle_years (y mod 400) (join_by (months y) (m - 1) (d - 1))"

lemma div_step:
  "0 < k \<Longrightarrow> (Suc n + (k - 1)) div k = (n + (k - 1)) div k + (if k dvd n then 1 else 0)" for k :: nat
proof -
  assume k: "0 < k"
  then have "Suc (n + (k - 1)) = n + k" by simp
  then have m: "Suc (n + (k - 1)) mod k = n mod k" by simp
  have "Suc (n + (k - 1)) div k = (if Suc (n + (k - 1)) mod k = 0 then Suc ((n + (k - 1)) div k) else (n + (k - 1)) div k)"
    by (rule div_Suc)
  then show ?thesis unfolding m dvd_eq_mod_eq_0 add_Suc by (cases "n mod k = 0") simp_all
qed

lemma numeral_minus_one: "4 - 1 = (3 :: nat)" "100 - 1 = (99 :: nat)" "400 - 1 = (399 :: nat)"
  by simp_all

lemma sum_year_len:
  "sum_list (map year_len [0..<n]) + (n + 99) div 100 = 365 * n + (n + 3) div 4 + (n + 399) div 400"
proof (induction n)
  case (Suc n)
  have "100 dvd n \<Longrightarrow> 4 dvd n" "400 dvd n \<Longrightarrow> 100 dvd n" by (auto elim: dvd_trans [rotated])
  then have y: "year_len n + (if 100 dvd n then 1 else 0) = 365 + (if 4 dvd n then 1 else 0) + (if 400 dvd n then 1 else 0)"
    unfolding year_len_def is_leap_def by (cases "400 dvd n"; cases "100 dvd n"; cases "4 dvd n") (simp_all only: simp_thms if_True if_False, simp_all)
  have "sum_list (map year_len [0..<Suc n]) = sum_list (map year_len [0..<n]) + year_len n" by simp
  with Suc y show ?case 
    unfolding div_step [of 4 n, OF zero_less_numeral, unfolded numeral_minus_one]
      div_step [of 100 n, OF zero_less_numeral, unfolded numeral_minus_one]
      div_step [of 400 n, OF zero_less_numeral, unfolded numeral_minus_one] mult_Suc_right by algebra
qed simp

lemma sum_cycle_years: "sum_list cycle_years = 146097"
  using sum_year_len [of 400] by (simp add: cycle_years_def)

lemma sum_months: "sum_list (months y) = year_len y"
  by (simp add: months_def year_len_def)

lemma is_leap_cycle: "is_leap (400 * q + r) = is_leap r"
proof -
  have "4 dvd 400 * q" "100 dvd 400 * q" "400 dvd 400 * q" by simp_all
  note d = this [THEN dvd_add_right_iff [of _ _ r]]
  show ?thesis unfolding is_leap_def d ..
qed

lemma civil_day_number:
  assumes "civil n = (y, m, d)"
  shows "day_number y m d = n \<and> 1 \<le> m \<and> m \<le> 12 \<and> 1 \<le> d \<and> d \<le> months y ! (m - 1) \<and> y div 400 = n div 146097"
proof -
  obtain yc r where yc: "split_by cycle_years (n mod 146097) = (yc, r)" by fastforce
  have b: "yc < 400" "r < year_len yc" "join_by cycle_years yc r = n mod 146097"
    using split_by_join [OF _ yc, unfolded sum_cycle_years] by (auto simp: cycle_years_def)
  obtain mi di where mi: "split_by (months (400 * (n div 146097) + yc)) r = (mi, di)" by fastforce
  from assms yc mi have e: "y = 400 * (n div 146097) + yc" "m = mi + 1" "d = di + 1" by (auto simp: civil_def)
  have "year_len y = year_len yc" by (simp add: e year_len_def is_leap_cycle)
  with split_by_join [OF _ mi] b(2) have m: "mi < 12" "di < months y ! mi" "join_by (months y) mi di = r"
    by (auto simp: sum_months e) (auto simp: months_def)
  show ?thesis using b m by (simp add: day_number_def e)
qed

section \<open>Fixed-width numbers\<close>

fun pad :: "nat \<Rightarrow> nat \<Rightarrow> string" where
  "pad 0 n = []"
| "pad (Suc k) n = pad k (n div 10) @ [digit (n mod 10)]"

lemma length_pad [simp]: "length (pad k n) = k"
  by (induction k n rule: pad.induct) simp_all

lemma pad_digits [simp]: "list_all is_digit (pad k n)"
  by (induction k n rule: pad.induct) simp_all

lemma read_pad: "n < 10 ^ k \<Longrightarrow> read_nat (pad k n) = n"
proof (induction k n rule: pad.induct)
  case (2 k n)
  then have "n div 10 < 10 ^ k" by (simp add: less_mult_imp_div_less mult.commute)
  with 2 show ?case by simp
qed (simp add: read_nat_def)

definition take_num :: "nat \<Rightarrow> nat \<Rightarrow> nat \<Rightarrow> string \<Rightarrow> (nat \<times> string) option" where
  "take_num k lo hi s = (let ds = take k s in
    if length ds = k \<and> list_all is_digit ds \<and> lo \<le> read_nat ds \<and> read_nat ds \<le> hi
    then Some (read_nat ds, drop k s) else None)"

lemma take_num_pad [simp]:
  "n < 10 ^ k \<Longrightarrow> lo \<le> n \<Longrightarrow> n \<le> hi \<Longrightarrow> take_num k lo hi (pad k n @ s) = Some (n, s)"
  by (simp add: take_num_def read_pad)

fun expect :: "char \<Rightarrow> string \<Rightarrow> string option" where
  "expect c (x # s) = (if x = c then Some s else None)"
| "expect c [] = None"

section \<open>Format\<close>

definition strip_zeros :: "string \<Rightarrow> string" where
  "strip_zeros s = rev (dropWhile (\<lambda>c. c = CHR ''0'') (rev s))"

definition fmt_frac :: "nat \<Rightarrow> string" where
  "fmt_frac n = (if n = 0 then [] else CHR ''.'' # strip_zeros (pad 9 n))"

definition fmt_time :: "time \<Rightarrow> string" where
  "fmt_time t = (let secs = t div 1000000000; nanos = nat (t mod 1000000000);
      sod = nat (secs mod 86400); (y, m, d) = civil (nat (secs div 86400 + 366))
    in pad 4 y @ CHR ''-'' # pad 2 m @ CHR ''-'' # pad 2 d @ CHR ''T'' # pad 2 (sod div 3600) @ CHR '':'' #
       pad 2 (sod div 60 mod 60) @ CHR '':'' # pad 2 (sod mod 60) @ fmt_frac nanos @ ''Z'')"

section \<open>Parse\<close>

definition parse_frac :: "string \<Rightarrow> nat \<times> string" where
  "parse_frac s = (case s of c # r \<Rightarrow> if c = CHR ''.'' \<and> r \<noteq> [] \<and> is_digit (hd r)
      then (read_nat (take 9 (takeWhile is_digit r @ replicate 9 (CHR ''0''))), dropWhile is_digit r) else (0, s)
    | [] \<Rightarrow> (0, s))"

text \<open>The zone: \<^verbatim>\<open>Z\<close> or an offset, in seconds east of UTC.\<close>

definition parse_zone :: "string \<Rightarrow> int option" where
  "parse_zone s = (case s of [] \<Rightarrow> None
    | c # r \<Rightarrow> if c = CHR ''Z'' then (if r = [] then Some 0 else None)
      else if c = CHR ''+'' \<or> c = CHR ''-'' then
        Option.bind (take_num 2 0 23 r) (\<lambda>(h, r). Option.bind (expect CHR '':'' r) (\<lambda>r.
        Option.bind (take_num 2 0 59 r) (\<lambda>(mi, r).
          if r = [] then Some ((if c = CHR ''-'' then - 1 else 1) * int (3600 * h + 60 * mi)) else None)))
      else None)"

definition parse_time :: "string \<Rightarrow> time option" where
  "parse_time s =
    Option.bind (take_num 4 0 9999 s) (\<lambda>(y, s). Option.bind (expect CHR ''-'' s) (\<lambda>s.
    Option.bind (take_num 2 1 12 s) (\<lambda>(m, s). Option.bind (expect CHR ''-'' s) (\<lambda>s.
    Option.bind (take_num 2 1 (months y ! (m - 1)) s) (\<lambda>(d, s). Option.bind (expect CHR ''T'' s) (\<lambda>s.
    Option.bind (take_num 2 0 23 s) (\<lambda>(h, s). Option.bind (expect CHR '':'' s) (\<lambda>s.
    Option.bind (take_num 2 0 59 s) (\<lambda>(mi, s). Option.bind (expect CHR '':'' s) (\<lambda>s.
    Option.bind (take_num 2 0 59 s) (\<lambda>(sec, s).
    let (nanos, s) = parse_frac s in
    Option.bind (parse_zone s) (\<lambda>offset.
    Some ((((int (day_number y m d) - 366) * 86400 + int (3600 * h + 60 * mi + sec)) - offset) * 1000000000 + int nanos)))))))))))))"

section \<open>The round trip\<close>

lemma dropWhile_rev_zeros:
  "rev (dropWhile (\<lambda>c. c = z) (rev s)) @ replicate (length s - length (rev (dropWhile (\<lambda>c. c = z) (rev s)))) z = s"
proof (induction s rule: rev_induct)
  case (snoc x xs)
  have l: "length (dropWhile (\<lambda>c. c = z) (rev xs)) \<le> length xs" by (metis length_dropWhile_le length_rev)
  show ?case
  proof (cases "x = z")
    case True
    let ?t = "rev (dropWhile (\<lambda>c. c = z) (rev xs))"
    have "?t @ replicate (Suc (length xs - length ?t)) z = (?t @ replicate (length xs - length ?t) z) @ [z]"
      by (simp add: replicate_append_same)
    with True snoc l show ?thesis by (simp add: Suc_diff_le)
  qed simp
qed simp

lemma strip_zeros_pad:
  assumes "length s = k"
  shows "take k (strip_zeros s @ replicate k (CHR ''0'')) = s"
proof -
  let ?t = "strip_zeros s"
  have l: "length ?t \<le> k" using assms length_dropWhile_le [of _ "rev s"] by (simp add: strip_zeros_def)
  have "?t @ replicate (k - length ?t) (CHR ''0'') = s"
    using dropWhile_rev_zeros [of "CHR ''0''" s] assms by (simp add: strip_zeros_def)
  with l show ?thesis by (simp add: take_replicate min_def)
qed

lemma strip_zeros_digits: "list_all is_digit s \<Longrightarrow> list_all is_digit (strip_zeros s)"
  by (auto simp: strip_zeros_def list_all_iff dest: set_dropWhileD)

lemma read_zeros: "list_all (\<lambda>c. c = CHR ''0'') s \<Longrightarrow> read_nat s = 0"
  by (induction s rule: rev_induct) (simp_all add: read_nat_def digit_val_def)

lemma strip_zeros_nonempty: "0 < n \<Longrightarrow> n < 10 ^ k \<Longrightarrow> strip_zeros (pad k n) \<noteq> []"
  using read_pad [of n k] read_zeros [of "pad k n"] by (auto simp: strip_zeros_def list_all_iff)

lemma takeWhile_digits: "list_all is_digit s \<Longrightarrow> \<not> is_digit c \<Longrightarrow> takeWhile is_digit (s @ c # r) = s \<and> dropWhile is_digit (s @ c # r) = c # r"
  by (induction s) simp_all

lemma parse_fmt_frac: "n < 10 ^ 9 \<Longrightarrow> parse_frac (fmt_frac n @ ''Z'') = (n, ''Z'')"
proof (cases "n = 0")
  case False
  assume n: "n < 10 ^ 9"
  let ?s = "strip_zeros (pad 9 n)"
  have "list_all is_digit ?s" "?s \<noteq> []" using strip_zeros_nonempty [of n 9] n False by (simp_all add: strip_zeros_digits)
  moreover have "\<not> is_digit CHR ''Z''" by (simp add: is_digit_def)
  ultimately show ?thesis using False n strip_zeros_pad [of "pad 9 n" 9] read_pad [of n 9]
    by (auto simp: parse_frac_def fmt_frac_def takeWhile_digits hd_append list_all_iff)
qed (simp add: parse_frac_def fmt_frac_def)

text \<open>The years Go marshals: 0 to 9999.\<close>

definition in_years :: "time \<Rightarrow> bool" where
  "in_years t \<longleftrightarrow> - 31622400000000000 \<le> t \<and> t < 315537897600000000000"

lemma parse_fmt_time:
  assumes "in_years t"
  shows "parse_time (fmt_time t) = Some t"
proof -
  define secs where "secs = t div 1000000000"
  define day where "day = secs div 86400"
  define sod where "sod = nat (secs mod 86400)"
  obtain y m d where c: "civil (nat (day + 366)) = (y, m, d)" using prod_cases3 by blast
  have secs: "- 31622400 \<le> secs" "secs < 315537897600" using assms by (auto simp: in_years_def secs_def)
  have day: "- 366 \<le> day" "day < 3652059" using secs by (auto simp: day_def)
  note cd = civil_day_number [OF c]
  have "y div 400 < 25" using cd day by (simp add: nat_less_iff div_less_iff_less_mult)
  then have y: "y < 10000" by simp
  have "m - 1 < 12" using cd by linarith
  then have "months y ! (m - 1) \<le> 31" by (auto simp: months_def less_Suc_eq numeral_eq_Suc)
  then have d: "d < 100" using cd by simp
  have sod: "sod < 86400" by (simp add: sod_def nat_less_iff)
  have h: "sod div 3600 \<le> 23" using sod by simp
  have n: "nat (t mod 1000000000) < 10 ^ 9" by (simp add: nat_less_iff)
  have hms: "3600 * (sod div 3600) + 60 * (sod div 60 mod 60) + sod mod 60 = sod"
  proof -
    have "sod div 3600 = sod div 60 div 60" by (simp add: div_mult2_eq [symmetric])
    then have "3600 * (sod div 3600) + 60 * (sod div 60 mod 60) + sod mod 60 = 60 * (60 * (sod div 60 div 60) + sod div 60 mod 60) + sod mod 60"
      by (simp only: add_mult_distrib2)
    then show ?thesis by (simp only: mult_div_mod_eq)
  qed
  have t: "((day * 86400 + int sod) * 1000000000 + int (nat (t mod 1000000000))) = t"
    by (simp add: day_def sod_def secs_def)
  have dn: "int (day_number y m d) - 366 = day" using cd day by simp
  have f: "fmt_time t = pad 4 y @ CHR ''-'' # pad 2 m @ CHR ''-'' # pad 2 d @ CHR ''T'' # pad 2 (sod div 3600) @ CHR '':'' #
       pad 2 (sod div 60 mod 60) @ CHR '':'' # pad 2 (sod mod 60) @ fmt_frac (nat (t mod 1000000000)) @ ''Z''"
    using c by (simp add: fmt_time_def Let_def secs_def day_def sod_def)
  have md: "1 \<le> m" "m \<le> 12" "1 \<le> d" "d \<le> months y ! (m - 1)" using cd by simp_all
  have tn: "take_num 4 0 9999 (pad 4 y @ s) = Some (y, s)" "take_num 2 1 12 (pad 2 m @ s) = Some (m, s)"
    "take_num 2 1 (months y ! (m - 1)) (pad 2 d @ s) = Some (d, s)"
    "take_num 2 0 23 (pad 2 (sod div 3600) @ s) = Some (sod div 3600, s)"
    "take_num 2 0 59 (pad 2 (sod div 60 mod 60) @ s) = Some (sod div 60 mod 60, s)"
    "take_num 2 0 59 (pad 2 (sod mod 60) @ s) = Some (sod mod 60, s)" for s
    subgoal by (rule take_num_pad) (use y in simp_all)
    subgoal by (rule take_num_pad [OF _ md(1,2)]) (use md(2) in simp)
    subgoal by (rule take_num_pad [OF _ md(3,4)]) (use d in simp)
    subgoal by (rule take_num_pad) (use h in simp_all)
    subgoal by (rule take_num_pad) (simp_all add: less_Suc_eq_le [symmetric])
    subgoal by (rule take_num_pad) (simp_all add: less_Suc_eq_le [symmetric])
    done
  have z: "parse_zone ''Z'' = Some 0" by (simp add: parse_zone_def)
  show ?thesis
    unfolding f parse_time_def tn parse_fmt_frac [OF n] z expect.simps bind.bind_lunit Let_def prod.case if_True simp_thms
      hms diff_zero dn t ..
qed

end
