(* ===== verification/SmsDomain.thy ===== *)
theory SmsDomain
  imports GoTime GoFloat
begin

text \<open>
  The SMS domain and the data that travels between the components: line types, destinations
  and the message limit (\<^verbatim>\<open>internal/domain/sms\<close>), channels (\<^verbatim>\<open>internal/domain/channel\<close>), the
  delivery event (\<^verbatim>\<open>internal/application/sms/service.go\<close>) and its JSON form. \<^verbatim>\<open>LineType\<close> and
  \<^verbatim>\<open>Destination\<close> are strings in the code and stay strings here.
\<close>

section \<open>Domain types\<close>

type_synonym LineType = string
type_synonym Destination = string

definition LineTypeExpress :: LineType where
  "LineTypeExpress = ''express''"

definition LineTypeNormal :: LineType where
  "LineTypeNormal = ''normal''"

definition LineType_IsValid :: "LineType \<Rightarrow> bool" where
  "LineType_IsValid lt \<longleftrightarrow> lt = LineTypeExpress \<or> lt = LineTypeNormal"

definition Destination_IsValid :: "Destination \<Rightarrow> bool" where
  "Destination_IsValid d \<longleftrightarrow> 0 < length d"

definition IsMessageValid :: "string \<Rightarrow> bool" where
  "IsMessageValid message \<longleftrightarrow> 0 < rune_count message \<and> rune_count message \<le> 1600"

record SMSCost =
  cost_ID :: int
  cost_LineType :: LineType
  cost_Cost :: float64

record Channel =
  ch_ID :: int
  ch_Name :: string
  ch_WalletID :: int
  ch_IsActive :: bool
  ch_CreatedAt :: time
  ch_UpdatedAt :: time

record DeliveryReport =
  rep_MessageID :: string
  rep_WalletID :: int
  rep_Destination :: Destination
  rep_Message :: string
  rep_Line :: LineType
  rep_ChannelName :: string
  rep_Status :: string
  rep_Attempts :: int
  rep_LastError :: string
  rep_CreatedAt :: time
  rep_UpdatedAt :: time
  rep_DeliveredAt :: "time option"

section \<open>The delivery event\<close>

record DeliveryEvent =
  ev_MessageID :: string
  ev_WalletID :: int
  ev_Destination :: Destination
  ev_Message :: string
  ev_Line :: LineType
  ev_ChannelName :: string
  ev_CostUnits :: int
  ev_CreatedAt :: time
  ev_DeadlineAt :: time

definition zero_event :: DeliveryEvent where
  "zero_event = \<lparr>ev_MessageID = [], ev_WalletID = 0, ev_Destination = [], ev_Message = [], ev_Line = [],
    ev_ChannelName = [], ev_CostUnits = 0, ev_CreatedAt = zero_time, ev_DeadlineAt = zero_time\<rparr>"

text \<open>
  JSON values, as syntax trees: the form in which a payload survives the \<^verbatim>\<open>jsonb\<close> column and the
  broker; \<open>JFrac\<close> is a number that is no integer. A request or message body is \<open>Some\<close> tree, or
  \<open>None\<close> if its bytes are no JSON at all.
\<close>

datatype json = JNull | JBool bool | JInt int | JFrac | JStr string
  | JArr "json list" | JObj "(string \<times> json) list"

text \<open>
  \<^verbatim>\<open>json.Marshal\<close> of an event: every field in order, \<^verbatim>\<open>deadline_at\<close> too (\<^verbatim>\<open>omitempty\<close> has no effect on
  a \<^verbatim>\<open>time.Time\<close>); bytes of a string that are not UTF-8 become the replacement character. A time
  whose year is not within 0 to 9999 cannot be marshalled.
\<close>

function utf8_clean :: "string \<Rightarrow> string" where
  "utf8_clean [] = []"
| "utf8_clean (c # s) = (let n = rune_width (c # s) in
     if n = 1 \<and> 128 \<le> (of_char c :: nat) then [CHR 0xEF, CHR 0xBF, CHR 0xBD] @ utf8_clean s
     else c # take (n - 1) s @ utf8_clean (drop (n - 1) s))"
  by pat_completeness auto
termination by (relation "measure length") auto

definition json_event :: "DeliveryEvent \<Rightarrow> json" where
  "json_event e = JObj [(''message_id'', JStr (utf8_clean (ev_MessageID e))), (''wallet_id'', JInt (ev_WalletID e)),
    (''destination'', JStr (utf8_clean (ev_Destination e))), (''message'', JStr (utf8_clean (ev_Message e))),
    (''line'', JStr (utf8_clean (ev_Line e))), (''channel_name'', JStr (utf8_clean (ev_ChannelName e))),
    (''cost_units'', JInt (ev_CostUnits e)), (''created_at'', JStr (fmt_time (ev_CreatedAt e))),
    (''deadline_at'', JStr (fmt_time (ev_DeadlineAt e)))]"

definition json_Marshal :: "DeliveryEvent \<Rightarrow> error + json" where
  "json_Marshal e = (if in_years (ev_CreatedAt e) \<and> in_years (ev_DeadlineAt e) then Inr (json_event e)
    else Inl (NewError ''json: error calling MarshalJSON for type time.Time: year outside of range [0,9999]''))"

text \<open>
  \<^verbatim>\<open>json.Unmarshal\<close> into an event: keys are matched exactly or else without regard to case, unknown
  keys are skipped, \<^verbatim>\<open>null\<close> leaves a field alone, a later duplicate overwrites, and a value of the
  wrong kind makes the call fail.
\<close>

function foldName :: "string \<Rightarrow> string" where
  "foldName [] = []"
| "foldName (c # s) =
    (if c = CHR 0xC5 \<and> take 1 s = [CHR 0xBF] then CHR ''s'' # foldName (drop 1 s)
     else if c = CHR 0xE2 \<and> take 2 s = [CHR 0x84, CHR 0xAA] then CHR ''k'' # foldName (drop 2 s)
     else (if 65 \<le> (of_char c :: nat) \<and> (of_char c :: nat) \<le> 90 then char_of (of_char c + 32 :: nat) else c) # foldName s)"
  by pat_completeness auto
termination by (relation "measure length") auto

definition type_error :: "error" where
  "type_error = NewError ''json: cannot unmarshal value into Go struct field DeliveryEvent''"

definition set_string :: "(string \<Rightarrow> DeliveryEvent \<Rightarrow> DeliveryEvent) \<Rightarrow> json \<Rightarrow> DeliveryEvent \<Rightarrow> error + DeliveryEvent" where
  "set_string f v e = (case v of JStr s \<Rightarrow> Inr (f s e) | JNull \<Rightarrow> Inr e | _ \<Rightarrow> Inl type_error)"

definition set_int :: "(int \<Rightarrow> DeliveryEvent \<Rightarrow> DeliveryEvent) \<Rightarrow> json \<Rightarrow> DeliveryEvent \<Rightarrow> error + DeliveryEvent" where
  "set_int f v e = (case v of JInt n \<Rightarrow> if in_int64 n then Inr (f n e) else Inl type_error
    | JNull \<Rightarrow> Inr e | _ \<Rightarrow> Inl type_error)"

definition set_time :: "(time \<Rightarrow> DeliveryEvent \<Rightarrow> DeliveryEvent) \<Rightarrow> json \<Rightarrow> DeliveryEvent \<Rightarrow> error + DeliveryEvent" where
  "set_time f v e = (case v of JStr s \<Rightarrow> (case parse_time s of Some t \<Rightarrow> Inr (f t e) | None \<Rightarrow> Inl type_error)
    | JNull \<Rightarrow> Inr e | _ \<Rightarrow> Inl type_error)"

definition event_fields :: "(string \<times> (json \<Rightarrow> DeliveryEvent \<Rightarrow> error + DeliveryEvent)) list" where
  "event_fields = [(''message_id'', set_string (\<lambda>s. ev_MessageID_update (\<lambda>_. s))),
    (''wallet_id'', set_int (\<lambda>n. ev_WalletID_update (\<lambda>_. n))),
    (''destination'', set_string (\<lambda>s. ev_Destination_update (\<lambda>_. s))),
    (''message'', set_string (\<lambda>s. ev_Message_update (\<lambda>_. s))),
    (''line'', set_string (\<lambda>s. ev_Line_update (\<lambda>_. s))),
    (''channel_name'', set_string (\<lambda>s. ev_ChannelName_update (\<lambda>_. s))),
    (''cost_units'', set_int (\<lambda>n. ev_CostUnits_update (\<lambda>_. n))),
    (''created_at'', set_time (\<lambda>t. ev_CreatedAt_update (\<lambda>_. t))),
    (''deadline_at'', set_time (\<lambda>t. ev_DeadlineAt_update (\<lambda>_. t)))]"

definition set_field :: "string \<Rightarrow> json \<Rightarrow> DeliveryEvent \<Rightarrow> error + DeliveryEvent" where
  "set_field k v e = (case map_of event_fields k of Some f \<Rightarrow> f v e
    | None \<Rightarrow> (case map_of event_fields (foldName k) of Some f \<Rightarrow> f v e | None \<Rightarrow> Inr e))"

fun set_fields :: "(string \<times> json) list \<Rightarrow> DeliveryEvent \<Rightarrow> error + DeliveryEvent" where
  "set_fields [] e = Inr e"
| "set_fields ((k, v) # kvs) e = (case set_field k v e of Inl err \<Rightarrow> Inl err | Inr e' \<Rightarrow> set_fields kvs e')"

definition json_Unmarshal :: "json option \<Rightarrow> error + DeliveryEvent" where
  "json_Unmarshal body = (case body of
     None \<Rightarrow> Inl (NewError ''invalid character in JSON text'')
   | Some (JObj kvs) \<Rightarrow> set_fields kvs zero_event
   | Some JNull \<Rightarrow> Inr zero_event
   | Some _ \<Rightarrow> Inl type_error)"

section \<open>The event survives its encoding\<close>

definition valid_utf8 :: "string \<Rightarrow> bool" where
  "valid_utf8 s \<longleftrightarrow> utf8_clean s = s"

definition event_ok :: "DeliveryEvent \<Rightarrow> bool" where
  "event_ok e \<longleftrightarrow> in_int64 (ev_WalletID e) \<and> in_int64 (ev_CostUnits e)
    \<and> in_years (ev_CreatedAt e) \<and> in_years (ev_DeadlineAt e)
    \<and> list_all valid_utf8 [ev_MessageID e, ev_Destination e, ev_Message e, ev_Line e, ev_ChannelName e]"

lemma json_roundtrip_aux:
  assumes "event_ok e"
  shows "json_Marshal e = Inr (json_event e) \<and> json_Unmarshal (Some (json_event e)) = Inr e"
  using assms
  by (simp add: event_ok_def valid_utf8_def json_Marshal_def json_event_def json_Unmarshal_def set_field_def
      event_fields_def set_string_def set_int_def set_time_def parse_fmt_time zero_event_def)

lemma ascii_valid_utf8: "list_all (\<lambda>c. (of_char c :: nat) < 128) s \<Longrightarrow> valid_utf8 s"
  unfolding valid_utf8_def by (induction s) (simp_all add: rune_width_def Let_def)

end
