(* ===== verification/ProviderPool.thy ===== *)
theory ProviderPool
  imports CircuitBreaker RedisCircuit SmsDomain
begin

text \<open>
  The provider pool of \<^verbatim>\<open>internal/infrastructure/sms/provider_pool.go\<close> and the mock provider of
  \<^verbatim>\<open>mock_provider.go\<close>: validation, the in-process state store, the round-robin sender. The Go
  interfaces \<^verbatim>\<open>Provider\<close> and \<^verbatim>\<open>providerStateStore\<close> are records of functions on the state \<open>'w\<close> of
  everything outside the pool. Log output is left out. The context of a call is its deadline;
  its cancellation shows only as an error of the call it is passed to.
\<close>

section \<open>Interfaces\<close>

type_synonym ctx = "time option"

record 'w Provider =
  Name :: string
  Send :: "ctx \<Rightarrow> DeliveryEvent \<Rightarrow> 'w \<Rightarrow> error option \<times> 'w"

record 'w providerStateStore =
  store_next :: "'w \<Rightarrow> (error + 64 word) \<times> 'w"
  store_acquire :: "string \<Rightarrow> 'w \<Rightarrow> (error + 64 word \<times> bool \<times> circuitState \<times> bool) \<times> 'w"
  store_complete :: "string \<Rightarrow> 64 word \<Rightarrow> bool \<Rightarrow> 'w \<Rightarrow> (error + circuitState \<times> bool) \<times> 'w"

section \<open>The in-process store\<close>

record memoryProviderState =
  nextIndex :: "64 word"
  breakers :: "string \<Rightarrow> circuitBreaker option"

definition newMemoryProviderState :: "'w Provider list \<Rightarrow> int \<Rightarrow> duration \<Rightarrow> memoryProviderState" where
  "newMemoryProviderState providers th cd = \<lparr>nextIndex = 0,
    breakers = foldl (\<lambda>m p. m(Name p \<mapsto> newCircuitBreaker th cd)) Map.empty providers\<rparr>"

text \<open>
  The state lives beside a clock, which \<open>now\<close> reads and moves on, and the rest of the world. A
  name without breaker is a nil pointer, whose use panics.
\<close>

definition mps_next :: "memoryProviderState \<times> 'k \<times> 'v \<Rightarrow> (error + 64 word) \<times> (memoryProviderState \<times> 'k \<times> 'v)" where
  "mps_next w = (case w of (s, k, v) \<Rightarrow> let s' = s\<lparr>nextIndex := nextIndex s + 1\<rparr> in (Inr (nextIndex s' - 1), (s', k, v)))"

definition mps_acquire ::
  "('k \<Rightarrow> time \<times> 'k) \<Rightarrow> string \<Rightarrow> memoryProviderState \<times> 'k \<times> 'v \<Rightarrow>
   (error + 64 word \<times> bool \<times> circuitState \<times> bool) \<times> (memoryProviderState \<times> 'k \<times> 'v)" where
  "mps_acquire now provider w = (case w of (s, k, v) \<Rightarrow> case now k of (t, k') \<Rightarrow>
    (case breakers s provider of
       None \<Rightarrow> (Inl nil_deref, (s, k', v))
     | Some b \<Rightarrow> (case cb_acquire b t of (r, b') \<Rightarrow> (Inr r, (s\<lparr>breakers := (breakers s)(provider \<mapsto> b')\<rparr>, k', v)))))"

definition mps_complete ::
  "('k \<Rightarrow> time \<times> 'k) \<Rightarrow> string \<Rightarrow> 64 word \<Rightarrow> bool \<Rightarrow> memoryProviderState \<times> 'k \<times> 'v \<Rightarrow>
   (error + circuitState \<times> bool) \<times> (memoryProviderState \<times> 'k \<times> 'v)" where
  "mps_complete now provider gen success w = (case w of (s, k, v) \<Rightarrow> case now k of (t, k') \<Rightarrow>
    (case breakers s provider of
       None \<Rightarrow> (Inl nil_deref, (s, k', v))
     | Some b \<Rightarrow> (case cb_complete b gen success t of (r, b') \<Rightarrow> (Inr r, (s\<lparr>breakers := (breakers s)(provider \<mapsto> b')\<rparr>, k', v)))))"

definition memory_store :: "('k \<Rightarrow> time \<times> 'k) \<Rightarrow> (memoryProviderState \<times> 'k \<times> 'v) providerStateStore" where
  "memory_store now = \<lparr>store_next = mps_next, store_acquire = mps_acquire now, store_complete = mps_complete now\<rparr>"

definition redis_store :: "'w redis_client \<Rightarrow> redisProviderState \<Rightarrow> 'w providerStateStore" where
  "redis_store eval s = \<lparr>store_next = rp_next eval s, store_acquire = rp_acquire eval s, store_complete = rp_complete eval s\<rparr>"

section \<open>The sender\<close>

record 'w RoundRobinSender =
  providers :: "'w Provider list"
  rrs_state :: "'w providerStateStore"

definition newRoundRobinSender :: "'w Provider list \<Rightarrow> 'w providerStateStore \<Rightarrow> 'w RoundRobinSender" where
  "newRoundRobinSender ps st = \<lparr>providers = ps, rrs_state = st\<rparr>"

fun validate_loop :: "string list \<Rightarrow> 'w Provider option list \<Rightarrow> error + 'w Provider list" where
  "validate_loop seen [] = Inr []"
| "validate_loop seen (None # ps) = Inl (NewError ''SMS provider and provider name are required'')"
| "validate_loop seen (Some p # ps) =
    (if Name p = [] then Inl (NewError ''SMS provider and provider name are required'')
     else if Name p \<in> set seen then Inl (NewError (''duplicate SMS provider name '' @ quoted (Name p)))
     else case validate_loop (Name p # seen) ps of Inl err \<Rightarrow> Inl err | Inr qs \<Rightarrow> Inr (p # qs))"

definition validatePool :: "'w Provider option list \<Rightarrow> int \<Rightarrow> duration \<Rightarrow> error + 'w Provider list" where
  "validatePool ps th cd =
    (if length ps = 0 then Inl (NewError ''at least one SMS provider is required'')
     else if th < 1 then Inl (NewError ''circuit breaker failure threshold must be positive'')
     else if cd \<le> 0 then Inl (NewError ''circuit breaker cooldown must be positive'')
     else validate_loop [] ps)"

text \<open>\<^verbatim>\<open>NewRoundRobinSender\<close>: the sender and the initial state of its store.\<close>

definition NewRoundRobinSender ::
  "('k \<Rightarrow> time \<times> 'k) \<Rightarrow> (memoryProviderState \<times> 'k \<times> 'v) Provider option list \<Rightarrow> int \<Rightarrow> duration \<Rightarrow>
   error + (memoryProviderState \<times> 'k \<times> 'v) RoundRobinSender \<times> memoryProviderState" where
  "NewRoundRobinSender now ps th cd = (case validatePool ps th cd of
     Inl err \<Rightarrow> Inl err
   | Inr ps' \<Rightarrow> Inr (newRoundRobinSender ps' (memory_store now), newMemoryProviderState ps' th cd))"

definition NewRedisRoundRobinSender ::
  "'w redis_client \<Rightarrow> (string \<Rightarrow> error + 'o) \<Rightarrow> ('o \<Rightarrow> error option) \<Rightarrow> string \<Rightarrow> string \<Rightarrow>
   'w Provider option list \<Rightarrow> int \<Rightarrow> duration \<Rightarrow> duration \<Rightarrow> error + 'w RoundRobinSender" where
  "NewRedisRoundRobinSender eval parse ping url poolName ps th cd lease = (case validatePool ps th cd of
     Inl err \<Rightarrow> Inl err
   | Inr ps' \<Rightarrow> (case newRedisProviderState parse ping url poolName th cd lease of
       Inl err \<Rightarrow> Inl err
     | Inr st \<Rightarrow> Inr (newRoundRobinSender ps' (redis_store eval st))))"

text \<open>
  \<^verbatim>\<open>Send\<close>. \<open>send_loop\<close> is the body of the loop over the offsets. A panic leaves the function as it
  is; the error of \<^verbatim>\<open>complete\<close> is only logged.
\<close>

fun send_loop :: "'w RoundRobinSender \<Rightarrow> ctx \<Rightarrow> DeliveryEvent \<Rightarrow> 64 word \<Rightarrow> nat list \<Rightarrow> 'w \<Rightarrow> error option \<times> 'w" where
  "send_loop s c event start [] w = (Some ErrAllProvidersUnavailable, w)"
| "send_loop s c event start (offset # rest) w =
    (let index = (start + of_nat offset) mod of_nat (length (providers s));
         provider = providers s ! unat index
     in case store_acquire (rrs_state s) (Name provider) w of
       (Inl err, w1) \<Rightarrow> (Some (wrap_panic (''read provider '' @ Name provider @ '' circuit: '') err), w1)
     | (Inr (gen, allowed, st, changed), w1) \<Rightarrow>
         if \<not> allowed then send_loop s c event start rest w1
         else case Send provider c event w1 of (sendErr, w2) \<Rightarrow>
           (case store_complete (rrs_state s) (Name provider) gen (sendErr = None) w2 of
              (Inl (Panicked e), w3) \<Rightarrow> (Some (Panicked e), w3)
            | (_, w3) \<Rightarrow>
                (case sendErr of
                   Some err \<Rightarrow> (Some (Wrapf (''send with provider '' @ Name provider @ '': '') err []), w3)
                 | None \<Rightarrow> (None, w3))))"

definition rrs_Send :: "'w RoundRobinSender \<Rightarrow> ctx \<Rightarrow> DeliveryEvent \<Rightarrow> 'w \<Rightarrow> error option \<times> 'w" where
  "rrs_Send s c event w = (case store_next (rrs_state s) w of
     (Inl err, w1) \<Rightarrow> (Some (Wrapf ''select SMS provider: '' err []), w1)
   | (Inr start, w1) \<Rightarrow> send_loop s c event start [0..<length (providers s)] w1)"

section \<open>The mock provider\<close>

record MockProvider =
  mock_name :: string
  failureRate :: float64
  latency :: duration

definition NewMockProvider :: "string \<Rightarrow> float64 \<Rightarrow> duration \<Rightarrow> error + MockProvider" where
  "NewMockProvider nm rate lat =
    (if nm = [] then Inl (NewError ''mock provider name is required'')
     else if flt rate (Fin 0) \<or> flt (Fin 1) rate
     then Inl (NewError (''mock provider '' @ quoted nm @ '' failure rate must be between 0 and 1''))
     else if lat < 0 then Inl (NewError (''mock provider '' @ quoted nm @ '' latency cannot be negative''))
     else Inr \<lparr>mock_name = nm, failureRate = rate, latency = lat\<rparr>)"

text \<open>
  The mock's \<^verbatim>\<open>Send\<close>: \<open>wait\<close> is the select between the context and the timer (\<open>Some\<close> the context's
  error when the context ends first), \<open>rnd\<close> is \<^verbatim>\<open>rand.Float64\<close>.
\<close>

definition mock_Send ::
  "(ctx \<Rightarrow> duration \<Rightarrow> 'w \<Rightarrow> error option \<times> 'w) \<Rightarrow> ('w \<Rightarrow> float64 \<times> 'w) \<Rightarrow> MockProvider \<Rightarrow>
   ctx \<Rightarrow> DeliveryEvent \<Rightarrow> 'w \<Rightarrow> error option \<times> 'w" where
  "mock_Send wait rnd p c event w =
    (case (if 0 < latency p then wait c (latency p) w else (None, w)) of
       (Some err, w1) \<Rightarrow> (Some (Wrapf (''provider '' @ mock_name p @ '' send canceled: '') err []), w1)
     | (None, w1) \<Rightarrow> (case rnd w1 of (x, w2) \<Rightarrow>
         if flt x (failureRate p) then (Some (NewError (''provider '' @ mock_name p @ '' rejected SMS'')), w2)
         else (None, w2)))"

definition mock_Provider ::
  "(ctx \<Rightarrow> duration \<Rightarrow> 'w \<Rightarrow> error option \<times> 'w) \<Rightarrow> ('w \<Rightarrow> float64 \<times> 'w) \<Rightarrow> MockProvider \<Rightarrow> 'w Provider" where
  "mock_Provider wait rnd p = \<lparr>Name = mock_name p, Send = mock_Send wait rnd p\<rparr>"

definition mock_specs :: "(string \<times> float64 \<times> duration) list" where
  "mock_specs = [(''mock-arya'', fl (1 / 10), 20000000), (''mock-baran'', fl (2 / 10), 35000000),
    (''mock-caspian'', fl (5 / 100), 50000000)]"

fun mock_loop :: "(MockProvider \<Rightarrow> 'w Provider) \<Rightarrow> (string \<times> float64 \<times> duration) list \<Rightarrow> error + 'w Provider list" where
  "mock_loop mk [] = Inr []"
| "mock_loop mk ((nm, rate, lat) # specs) = (case NewMockProvider nm rate lat of
     Inl err \<Rightarrow> Inl err
   | Inr p \<Rightarrow> (case mock_loop mk specs of Inl err \<Rightarrow> Inl err | Inr ps \<Rightarrow> Inr (mk p # ps)))"

definition defaultMockProviders ::
  "(ctx \<Rightarrow> duration \<Rightarrow> 'w \<Rightarrow> error option \<times> 'w) \<Rightarrow> ('w \<Rightarrow> float64 \<times> 'w) \<Rightarrow> error + 'w Provider list" where
  "defaultMockProviders wait rnd = mock_loop (mock_Provider wait rnd) mock_specs"

definition NewDefaultMockRoundRobinSender ::
  "(ctx \<Rightarrow> duration \<Rightarrow> memoryProviderState \<times> 'k \<times> 'v \<Rightarrow> error option \<times> (memoryProviderState \<times> 'k \<times> 'v)) \<Rightarrow>
   (memoryProviderState \<times> 'k \<times> 'v \<Rightarrow> float64 \<times> (memoryProviderState \<times> 'k \<times> 'v)) \<Rightarrow> ('k \<Rightarrow> time \<times> 'k) \<Rightarrow> int \<Rightarrow> duration \<Rightarrow>
   error + (memoryProviderState \<times> 'k \<times> 'v) RoundRobinSender \<times> memoryProviderState" where
  "NewDefaultMockRoundRobinSender wait rnd now th cd = (case defaultMockProviders wait rnd of
     Inl err \<Rightarrow> Inl err
   | Inr ps \<Rightarrow> NewRoundRobinSender now (map Some ps) th cd)"

definition NewDefaultRedisMockRoundRobinSender ::
  "(ctx \<Rightarrow> duration \<Rightarrow> 'w \<Rightarrow> error option \<times> 'w) \<Rightarrow> ('w \<Rightarrow> float64 \<times> 'w) \<Rightarrow> 'w redis_client \<Rightarrow> (string \<Rightarrow> error + 'o) \<Rightarrow>
   ('o \<Rightarrow> error option) \<Rightarrow> string \<Rightarrow> int \<Rightarrow> duration \<Rightarrow> duration \<Rightarrow> error + 'w RoundRobinSender" where
  "NewDefaultRedisMockRoundRobinSender wait rnd eval parse ping redisURL th cd lease = (case defaultMockProviders wait rnd of
     Inl err \<Rightarrow> Inl err
   | Inr ps \<Rightarrow> NewRedisRoundRobinSender eval parse ping redisURL ''global'' (map Some ps) th cd lease)"

end
