(* ===== verification/PoolProperties.thy ===== *)
theory PoolProperties
  imports ProviderPool
begin

text \<open>
  What the provider pool promises. The laws a state store keeps towards the sender are the
  locales \<open>provider_state_store\<close> (a store touches nothing but itself) and \<open>ready_store\<close> (while it
  is healthy it hands out successive indices and admits every provider); both are interpreted on
  the in-process store, the first one also on the Redis store. From them: at most one provider
  is tried per message, and traffic is spread evenly.
\<close>

section \<open>Validation\<close>

lemma validate_loop_iff:
  "validate_loop seen ps = Inr qs \<longleftrightarrow>
    ps = map Some qs \<and> (\<forall>p \<in> set qs. Name p \<noteq> []) \<and> distinct (map Name qs) \<and> set (map Name qs) \<inter> set seen = {}"
proof (induction seen ps arbitrary: qs rule: validate_loop.induct)
  case (3 seen p ps)
  have e: "validate_loop seen (Some p # ps) = Inr qs \<longleftrightarrow> Name p \<noteq> [] \<and> Name p \<notin> set seen
      \<and> (\<exists>qs'. validate_loop (Name p # seen) ps = Inr qs' \<and> qs = p # qs')"
    by (auto split: sum.splits)
  show ?case
  proof (cases "Name p = [] \<or> Name p \<in> set seen")
    case False
    then show ?thesis unfolding e using 3 by (cases qs) auto
  qed (auto simp: e)
qed auto

section \<open>One provider per message\<close>

locale provider_state_store =
  fixes store :: "'w providerStateStore" and sees :: "'w \<Rightarrow> 'o"
  assumes next_sees: "sees (snd (store_next store w)) = sees w"
    and acquire_sees: "sees (snd (store_acquire store p w)) = sees w"
    and complete_sees: "sees (snd (store_complete store p g ok w)) = sees w"
begin

definition counts :: "'w Provider list \<Rightarrow> ('o \<Rightarrow> nat) \<Rightarrow> bool" where
  "counts ps calls \<longleftrightarrow> (\<forall>p \<in> set ps. \<forall>c e w. calls (sees (snd (Send p c e w))) = calls (sees w) + 1)"

lemma index_in_range:
  fixes start :: "64 word"
  assumes "0 < n" "n < 2 ^ 64"
  shows "unat ((start + of_nat k) mod of_nat n) < n"
proof -
  have "unat (of_nat n :: 64 word) = n" using assms by (simp add: unsigned_of_nat take_bit_eq_mod)
  then show ?thesis using assms(1) by (simp add: unat_mod)
qed

lemma loop_once:
  assumes ps: "providers s \<noteq> []" "length (providers s) < 2 ^ 64" and st: "rrs_state s = store"
    and cnt: "counts (providers s) calls"
  shows "send_loop s c e start offs w = (r, w') \<Longrightarrow> calls (sees w') \<le> calls (sees w) + 1
    \<and> (r = None \<longrightarrow> calls (sees w') = calls (sees w) + 1)
    \<and> (r = Some ErrAllProvidersUnavailable \<longrightarrow> calls (sees w') = calls (sees w))"
proof (induction offs arbitrary: w)
  case (Cons k offs)
  let ?p = "providers s ! unat ((start + of_nat k) mod of_nat (length (providers s)))"
  have mem: "?p \<in> set (providers s)" using ps index_in_range by simp
  obtain ra w1 where a: "store_acquire store (Name ?p) w = (ra, w1)" by fastforce
  have w1: "sees w1 = sees w" using acquire_sees [of "Name ?p" w] a by simp
  show ?case
  proof (cases ra)
    case (Inl err)
    with a Cons.prems w1 st show ?thesis by (auto simp: Let_def wrap_panic_def split: error.splits)
  next
    case (Inr x)
    obtain g al s1 ch where x: "x = (g, al, s1, ch)" by (cases x)
    obtain se w2 where sd: "Send ?p c e w1 = (se, w2)" by fastforce
    obtain rc w3 where c: "store_complete store (Name ?p) g (se = None) w2 = (rc, w3)" by fastforce
    have "sees w3 = sees w2" using complete_sees [of "Name ?p" g "se = None" w2] c by simp
    moreover have "calls (sees w2) = calls (sees w1) + 1"
      using cnt mem sd unfolding counts_def by (metis snd_conv)
    moreover have "calls (sees w') \<le> calls (sees w1) + 1 \<and> (r = None \<longrightarrow> calls (sees w') = calls (sees w1) + 1)
        \<and> (r = Some ErrAllProvidersUnavailable \<longrightarrow> calls (sees w') = calls (sees w1))" if "\<not> al"
      using Cons.IH [of w1] Cons.prems a st Inr x that by (simp add: Let_def)
    ultimately show ?thesis
      using Cons.prems a st Inr x sd c w1
      by (cases al) (auto simp: Let_def split: sum.splits error.splits option.splits)
  qed
qed auto

lemma send_once:
  assumes "rrs_Send s c e w = (r, w')" "providers s \<noteq> []" "length (providers s) < 2 ^ 64" "rrs_state s = store"
    "counts (providers s) calls"
  shows "calls (sees w') \<le> calls (sees w) + 1 \<and> (r = None \<longrightarrow> calls (sees w') = calls (sees w) + 1)
    \<and> (r = Some ErrAllProvidersUnavailable \<longrightarrow> calls (sees w') = calls (sees w))"
proof -
  obtain rn w1 where n: "store_next store w = (rn, w1)" by fastforce
  have "sees w1 = sees w" using next_sees [of w] n by simp
  with loop_once [OF assms(2-5), of c e _ _ w1 r w'] n assms(1,4) show ?thesis
    by (cases rn) (auto simp: rrs_Send_def)
qed

text \<open>A message reaches at most one provider: whatever that one does is all that is seen of \<^verbatim>\<open>Send\<close>.\<close>

lemma loop_effect:
  assumes ps: "providers s \<noteq> []" "length (providers s) < 2 ^ 64" and st: "rrs_state s = store"
    and P: "\<And>p w. p \<in> set (providers s) \<Longrightarrow> P (sees w) (sees (snd (Send p c e w)))"
  shows "send_loop s c e start offs w = (r, w') \<Longrightarrow> r \<noteq> None \<and> sees w' = sees w \<or> P (sees w) (sees w')"
proof (induction offs arbitrary: w)
  case (Cons k offs)
  let ?p = "providers s ! unat ((start + of_nat k) mod of_nat (length (providers s)))"
  have mem: "?p \<in> set (providers s)" using ps index_in_range by simp
  obtain ra w1 where a: "store_acquire store (Name ?p) w = (ra, w1)" by fastforce
  have w1: "sees w1 = sees w" using acquire_sees [of "Name ?p" w] a by simp
  show ?case
  proof (cases ra)
    case (Inl err)
    with a Cons.prems w1 st show ?thesis by (auto simp: Let_def)
  next
    case (Inr x)
    obtain g al s1 ch where x: "x = (g, al, s1, ch)" by (cases x)
    obtain se w2 where sd: "Send ?p c e w1 = (se, w2)" by fastforce
    obtain rc w3 where c: "store_complete store (Name ?p) g (se = None) w2 = (rc, w3)" by fastforce
    have "sees w3 = sees w2" using complete_sees [of "Name ?p" g "se = None" w2] c by simp
    moreover have "P (sees w1) (sees w2)" using P [OF mem, of w1] sd by simp
    ultimately show ?thesis
      using Cons.prems a st Inr x sd c w1 Cons.IH [of w1]
      by (cases al) (auto simp: Let_def split: sum.splits error.splits option.splits)
  qed
qed auto

lemma send_effect:
  assumes "rrs_Send s c e w = (r, w')" "providers s \<noteq> []" "length (providers s) < 2 ^ 64" "rrs_state s = store"
    "\<And>p w. p \<in> set (providers s) \<Longrightarrow> P (sees w) (sees (snd (Send p c e w)))"
  shows "r \<noteq> None \<and> sees w' = sees w \<or> P (sees w) (sees w')"
proof -
  obtain rn w1 where n: "store_next store w = (rn, w1)" by fastforce
  have "sees w1 = sees w" using next_sees [of w] n by simp
  with loop_effect [OF assms(2-4), of P c e _ _ w1 r w'] n assms(1,4,5) show ?thesis
    by (cases rn) (auto simp: rrs_Send_def)
qed

end

interpretation memory: provider_state_store "memory_store now" "\<lambda>(s, k, v). v" for now
  by unfold_locales (auto simp: memory_store_def mps_next_def mps_acquire_def mps_complete_def Let_def
      split: prod.splits option.splits)

text \<open>The Redis store keeps whatever the client keeps.\<close>

lemma redis_store_sees:
  assumes ok: "redis_client_ok eval red frame"
  shows "provider_state_store (redis_store eval S) frame"
proof
  have f: "frame w' = frame w" if "eval f w = (r, w')" for f w r w'
    using client_run [OF ok that] by metis
  fix w p suc and g :: "64 word"
  show "frame (snd (store_next (redis_store eval S) w)) = frame w"
    by (auto simp: redis_store_def rp_next_def dest: f split: prod.splits sum.splits reply.splits)
  obtain r w' where a: "eval (redisCircuitAcquireScript (circuitKey S p) (Milliseconds (rp_cooldown S))
      (Milliseconds (rp_halfOpenLease S))) w = (r, w')" by fastforce
  then have "snd (rp_acquire eval S p w) = w'"
    by (auto simp: rp_acquire_def split: sum.split reply.split list.split)
  then show "frame (snd (store_acquire (redis_store eval S) p w)) = frame w"
    using f [OF a] by (simp add: redis_store_def)
  obtain r w' where c: "eval (redisCircuitCompleteScript (circuitKey S p) (uint g) (if suc then 1 else 0)
      (rp_failureThreshold S)) w = (r, w')" by fastforce
  then have "snd (rp_complete eval S p g suc w) = w'"
    by (auto simp: rp_complete_def split: sum.split reply.split list.split)
  then show "frame (snd (store_complete (redis_store eval S) p g suc w)) = frame w"
    using f [OF c] by (simp add: redis_store_def)
qed

text \<open>A client that reaches the server at once and shares the world with other components.\<close>

definition local_client :: "(redis_state \<times> 'v) redis_client" where
  "local_client f w = (case w of (r, v) \<Rightarrow> case f r of (x, r') \<Rightarrow> (x, (r', v)))"

lemma local_client_ok: "redis_client_ok local_client fst snd"
  by (force simp: redis_client_ok_def local_client_def Let_def split: prod.splits)

interpretation redis: provider_state_store "redis_store local_client S" snd for S
  by (rule redis_store_sees [OF local_client_ok])

section \<open>Even distribution\<close>

fun send_all :: "'w RoundRobinSender \<Rightarrow> (ctx \<times> DeliveryEvent) list \<Rightarrow> 'w \<Rightarrow> 'w" where
  "send_all s [] w = w"
| "send_all s ((c, e) # es) w = send_all s es (snd (rrs_Send s c e w))"

text \<open>
  A store that is ready hands out the next index and admits every provider of the pool; a
  successful result keeps it ready.
\<close>

locale ready_store =
  fixes store :: "'w providerStateStore" and names :: "string set" and ready :: "'w \<Rightarrow> bool" and counter :: "'w \<Rightarrow> 64 word"
  assumes next_ready: "ready w \<Longrightarrow> \<exists>w'. store_next store w = (Inr (counter w), w') \<and> ready w' \<and> counter w' = counter w + 1"
    and acquire_ready: "ready w \<Longrightarrow> p \<in> names \<Longrightarrow>
      \<exists>g st ch w'. store_acquire store p w = (Inr (g, True, st, ch), w') \<and> ready w' \<and> counter w' = counter w"
    and complete_ready: "ready w \<Longrightarrow> p \<in> names \<Longrightarrow>
      \<exists>r w'. store_complete store p g True w = (Inr r, w') \<and> ready w' \<and> counter w' = counter w"
begin

text \<open>Providers that succeed, leave the store alone and write their name to a log.\<close>

definition logs :: "'w Provider list \<Rightarrow> ('w \<Rightarrow> string list) \<Rightarrow> bool" where
  "logs ps sent \<longleftrightarrow> (\<forall>p \<in> set ps. Name p \<in> names \<and> (\<forall>c e w. ready w \<longrightarrow> (\<exists>w'. Send p c e w = (None, w')
    \<and> ready w' \<and> counter w' = counter w \<and> sent w' = sent w @ [Name p])))"

definition quiet :: "('w \<Rightarrow> string list) \<Rightarrow> bool" where
  "quiet sent \<longleftrightarrow> (\<forall>w p g ok. sent (snd (store_next store w)) = sent w \<and> sent (snd (store_acquire store p w)) = sent w
    \<and> sent (snd (store_complete store p g ok w)) = sent w)"

lemma send_ready:
  assumes r: "ready w" and s: "rrs_state s = store" "providers s \<noteq> []" "length (providers s) < 2 ^ 64"
    and l: "logs (providers s) sent" "quiet sent"
  shows "\<exists>w'. rrs_Send s c e w = (None, w') \<and> ready w' \<and> counter w' = counter w + 1
    \<and> sent w' = sent w @ [Name (providers s ! (unat (counter w) mod length (providers s)))]"
proof -
  let ?n = "length (providers s)"
  let ?p = "providers s ! (unat (counter w) mod ?n)"
  have n: "unat (of_nat ?n :: 64 word) = ?n" using s(3) by (simp add: unsigned_of_nat take_bit_eq_mod)
  have idx: "unat ((counter w + of_nat 0) mod of_nat ?n) = unat (counter w) mod ?n" by (simp add: unat_mod n)
  have mem: "?p \<in> set (providers s)" using s(2) by simp
  then have nm: "Name ?p \<in> names" using l(1) by (simp add: logs_def)
  obtain w1 where w1: "store_next store w = (Inr (counter w), w1)" "ready w1" "counter w1 = counter w + 1"
    using next_ready [OF r] by blast
  obtain g st ch w2 where w2: "store_acquire store (Name ?p) w1 = (Inr (g, True, st, ch), w2)" "ready w2" "counter w2 = counter w1"
    using acquire_ready [OF w1(2) nm] by blast
  obtain w3 where w3: "Send ?p c e w2 = (None, w3)" "ready w3" "counter w3 = counter w2" "sent w3 = sent w2 @ [Name ?p]"
    using l(1) mem w2(2) unfolding logs_def by blast
  obtain x w4 where w4: "store_complete store (Name ?p) g True w3 = (Inr x, w4)" "ready w4" "counter w4 = counter w3"
    using complete_ready [OF w3(2) nm] by blast
  have "sent w1 = sent w" "sent w2 = sent w1" "sent w4 = sent w3"
    using l(2) w1(1) w2(1) w4(1) unfolding quiet_def by (metis snd_conv)+
  moreover have "[0..<?n] = 0 # [1..<?n]" using s(2) by (simp add: upt_conv_Cons)
  then have "rrs_Send s c e w = (None, w4)"
    using w1(1) w2(1) w3(1) w4(1) s(1) by (simp add: rrs_Send_def Let_def idx [simplified])
  ultimately show ?thesis using w1 w2 w3 w4 by auto
qed

lemma send_all_ready:
  assumes "rrs_state s = store" "providers s \<noteq> []" "length (providers s) < 2 ^ 64"
    "logs (providers s) sent" "quiet sent"
  shows "ready w \<Longrightarrow> unat (counter w) + length es < 2 ^ 64 \<Longrightarrow>
    sent (send_all s es w) = sent w @
      map (\<lambda>i. Name (providers s ! ((unat (counter w) + i) mod length (providers s)))) [0..<length es]"
proof (induction es arbitrary: w)
  case (Cons x es)
  obtain c e where x: "x = (c, e)" by fastforce
  obtain w' where w': "rrs_Send s c e w = (None, w')" "ready w'" "counter w' = counter w + 1"
    "sent w' = sent w @ [Name (providers s ! (unat (counter w) mod length (providers s)))]"
    using send_ready [OF Cons.prems(1) assms] by blast
  have u: "unat (counter w') = unat (counter w) + 1"
    using Cons.prems(2) unat_plus_one_less [of "counter w"] w'(3) by simp
  have "[0..<length (x # es)] = 0 # map Suc [0..<length es]" by (simp add: map_Suc_upt upt_conv_Cons del: upt_Suc)
  with Cons.IH [OF w'(2)] Cons.prems(2) u w'(1,4) x show ?case by (simp add: comp_def del: upt_Suc)
qed simp

end

text \<open>In any run of \<open>m * n\<close> consecutive indices every residue comes up \<open>m\<close> times.\<close>

lemma residue_window:
  fixes n :: nat
  assumes j: "j < n"
  shows "length (filter (\<lambda>i. i mod n = j) [c..<c + n]) = 1"
proof (induction c)
  case 0
  have "filter (\<lambda>i. i mod n = j) [0..<n] = filter (\<lambda>i. i = j) [0..<n]" by (rule filter_cong) auto
  also have "length \<dots> = 1" using j by (simp add: length_filter_conv_card card_1_singleton_iff) (auto intro!: exI [of _ j])
  finally show ?case by simp
next
  case (Suc c)
  have "[c..<c + n] = c # [Suc c..<c + n]" "[Suc c..<Suc c + n] = [Suc c..<c + n] @ [c + n]"
    using j by (simp_all add: upt_conv_Cons)
  with Suc show ?case by (simp split: if_splits)
qed

lemma residue_count:
  fixes n :: nat
  assumes "j < n"
  shows "length (filter (\<lambda>i. (c + i) mod n = j) [0..<m * n]) = m"
proof (induction m)
  case (Suc m)
  have "[0..<Suc m * n] = [0..<m * n] @ map (\<lambda>i. i + m * n) [0..<n]"
    using upt_add_eq_append [of 0 "m * n" n] by (simp add: map_add_upt add.commute)
  moreover have "filter (\<lambda>i. (c + (i + m * n)) mod n = j) [0..<n] = filter (\<lambda>i. (i + c) mod n = j) [0..<n]"
    by (rule filter_cong) (simp_all add: ac_simps mod_mult_self1 flip: add.assoc)
  moreover have "length (filter (\<lambda>i. (i + c) mod n = j) [0..<n]) = 1"
    using residue_window [OF assms, of c] unfolding add.commute [of c n] map_add_upt [symmetric]
    by (simp add: filter_map comp_def)
  ultimately show ?case using Suc by (simp add: filter_map comp_def)
qed simp

section \<open>The in-process store is such a store\<close>

definition closed_pool :: "string set \<Rightarrow> memoryProviderState \<times> 'k \<times> 'v \<Rightarrow> bool" where
  "closed_pool names w \<longleftrightarrow> (\<forall>p \<in> names. \<exists>b. breakers (fst w) p = Some b \<and> state b = stateClosed)"

lemma cb_complete_success_closed:
  "state b = stateClosed \<Longrightarrow> state (snd (cb_complete b g True t)) = stateClosed"
  by (simp add: cb_complete_def)

interpretation ready: ready_store "memory_store now" names "closed_pool names" "\<lambda>w. nextIndex (fst w)" for now names
proof
  fix w :: "memoryProviderState \<times> 'a \<times> 'b" and p and g :: "64 word"
  obtain s k v where w: "w = (s, k, v)" by (cases w)
  obtain t k' where t: "now k = (t, k')" by fastforce
  assume r: "closed_pool names w"
  then show "\<exists>w'. store_next (memory_store now) w = (Inr (nextIndex (fst w)), w') \<and> closed_pool names w'
      \<and> nextIndex (fst w') = nextIndex (fst w) + 1"
    by (simp add: memory_store_def mps_next_def w closed_pool_def Let_def)
  assume "p \<in> names"
  with r obtain b where b: "breakers s p = Some b" "state b = stateClosed" by (auto simp: closed_pool_def w)
  show "\<exists>g st ch w'. store_acquire (memory_store now) p w = (Inr (g, True, st, ch), w') \<and> closed_pool names w'
      \<and> nextIndex (fst w') = nextIndex (fst w)"
    using r b by (auto simp: memory_store_def mps_acquire_def w t cb_acquire_closed closed_pool_def)
  obtain x b' where c: "cb_complete b g True t = (x, b')" by fastforce
  then have "state b' = stateClosed" using cb_complete_success_closed [OF b(2), of g t] by simp
  then show "\<exists>r w'. store_complete (memory_store now) p g True w = (Inr r, w') \<and> closed_pool names w'
      \<and> nextIndex (fst w') = nextIndex (fst w)"
    using r b c by (auto simp: memory_store_def mps_complete_def w t closed_pool_def)
qed

section \<open>The pool's invariant\<close>

text \<open>Every provider has a breaker and every breaker is well-formed.\<close>

definition pool_ok :: "'w Provider list \<Rightarrow> memoryProviderState \<Rightarrow> bool" where
  "pool_ok ps s \<longleftrightarrow> (\<forall>p \<in> set ps. breakers s (Name p) \<noteq> None) \<and> (\<forall>b \<in> ran (breakers s). cb_wf b)"

lemma cb_acquire_keeps_wf: "cb_wf b \<Longrightarrow> cb_wf (snd (cb_acquire b t))"
  by (auto simp: cb_acquire_wf cb_wf_def split: circuitState.splits)

lemma cb_complete_keeps_wf: "cb_wf b \<Longrightarrow> cb_wf (snd (cb_complete b g ok t))"
  using mem_com_cases [of b g ok t] by (auto simp: mem_com_def cb_wf_def split: circuitState.splits if_splits)

lemma pool_ok_upd: "pool_ok ps s \<Longrightarrow> cb_wf b \<Longrightarrow> pool_ok ps (s\<lparr>breakers := (breakers s)(n \<mapsto> b)\<rparr>)"
  by (auto simp: pool_ok_def ran_def)

lemma pool_ok_new:
  assumes "1 \<le> th" "th < 2 ^ 63"
  shows "pool_ok ps (newMemoryProviderState ps th cd)"
proof -
  have "foldl (\<lambda>m p. m(Name p \<mapsto> newCircuitBreaker th cd)) m0 ps
      = m0 ++ (\<lambda>n. if n \<in> Name ` set ps then Some (newCircuitBreaker th cd) else None)" for m0
    by (induction ps arbitrary: m0) (auto simp: fun_eq_iff map_add_def split: option.splits)
  then show ?thesis using cb_wf_new [OF assms]
    by (auto simp: pool_ok_def newMemoryProviderState_def ran_def)
qed

lemma mps_acquire_ok:
  assumes "pool_ok ps (fst w)" "p \<in> set ps" "mps_acquire now (Name p) w = (r, w')"
  shows "pool_ok ps (fst w') \<and> (\<exists>x. r = Inr x)"
proof -
  obtain s k v where w: "w = (s, k, v)" by (cases w)
  obtain t k' where t: "now k = (t, k')" by fastforce
  obtain b where b: "breakers s (Name p) = Some b" "cb_wf b" using assms(1,2) by (auto simp: pool_ok_def w ran_def)
  show ?thesis using assms b t w pool_ok_upd cb_acquire_keeps_wf [OF b(2), of t]
    by (auto simp: mps_acquire_def split: prod.splits)
qed

lemma mps_complete_ok:
  assumes "pool_ok ps (fst w)" "p \<in> set ps" "mps_complete now (Name p) g ok w = (r, w')"
  shows "pool_ok ps (fst w') \<and> (\<exists>x. r = Inr x)"
proof -
  obtain s k v where w: "w = (s, k, v)" by (cases w)
  obtain t k' where t: "now k = (t, k')" by fastforce
  obtain b where b: "breakers s (Name p) = Some b" "cb_wf b" using assms(1,2) by (auto simp: pool_ok_def w ran_def)
  show ?thesis using assms b t w pool_ok_upd cb_complete_keeps_wf [OF b(2), of g ok t]
    by (auto simp: mps_complete_def split: prod.splits)
qed

definition keeps_pool :: "(memoryProviderState \<times> 'k \<times> 'v) Provider list \<Rightarrow> bool" where
  "keeps_pool ps \<longleftrightarrow> (\<forall>p \<in> set ps. \<forall>c e w. pool_ok ps (fst w) \<longrightarrow> pool_ok ps (fst (snd (Send p c e w))))"

lemma loop_no_panic:
  assumes s: "rrs_state s = memory_store now" "providers s \<noteq> []" "length (providers s) < 2 ^ 64"
    and k: "keeps_pool (providers s)"
  shows "pool_ok (providers s) (fst w) \<Longrightarrow> send_loop s c e start offs w = (r, w') \<Longrightarrow>
    pool_ok (providers s) (fst w') \<and> (\<forall>x. r \<noteq> Some (Panicked x))"
proof (induction offs arbitrary: w)
  case (Cons i offs)
  let ?p = "providers s ! unat ((start + of_nat i) mod of_nat (length (providers s)))"
  have mem: "?p \<in> set (providers s)" using s memory.index_in_range by simp
  obtain ra w1 where a: "mps_acquire now (Name ?p) w = (ra, w1)" by (metis surj_pair)
  obtain g al st ch where ok1: "pool_ok (providers s) (fst w1)" "ra = Inr (g, al, st, ch)"
    using mps_acquire_ok [OF Cons.prems(1) mem a] by (metis prod_cases4)
  obtain se w2 where sd: "Send ?p c e w1 = (se, w2)" by (metis surj_pair)
  have ok2: "pool_ok (providers s) (fst w2)" using k mem ok1(1) sd unfolding keeps_pool_def by (metis snd_conv)
  obtain rc w3 where c: "mps_complete now (Name ?p) g (se = None) w2 = (rc, w3)" by (metis surj_pair)
  obtain x where ok3: "pool_ok (providers s) (fst w3)" "rc = Inr x" using mps_complete_ok [OF ok2 mem c] by blast
  show ?case
  proof (cases al)
    case False
    with Cons a ok1 s(1) show ?thesis by (simp add: Let_def memory_store_def)
  next
    case True
    with Cons.prems(2) a ok1(2) s(1) sd c ok3 show ?thesis
      by (auto simp: Let_def memory_store_def split: option.splits)
  qed
qed auto

section \<open>Properties\<close>

lemma validatePool_Inr:
  "validatePool ps th cd = Inr qs \<longleftrightarrow> ps = map Some qs \<and> qs \<noteq> [] \<and> 1 \<le> th \<and> 0 < cd
    \<and> (\<forall>p \<in> set qs. Name p \<noteq> []) \<and> distinct (map Name qs)"
  by (auto simp: validatePool_def validate_loop_iff)

text \<open>
  C36: at most one provider per message. With the Redis store, whatever the client and the other
  workers do, one \<^verbatim>\<open>Send\<close> of a pool that was constructed successfully calls at most one provider;
  exactly one if it reports success, none if it reports that all are unavailable.
\<close>

theorem redis_pool_one_attempt:
  assumes "redis_client_ok eval red frame"
    "NewRedisRoundRobinSender eval parse ping url poolName ps th cd lease = Inr s" "length ps < 2 ^ 64"
    "\<forall>p \<in> set (providers s). \<forall>c e w. calls (frame (snd (Send p c e w))) = calls (frame w) + (1 :: nat)"
    "rrs_Send s c e w = (r, w')"
  shows "calls (frame w') \<le> calls (frame w) + 1 \<and> (r = None \<longrightarrow> calls (frame w') = calls (frame w) + 1)
    \<and> (r = Some ErrAllProvidersUnavailable \<longrightarrow> calls (frame w') = calls (frame w))"
proof -
  from assms(2) obtain qs S where s: "validatePool ps th cd = Inr qs" "s = newRoundRobinSender qs (redis_store eval S)"
    by (auto simp: NewRedisRoundRobinSender_def split: sum.splits)
  have store: "provider_state_store (redis_store eval S) frame" by (rule redis_store_sees [OF assms(1)])
  have "provider_state_store.counts frame (providers s) calls"
    unfolding provider_state_store.counts_def [OF store] using assms(4) by simp
  moreover have "providers s \<noteq> []" "length (providers s) < 2 ^ 64" "rrs_state s = redis_store eval S"
    using s assms(3) by (auto simp: newRoundRobinSender_def validatePool_Inr)
  ultimately show ?thesis using provider_state_store.send_once [OF store assms(5)] by blast
qed

definition counting_provider :: "string \<Rightarrow> ('r \<times> nat) Provider" where
  "counting_provider n = \<lparr>Name = n, Send = \<lambda>c e w. (None, (fst w, snd w + 1))\<rparr>"

theorem redis_pool_one_attempt_witness:
  "\<exists>s. NewRedisRoundRobinSender local_client (\<lambda>_. Inr ()) (\<lambda>_. None) ''redis://r'' ''global''
      [Some (counting_provider ''a''), Some (counting_provider ''b'')] 3 30000000000 40000000000 = Inr s
    \<and> snd (snd (rrs_Send s None zero_event (\<lparr>keys = Map.empty, clock_us = 0\<rparr>, 7))) \<le> 8"
proof -
  let ?ps = "[Some (counting_provider ''a''), Some (counting_provider ''b'')]"
  obtain s where s: "NewRedisRoundRobinSender local_client (\<lambda>_. Inr ()) (\<lambda>_. None) ''redis://r'' ''global''
      ?ps 3 30000000000 40000000000 = Inr s" "providers s = [counting_provider ''a'', counting_provider ''b'']"
    by (simp add: NewRedisRoundRobinSender_def validatePool_def counting_provider_def newRedisProviderState_def
        newRoundRobinSender_def)
  obtain r w' where r: "rrs_Send s None zero_event (\<lparr>keys = Map.empty, clock_us = 0\<rparr>, 7) = (r, w')" by (metis surj_pair)
  from redis_pool_one_attempt [OF local_client_ok s(1) _ _ r, of "\<lambda>n. n"] s r show ?thesis
    by (auto simp: counting_provider_def)
qed

text \<open>
  Traffic is spread evenly. With the in-process store, if the providers succeed, any number
  \<open>j\<close> of rounds over the pool gives every provider exactly \<open>j\<close> messages.
\<close>

theorem round_robin_even:
  assumes "NewRoundRobinSender now ps th cd = Inr (s, m0)" "length ps < 2 ^ 64"
    "\<forall>p \<in> set (providers s). \<forall>c e m k v. \<exists>k'. Send p c e (m, k, v) = (None, (m, k', v @ [Name p]))"
    "length es = j * length ps" "length es < 2 ^ 64" "p \<in> set (providers s)"
  shows "count_list (snd (snd (send_all s es (m0, k, [])))) (Name p) = j"
proof -
  from assms(1) obtain qs where q: "ps = map Some qs" "qs \<noteq> []" "distinct (map Name qs)"
    and s: "s = newRoundRobinSender qs (memory_store now)" "m0 = newMemoryProviderState qs th cd"
    by (auto simp: NewRoundRobinSender_def validatePool_Inr split: sum.splits)
  have pr: "providers s = qs" "rrs_state s = memory_store now" by (simp_all add: s newRoundRobinSender_def)
  let ?names = "Name ` set qs" and ?n = "length qs" and ?sent = "\<lambda>w :: memoryProviderState \<times> _ \<times> _. snd (snd w)"
  have "breakers m0 x = (if x \<in> ?names then Some (newCircuitBreaker th cd) else None)" for x
  proof -
    have "foldl (\<lambda>m p. m(Name p \<mapsto> newCircuitBreaker th cd)) m1 qs x
        = (if x \<in> ?names then Some (newCircuitBreaker th cd) else m1 x)" for m1
      by (induction qs arbitrary: m1) auto
    then show ?thesis by (simp add: s newMemoryProviderState_def)
  qed
  then have rdy: "closed_pool ?names (m0, k, [])" by (simp add: closed_pool_def newCircuitBreaker_def)
  have logs: "ready.logs ?names (providers s) ?sent"
    unfolding ready.logs_def using assms(3) pr by (fastforce simp: closed_pool_def)
  have quiet: "ready.quiet now ?sent"
    unfolding ready.quiet_def using memory.next_sees memory.acquire_sees memory.complete_sees
    by (metis (mono_tags, lifting) case_prod_beta)
  have c0: "nextIndex m0 = 0" by (simp add: s newMemoryProviderState_def)
  have l: "providers s \<noteq> []" "length (providers s) < 2 ^ 64" using q assms(2) pr by auto
  have "?sent (send_all s es (m0, k, [])) = map (\<lambda>i. Name (qs ! (i mod ?n))) [0..<j * ?n]"
    using ready.send_all_ready [OF pr(2) l logs quiet rdy, of es] assms(4,5) pr(1) q(1) c0 by simp
  moreover obtain i where i: "i < ?n" "p = qs ! i" using assms(6) pr by (auto simp: in_set_conv_nth)
  moreover have "Name (qs ! i) = Name (qs ! (x mod ?n)) \<longleftrightarrow> (0 + x) mod ?n = i" for x
    using q(2,3) i(1) nth_eq_iff_index_eq [of "map Name qs" i "x mod ?n"] by auto
  then have "count_list (map (\<lambda>x. Name (qs ! (x mod ?n))) [0..<j * ?n]) (Name (qs ! i)) = j"
    unfolding count_list_eq_length_filter filter_map length_map comp_def
    using residue_count [OF i(1), of 0 j] by (simp only:)
  ultimately show ?thesis by (simp only:)
qed

definition logging_provider :: "string \<Rightarrow> (memoryProviderState \<times> time \<times> string list) Provider" where
  "logging_provider n = \<lparr>Name = n, Send = \<lambda>c e w. case w of (m, k, v) \<Rightarrow> (None, (m, k, v @ [n]))\<rparr>"

theorem round_robin_even_witness:
  "\<exists>s m0. NewRoundRobinSender (\<lambda>t. (t, t + 1)) [Some (logging_provider ''a''), Some (logging_provider ''b'')] 3 10 = Inr (s, m0)
    \<and> count_list (snd (snd (send_all s (replicate 6 (None, zero_event)) (m0, 0, [])))) ''b'' = 3"
proof -
  let ?ps = "[logging_provider ''a'', logging_provider ''b'']"
  obtain s m0 where s: "NewRoundRobinSender (\<lambda>t. (t, t + 1)) (map Some ?ps) 3 10 = Inr (s, m0)" "providers s = ?ps"
    by (simp add: NewRoundRobinSender_def validatePool_def logging_provider_def newRoundRobinSender_def)
  have "count_list (snd (snd (send_all s (replicate 6 (None, zero_event)) (m0, 0, [])))) (Name (logging_provider ''b'')) = 3"
    by (rule round_robin_even [OF s(1)]) (simp_all add: s(2), auto simp: logging_provider_def)
  with s(1) show ?thesis by (simp add: logging_provider_def)
qed

text \<open>
  The in-process pool is safe. For a pool that was constructed, every breaker exists and is
  well-formed at the start and after every \<^verbatim>\<open>Send\<close>, whatever the clock and the providers do
  (they may even send themselves), and no \<^verbatim>\<open>Send\<close> dereferences a missing breaker.
\<close>

theorem memory_pool_safe:
  assumes "NewRoundRobinSender now ps th cd = Inr (s, m0)" "length ps < 2 ^ 64" "th < 2 ^ 63"
    "\<forall>p \<in> set (providers s). \<forall>c e w. pool_ok (providers s) (fst w) \<longrightarrow> pool_ok (providers s) (fst (snd (Send p c e w)))"
    "pool_ok (providers s) (fst w)" "rrs_Send s c e w = (r, w')"
  shows "pool_ok (providers s) m0 \<and> pool_ok (providers s) (fst w') \<and> (\<forall>x. r \<noteq> Some (Panicked x))"
proof -
  from assms(1) obtain qs where q: "ps = map Some qs" "qs \<noteq> []" "1 \<le> th"
    and s: "s = newRoundRobinSender qs (memory_store now)" "m0 = newMemoryProviderState qs th cd"
    by (auto simp: NewRoundRobinSender_def validatePool_Inr split: sum.splits)
  have pr: "providers s = qs" "rrs_state s = memory_store now" by (simp_all add: s newRoundRobinSender_def)
  have l: "providers s \<noteq> []" "length (providers s) < 2 ^ 64" using q assms(2) pr by auto
  obtain m k v where w: "w = (m, k, v)" by (cases w)
  let ?w = "(m\<lparr>nextIndex := nextIndex m + 1\<rparr>, k, v)"
  have "rrs_Send s c e w = send_loop s c e (nextIndex m) [0..<length (providers s)] ?w"
    by (simp add: rrs_Send_def pr memory_store_def mps_next_def w Let_def)
  moreover have "pool_ok (providers s) (fst ?w)" using assms(5) by (simp add: w pool_ok_def)
  moreover have "keeps_pool (providers s)" using assms(4) by (simp add: keeps_pool_def)
  ultimately have "pool_ok (providers s) (fst w') \<and> (\<forall>x. r \<noteq> Some (Panicked x))"
    using loop_no_panic [OF pr(2) l, of ?w c e "nextIndex m" "[0..<length (providers s)]" r w'] assms(6) by simp
  then show ?thesis using pool_ok_new [OF q(3) assms(3)] pr(1) s(2) by simp
qed

theorem memory_pool_safe_witness:
  "\<exists>s m0. NewRoundRobinSender (\<lambda>t. (t, t + 1)) [Some (logging_provider ''a'')] 3 10 = Inr (s, m0)
    \<and> pool_ok (providers s) (fst (snd (rrs_Send s None zero_event (m0, 0, []))))"
proof -
  obtain s m0 where s: "NewRoundRobinSender (\<lambda>t. (t, t + 1)) [Some (logging_provider ''a'')] 3 10 = Inr (s, m0)"
    "providers s = [logging_provider ''a'']" "m0 = newMemoryProviderState [logging_provider ''a''] 3 10"
    by (simp add: NewRoundRobinSender_def validatePool_def logging_provider_def newRoundRobinSender_def)
  have m0: "pool_ok (providers s) (fst (m0, 0 :: time, [] :: string list))" by (simp add: s pool_ok_new)
  obtain r w' where r: "rrs_Send s None zero_event (m0, 0, []) = (r, w')" by (metis surj_pair)
  have "\<forall>p \<in> set (providers s). \<forall>c e w. pool_ok (providers s) (fst w) \<longrightarrow> pool_ok (providers s) (fst (snd (Send p c e w)))"
    by (auto simp: s(2) logging_provider_def split: prod.splits)
  from memory_pool_safe [OF s(1) _ _ this m0 r] s(1) r show ?thesis by auto
qed

text \<open>
  The validation of a pool accepts exactly the non-empty lists of providers with distinct,
  non-empty names under a positive threshold and cooldown, and returns them unchanged.
\<close>

theorem validatePool_accepts:
  "validatePool ps th cd = Inr qs \<longleftrightarrow> ps = map Some qs \<and> qs \<noteq> [] \<and> 1 \<le> th \<and> 0 < cd
    \<and> [] \<notin> Name ` set qs \<and> distinct (map Name qs)"
  unfolding validatePool_Inr image_iff by metis

end
