(* ===== verification/Money.thy ===== *)
theory Money
  imports GoFloat GoStrings
begin

text \<open>
  The wallet domain (\<^verbatim>\<open>internal/domain/wallet/entity.go\<close>): money as a count of 1/10000
  units in an \<^verbatim>\<open>int64\<close>, built from and turned into a \<^verbatim>\<open>float64\<close>, and the wallet
  entity with its operations. The results: an amount below \<open>10^11\<close> (what the
  \<^verbatim>\<open>DECIMAL(15,4)\<close> columns hold) survives the conversion to \<^verbatim>\<open>float64\<close> and back;
  a checked debit is exact and never goes below zero; and the upper limit of
  \<^verbatim>\<open>NewMoney\<close> admits one amount that overflows.
\<close>

section \<open>Money\<close>

record Money =
  units :: int

definition scale :: int where
  "scale = 10000"

definition max_amount :: float64 where
  "max_amount = fdiv_pos (float64_of_int (2 ^ 63 - 1)) (of_int scale)"

definition NewMoney :: "float64 \<Rightarrow> error + Money" where
  "NewMoney amount =
    (if isNaN amount \<or> isInf amount \<or> flt amount (Fin 0) \<or> flt max_amount amount
     then Inl ErrInvalidAmount
     else Inr \<lparr>units = int64_of_float (math_Round (fmul_pos amount (of_int scale)))\<rparr>)"

definition MustMoney :: "float64 \<Rightarrow> error + Money" where
  "MustMoney amount = (case NewMoney amount of Inl err \<Rightarrow> Inl (Panicked err) | Inr m \<Rightarrow> Inr m)"

definition MoneyFromUnits :: "int \<Rightarrow> error + Money" where
  "MoneyFromUnits u = (if u < 0 then Inl ErrInvalidAmount else Inr \<lparr>units = u\<rparr>)"

definition Float64 :: "Money \<Rightarrow> float64" where
  "Float64 m = fdiv_pos (float64_of_int (units m)) (of_int scale)"

text \<open>\<^verbatim>\<open>fmt.Sprintf("%.4f", f)\<close> rounds the exact binary value to four decimals.\<close>

definition pad4 :: "nat \<Rightarrow> string" where
  "pad4 n = [digit (n div 1000 mod 10), digit (n div 100 mod 10), digit (n div 10 mod 10), digit (n mod 10)]"

fun sprintf_4f :: "float64 \<Rightarrow> string" where
  "sprintf_4f NaN = ''NaN''"
| "sprintf_4f PInf = ''+Inf''"
| "sprintf_4f NInf = ''-Inf''"
| "sprintf_4f (Fin x) = (let n = nat (rhe (\<bar>x\<bar> * 10000)) in
     (if x < 0 then ''-'' else '''') @ show_nat (n div 10000) @ ''.'' @ pad4 (n mod 10000))"

definition Money_String :: "Money \<Rightarrow> string" where
  "Money_String m = sprintf_4f (Float64 m)"

definition IsPositive :: "Money \<Rightarrow> bool" where
  "IsPositive m \<longleftrightarrow> 0 < units m"

definition Equals :: "Money \<Rightarrow> Money \<Rightarrow> bool" where
  "Equals m other \<longleftrightarrow> units m = units other"

definition GreaterThan :: "Money \<Rightarrow> Money \<Rightarrow> bool" where
  "GreaterThan m other \<longleftrightarrow> units other < units m"

definition Subtract :: "Money \<Rightarrow> Money \<Rightarrow> Money \<times> error option" where
  "Subtract m other =
    (if units m < units other then (\<lparr>units = 0\<rparr>, Some ErrInsufficientFunds)
     else (\<lparr>units = wrap64 (units m - units other)\<rparr>, None))"

definition Add :: "Money \<Rightarrow> Money \<Rightarrow> Money" where
  "Add m other = \<lparr>units = wrap64 (units m + units other)\<rparr>"

section \<open>Wallets and ledger entries\<close>

datatype TransactionType = TransactionTypeCredit | TransactionTypeDebit

fun TransactionType_string :: "TransactionType \<Rightarrow> string" where
  "TransactionType_string TransactionTypeCredit = ''credit''"
| "TransactionType_string TransactionTypeDebit = ''debit''"

record Wallet =
  ID :: int
  Balance :: Money
  CreatedAt :: time
  UpdatedAt :: time

definition CanAfford :: "Wallet \<Rightarrow> Money \<Rightarrow> bool" where
  "CanAfford w cost \<longleftrightarrow> GreaterThan (Balance w) cost \<or> Equals (Balance w) cost"

definition Deduct :: "Wallet \<Rightarrow> Money \<Rightarrow> Wallet" where
  "Deduct w amount = w\<lparr>Balance := fst (Subtract (Balance w) amount)\<rparr>"

definition Credit :: "Wallet \<Rightarrow> Money \<Rightarrow> Wallet" where
  "Credit w amount = w\<lparr>Balance := Add (Balance w) amount\<rparr>"

text \<open>An amount the database columns can hold: \<^verbatim>\<open>DECIMAL(15,4)\<close>, not negative.\<close>

definition db_money :: "Money \<Rightarrow> bool" where
  "db_money m \<longleftrightarrow> 0 \<le> units m \<and> units m < 10 ^ 15"

section \<open>Conversion to and from floats\<close>

lemma max_amount_eq: "max_amount = Fin (7378697629483821 / 8)"
proof -
  have "fround (of_int (2 ^ 63 - 1)) = of_int (2 ^ 53) * pow2 (62 - 52)"
    by (rule fround_at) (simp_all add: pow2_def)
  then have a: "fround (of_int (2 ^ 63 - 1)) = 2 ^ 63" by (simp add: pow2_def)
  have "fround (2 ^ 63 / 10000) = of_int 7378697629483821 * pow2 (49 - 52)"
    by (rule fround_at) (simp_all add: pow2_def)
  then have b: "fround (2 ^ 63 / 10000) = 7378697629483821 / 8" by (simp add: pow2_def)
  have "float64_of_int (2 ^ 63 - 1) = Fin (2 ^ 63)"
    unfolding float64_of_int_def a [symmetric] by (rule fl_Fin) (simp only: a, simp add: pow2_def)
  moreover have "fl (2 ^ 63 / 10000) = Fin (7378697629483821 / 8)"
    unfolding b [symmetric] by (rule fl_Fin) (simp only: b, simp add: pow2_def)
  ultimately show ?thesis by (simp only: max_amount_def scale_def fdiv_pos.simps of_int_numeral)
qed

lemma Float64_eq:
  assumes "0 \<le> u" "u < 10 ^ 15"
  shows "Float64 \<lparr>units = u\<rparr> = Fin (fround (of_int u / 10000))"
proof -
  have "\<bar>u\<bar> < 2 ^ 53" using assms by simp
  then have "fround (of_int u) = of_int u" by (rule fround_int)
  moreover have "\<bar>of_int u\<bar> < pow2 1024"
  proof -
    have "(of_int u :: rat) < of_int (10 ^ 15)" using assms(2) by (simp only: of_int_less_iff)
    also have "\<dots> \<le> 2 ^ 1024" by simp
    finally show ?thesis using assms(1) by (simp add: pow2_def)
  qed
  ultimately have f: "float64_of_int u = Fin (of_int u)"
    by (simp add: float64_of_int_def fl_Fin)
  have "\<bar>fround (of_int u / 10000)\<bar> < pow2 1024"
  proof (cases "u = 0")
    case False
    with assms have "fround (of_int u / 10000) \<le> 2 ^ 49" "0 < fround (of_int u / 10000)"
      using fround_scale_error(3,4) [of u] by auto
    moreover have "(2 ^ 49 :: rat) < pow2 1024" by (simp add: pow2_def)
    ultimately show ?thesis by simp
  qed simp
  with f show ?thesis by (simp add: Float64_def scale_def fl_Fin)
qed

lemma round_away_in_int64:
  assumes "\<bar>y\<bar> \<le> 2 ^ 49 * 12000"
  shows "in_int64 (round_away y)"
proof -
  have "\<bar>of_int (round_away y) - y\<bar> \<le> 1" by (simp add: round_away_def) linarith
  moreover have "(2 ^ 49 * 12000 + 1 :: rat) < 2 ^ 63" by simp
  ultimately have "of_int (round_away y) < (2 ^ 63 :: rat)" "- (2 ^ 63 :: rat) < of_int (round_away y)"
    using assms by (simp_all only: abs_le_iff) linarith+
  then have "(of_int (round_away y) :: rat) < of_int (2 ^ 63)"
    and "(of_int (- (2 ^ 63)) :: rat) < of_int (round_away y)" by simp_all
  then have "round_away y < 2 ^ 63" "- (2 ^ 63) < round_away y" by (simp_all only: of_int_less_iff)
  then show ?thesis by (simp add: in_int64_def)
qed

lemma NewMoney_Fin:
  assumes "0 \<le> d" "d \<le> 2 ^ 49" "pow2 (- 1022) \<le> d * 10000 \<or> d = 0"
  shows "NewMoney (Fin d) = Inr \<lparr>units = round_away (fround (d * 10000))\<rparr>"
proof -
  have b: "\<bar>fround (d * 10000)\<bar> \<le> 2 ^ 49 * 12000"
  proof (cases "d = 0")
    case False
    with assms have "\<bar>fround (d * 10000) - d * 10000\<bar> \<le> \<bar>d * 10000\<bar> / 2 ^ 53"
      by (intro fround_error) auto
    moreover have "\<bar>d * 10000\<bar> = d * 10000" using assms by simp
    ultimately have "\<bar>fround (d * 10000)\<bar> \<le> d * 10000 + d * 10000 / 2 ^ 53" by linarith
    also have "\<dots> \<le> 2 ^ 49 * 12000" using assms by simp
    finally show ?thesis .
  qed simp
  have "fl (d * 10000) = Fin (fround (d * 10000))"
  proof (rule fl_Fin)
    have "(2 ^ 49 * 12000 :: rat) < pow2 1024" by (simp add: pow2_def)
    with b show "\<bar>fround (d * 10000)\<bar> < pow2 1024" by linarith
  qed
  moreover have "in_int64 (round_away (fround (d * 10000)))"
    using b by (rule round_away_in_int64)
  moreover have "\<not> flt max_amount (Fin d)" using assms by (simp add: max_amount_eq)
  ultimately show ?thesis using assms
    by (simp add: NewMoney_def scale_def not_less)
qed

lemma NewMoney_Float64:
  assumes "0 \<le> u" "u < 10 ^ 15"
  shows "NewMoney (Float64 \<lparr>units = u\<rparr>) = Inr \<lparr>units = u\<rparr>"
proof (cases "u = 0")
  case True
  then show ?thesis by (simp add: Float64_eq NewMoney_Fin round_away_unique)
next
  case False
  define d where "d = fround (of_int u / 10000)"
  have u: "0 < u" "u < 10 ^ 15" using assms False by auto
  note e = fround_scale_error [OF u, folded d_def]
  have "NewMoney (Fin d) = Inr \<lparr>units = round_away (fround (d * 10000))\<rparr>"
    using e(2,3,4) by (intro NewMoney_Fin) auto
  moreover have "round_away (fround (d * 10000)) = u"
    using e(1) by (intro round_away_unique) linarith
  ultimately show ?thesis using assms by (simp add: Float64_eq d_def)
qed

lemma db_money_roundtrip [go_simps]:
  "db_money m \<Longrightarrow> NewMoney (Float64 m) = Inr m"
  by (cases m) (simp add: db_money_def NewMoney_Float64)

lemma MustMoney_Float64 [go_simps]:
  "db_money m \<Longrightarrow> MustMoney (Float64 m) = Inr m"
  by (simp add: MustMoney_def db_money_roundtrip)


lemma pad4_eq: "n < 10000 \<Longrightarrow> read_nat (pad4 n) = n \<and> length (pad4 n) = 4"
proof -
  assume "n < 10000"
  then have "n div 1000 mod 10 = n div 10 div 10 div 10" by (simp add: div_mult2_eq [symmetric])
  moreover have "n div 10 div 10 div 10 < 10" using \<open>n < 10000\<close> by (simp add: div_mult2_eq [symmetric])
  moreover have "n div 100 = n div 10 div 10" by (simp add: div_mult2_eq [symmetric])
  ultimately have "read_nat (pad4 n) =
      10 * (10 * (10 * (n div 10 div 10 div 10) + n div 10 div 10 mod 10) + n div 10 mod 10) + n mod 10"
    by (simp add: pad4_def read_nat_def)
  then show ?thesis by (simp only: mult_div_mod_eq) (simp add: pad4_def)
qed

lemma Money_String_eq:
  assumes "0 \<le> u" "u < 10 ^ 15"
  shows "Money_String \<lparr>units = u\<rparr> = show_nat (nat u div 10000) @ ''.'' @ pad4 (nat u mod 10000)"
proof (cases "u = 0")
  case True
  then show ?thesis using rhe_int [of 0] by (simp add: Money_String_def Float64_eq)
next
  case False
  define d where "d = fround (of_int u / 10000)"
  have u: "0 < u" "u < 10 ^ 15" using assms False by auto
  note e = fround_scale_error [OF u, folded d_def]
  have "\<bar>d\<bar> = d" using e(3) by simp
  then have "rhe (\<bar>d\<bar> * 10000) = u" using e(5) by (intro rhe_unique) linarith
  then show ?thesis using e(3) assms
    by (simp add: Money_String_def Float64_eq Let_def flip: d_def)
qed

section \<open>Wallet arithmetic\<close>

lemma Subtract_ok:
  assumes "units c \<le> units m" "0 \<le> units c" "in_int64 (units m)"
  shows "Subtract m c = (\<lparr>units = units m - units c\<rparr>, None)"
proof -
  have "in_int64 (units m - units c)" using assms by (auto simp: in_int64_def)
  with assms show ?thesis by (simp add: Subtract_def)
qed

lemma CanAfford_iff: "CanAfford w c \<longleftrightarrow> units c \<le> units (Balance w)"
  by (auto simp: CanAfford_def GreaterThan_def Equals_def)

lemma db_money_in_int64: "db_money m \<Longrightarrow> in_int64 (units m)"
  by (auto simp: db_money_def in_int64_def)

lemma Deduct_units:
  "CanAfford w c \<Longrightarrow> 0 \<le> units c \<Longrightarrow> db_money (Balance w) \<Longrightarrow>
    Deduct w c = w\<lparr>Balance := \<lparr>units = units (Balance w) - units c\<rparr>\<rparr>"
  by (simp add: Deduct_def CanAfford_iff Subtract_ok db_money_in_int64)

lemma Credit_units:
  assumes "in_int64 (units (Balance w) + units c)"
  shows "Credit w c = w\<lparr>Balance := \<lparr>units = units (Balance w) + units c\<rparr>\<rparr>"
  using assms by (simp add: Credit_def Add_def)

lemma Deduct_db_money:
  "CanAfford w c \<Longrightarrow> 0 \<le> units c \<Longrightarrow> db_money (Balance w) \<Longrightarrow> db_money (Balance (Deduct w c))"
  by (simp add: Deduct_units CanAfford_iff db_money_def)

section \<open>Properties\<close>

text \<open>
  C35: an amount the \<^verbatim>\<open>DECIMAL(15,4)\<close> columns can hold is exactly recovered by
  \<^verbatim>\<open>NewMoney(m.Float64())\<close>: the two roundings to \<^verbatim>\<open>float64\<close> never change the number
  of units. This is what makes \<^verbatim>\<open>toWalletModel\<close> and every balance update exact.
\<close>

theorem money_float_roundtrip:
  assumes "0 \<le> u" "u < 10 ^ 15"
  shows "NewMoney (Float64 \<lparr>units = u\<rparr>) = Inr \<lparr>units = u\<rparr>
    \<and> MustMoney (Float64 \<lparr>units = u\<rparr>) = Inr \<lparr>units = u\<rparr>"
  using assms by (simp_all add: NewMoney_Float64 MustMoney_def)

theorem money_float_roundtrip_witness:
  "(0::int) \<le> 999999999999999 \<and> (999999999999999::int) < 10 ^ 15
    \<and> NewMoney (Float64 \<lparr>units = 999999999999999\<rparr>) = Inr \<lparr>units = 999999999999999\<rparr>"
  using money_float_roundtrip [of 999999999999999] by simp

text \<open>
  \<^verbatim>\<open>Money.String\<close> prints such an amount without error: the whole part, a point and
  exactly four digits that read back as the remaining units.
\<close>

theorem money_string_exact:
  assumes "0 \<le> u" "u < 10 ^ 15"
  shows "\<exists>whole frac. Money_String \<lparr>units = u\<rparr> = whole @ ''.'' @ frac \<and> length frac = 4
    \<and> int (10000 * read_nat whole + read_nat frac) = u"
proof (intro exI conjI)
  show "Money_String \<lparr>units = u\<rparr> = show_nat (nat u div 10000) @ ''.'' @ pad4 (nat u mod 10000)"
    using assms by (rule Money_String_eq)
  have p: "read_nat (pad4 (nat u mod 10000)) = nat u mod 10000" "length (pad4 (nat u mod 10000)) = 4"
    using pad4_eq [of "nat u mod 10000"] by auto
  show "length (pad4 (nat u mod 10000)) = 4" by (rule p)
  have "10000 * (nat u div 10000) + nat u mod 10000 = nat u" by simp
  then show "int (10000 * read_nat (show_nat (nat u div 10000)) + read_nat (pad4 (nat u mod 10000))) = u"
    unfolding p read_show_nat using assms by simp
qed

theorem money_string_exact_witness:
  "\<exists>whole frac. Money_String \<lparr>units = 12345\<rparr> = whole @ ''.'' @ frac \<and> length frac = 4
    \<and> int (10000 * read_nat whole + read_nat frac) = 12345"
  by (rule money_string_exact) simp_all

text \<open>
  C39: the guard of \<^verbatim>\<open>NewMoney\<close> against amounts that do not fit is off by one value:
  the float nearest to \<open>2^63 / 10000\<close> passes \<^verbatim>\<open>amount > limit\<close>, but times ten thousand
  it is \<open>2^63\<close>, which no \<^verbatim>\<open>int64\<close> holds; on amd64 the accepted amount is negative.
\<close>

theorem NewMoney_limit_overflows:
  "\<exists>m. NewMoney max_amount = Inr m \<and> units m < 0 \<and> \<not> IsPositive m"
proof -
  have "fround (7378697629483821 / 8 * 10000) = of_int (2 ^ 52) * pow2 (63 - 52)"
    by (rule fround_at) (simp_all add: pow2_def)
  then have a: "fround (7378697629483821 / 8 * 10000) = 2 ^ 63" by (simp add: pow2_def)
  have "fl (7378697629483821 / 8 * 10000) = Fin (2 ^ 63)"
    unfolding a [symmetric] by (rule fl_Fin) (simp only: a, simp add: pow2_def)
  moreover have "round_away (2 ^ 63) = 2 ^ 63" by (rule round_away_unique) simp
  ultimately have "NewMoney max_amount = Inr \<lparr>units = - (2 ^ 63)\<rparr>"
    by (simp add: NewMoney_def max_amount_eq scale_def in_int64_def)
  then show ?thesis by (simp add: IsPositive_def)
qed

text \<open>
  A debit that was checked with \<^verbatim>\<open>CanAfford\<close> subtracts exactly the amount, never
  leaves a negative balance, and crediting the same amount restores the wallet.
  Without the check \<^verbatim>\<open>Deduct\<close> empties the wallet, since it drops the error of
  \<^verbatim>\<open>Subtract\<close>.
\<close>

theorem wallet_deduct_credit:
  assumes "db_money (Balance w)" "0 \<le> units c"
  shows "if CanAfford w c
    then units (Balance (Deduct w c)) = units (Balance w) - units c
      \<and> db_money (Balance (Deduct w c)) \<and> Credit (Deduct w c) c = w
    else units (Balance (Deduct w c)) = 0"
proof (cases "CanAfford w c")
  case True
  have "in_int64 (units (Balance w))" using assms(1) by (rule db_money_in_int64)
  with True assms show ?thesis
    using Deduct_db_money [OF True assms(2,1)] Deduct_units [OF True assms(2,1)]
    by (simp add: Credit_units)
next
  case False
  then show ?thesis by (simp add: CanAfford_iff Deduct_def Subtract_def)
qed

theorem wallet_deduct_credit_witness:
  "let w = \<lparr>ID = 1, Balance = \<lparr>units = 50000\<rparr>, CreatedAt = 1, UpdatedAt = 1\<rparr>; c = \<lparr>units = 25000\<rparr>
   in CanAfford w c \<and> units (Balance (Deduct w c)) = 25000 \<and> Credit (Deduct w c) c = w"
  using wallet_deduct_credit [of "\<lparr>ID = 1, Balance = \<lparr>units = 50000\<rparr>, CreatedAt = 1, UpdatedAt = 1\<rparr>"
      "\<lparr>units = 25000\<rparr>"]
  by (simp add: db_money_def CanAfford_iff split: if_splits)

end
