(* ===== verification/Models.thy ===== *)
theory Models
  imports Money SmsDomain
begin

text \<open>
  The database rows of \<^verbatim>\<open>internal/infrastructure/persistence/base_model.go\<close> and their conversion to
  domain values. A row type is a record with the columns as fields; the \<^verbatim>\<open>jsonb\<close> payload of an
  outbox row is a JSON tree.
\<close>

section \<open>Rows\<close>

record WalletModel =
  wm_ID :: int
  wm_CreatedAt :: time
  wm_UpdatedAt :: time
  wm_Balance :: float64

record WalletTransactionModel =
  tm_ID :: int
  tm_WalletID :: int
  tm_Amount :: float64
  tm_Type :: string
  tm_Description :: string
  tm_ReferenceID :: string
  tm_CreatedAt :: time

record ChannelModel =
  cm_ID :: int
  cm_CreatedAt :: time
  cm_UpdatedAt :: time
  cm_Name :: string
  cm_WalletID :: int
  cm_IsActive :: bool

record SMSCostModel =
  sm_ID :: int
  sm_CreatedAt :: time
  sm_UpdatedAt :: time
  sm_LineType :: string
  sm_Cost :: float64

record SMSOutboxModel =
  om_ID :: int
  om_MessageID :: string
  om_RoutingKey :: string
  om_Payload :: json
  om_CreatedAt :: time
  om_PublishedAt :: "time option"

record SMSDeliveryModel =
  dm_MessageID :: string
  dm_WalletID :: int
  dm_Destination :: string
  dm_Message :: string
  dm_Line :: string
  dm_ChannelName :: string
  dm_Status :: string
  dm_Attempts :: int
  dm_LastError :: string
  dm_CreatedAt :: time
  dm_UpdatedAt :: time
  dm_DeliveredAt :: "time option"

record WalletTransaction =
  wt_ID :: int
  wt_WalletID :: int
  wt_Amount :: float64
  wt_Type :: string
  wt_Description :: string
  wt_ReferenceID :: string
  wt_CreatedAt :: time

section \<open>Conversions\<close>

text \<open>\<^verbatim>\<open>toWalletModel\<close> panics (through \<^verbatim>\<open>MustMoney\<close>) on a balance that is no amount.\<close>

definition toWalletModel :: "WalletModel \<Rightarrow> error + Wallet" where
  "toWalletModel m = (case MustMoney (wm_Balance m) of Inl err \<Rightarrow> Inl err
    | Inr b \<Rightarrow> Inr \<lparr>ID = wm_ID m, Balance = b, CreatedAt = wm_CreatedAt m, UpdatedAt = wm_UpdatedAt m\<rparr>)"

definition toWalletTransactionModel :: "WalletTransactionModel \<Rightarrow> WalletTransaction" where
  "toWalletTransactionModel m = \<lparr>wt_ID = tm_ID m, wt_WalletID = tm_WalletID m, wt_Amount = tm_Amount m, wt_Type = tm_Type m,
    wt_Description = tm_Description m, wt_ReferenceID = tm_ReferenceID m, wt_CreatedAt = tm_CreatedAt m\<rparr>"

definition toChannelModel :: "ChannelModel \<Rightarrow> Channel" where
  "toChannelModel m = \<lparr>ch_ID = cm_ID m, ch_Name = cm_Name m, ch_WalletID = cm_WalletID m, ch_IsActive = cm_IsActive m,
    ch_CreatedAt = cm_CreatedAt m, ch_UpdatedAt = cm_UpdatedAt m\<rparr>"

definition toSMSCostModel :: "SMSCostModel \<Rightarrow> SMSCost" where
  "toSMSCostModel m = \<lparr>cost_ID = sm_ID m, cost_LineType = sm_LineType m, cost_Cost = sm_Cost m\<rparr>"

definition toDeliveryReport :: "SMSDeliveryModel \<Rightarrow> DeliveryReport" where
  "toDeliveryReport row = \<lparr>rep_MessageID = dm_MessageID row, rep_WalletID = dm_WalletID row, rep_Destination = dm_Destination row,
    rep_Message = dm_Message row, rep_Line = dm_Line row, rep_ChannelName = dm_ChannelName row, rep_Status = dm_Status row,
    rep_Attempts = dm_Attempts row, rep_LastError = dm_LastError row, rep_CreatedAt = dm_CreatedAt row,
    rep_UpdatedAt = dm_UpdatedAt row, rep_DeliveredAt = dm_DeliveredAt row\<rparr>"

end
