(* ===== verification/FairRows.thy ===== *)
theory FairRows
  imports Models "HOL-Library.Multiset" "HOL-Library.List_Lexorder" "HOL-Library.Char_ord"
begin

text \<open>
  The fair selection of outbox rows, \<^verbatim>\<open>selectFairRows\<close> of
  \<^verbatim>\<open>internal/infrastructure/messaging/rabbitmq.go\<close>: round-robin over the channels in sorted order,
  one row per channel and round, until the batch is full. The results: the batch is as large
  as it can be, every channel's rows go out in their order, and no channel gets more than one
  row ahead of a channel that still waits.
\<close>

section \<open>The algorithm\<close>

definition channel_of :: "SMSOutboxModel \<Rightarrow> string" where
  "channel_of row = (case json_Unmarshal (Some (om_Payload row)) of
     Inr event \<Rightarrow> if ev_ChannelName event \<noteq> [] then ev_ChannelName event else ''__unknown__''
   | Inl _ \<Rightarrow> ''__unknown__'')"

fun add_groups :: "('a \<Rightarrow> string) \<Rightarrow> 'a list \<Rightarrow> (string \<Rightarrow> 'a list) \<Rightarrow> (string \<Rightarrow> 'a list)" where
  "add_groups ch [] groups = groups"
| "add_groups ch (row # rows) groups = add_groups ch rows (groups(ch row := groups (ch row) @ [row]))"

text \<open>The loop over the channels; it reports whether anything was selected.\<close>

fun fair_pass :: "nat \<Rightarrow> string list \<Rightarrow> (string \<Rightarrow> 'a list) \<Rightarrow> 'a list \<Rightarrow> bool \<Rightarrow> (string \<Rightarrow> 'a list) \<times> 'a list \<times> bool" where
  "fair_pass limit [] groups selected progress = (groups, selected, progress)"
| "fair_pass limit (channel # channels) groups selected progress =
    (case groups channel of
       [] \<Rightarrow> fair_pass limit channels groups selected progress
     | row # rest \<Rightarrow>
         let selected' = selected @ [row]; groups' = groups(channel := rest) in
         if length selected' = limit then (groups', selected', True)
         else fair_pass limit channels groups' selected' True)"

lemma fair_pass_grows:
  "fair_pass limit cs g sel pr = (g', sel', pr') \<Longrightarrow> \<exists>new. sel' = sel @ new \<and> pr' = (pr \<or> new \<noteq> [])
    \<and> (length sel < limit \<longrightarrow> length sel' \<le> limit)"
proof (induction limit cs g sel pr rule: fair_pass.induct)
  case (2 limit c cs g sel pr)
  then show ?case by (fastforce simp: Let_def split: list.splits if_splits)
qed simp

function fair_loop :: "nat \<Rightarrow> string list \<Rightarrow> (string \<Rightarrow> 'a list) \<Rightarrow> 'a list \<Rightarrow> 'a list" where
  "fair_loop limit channels groups selected =
    (if length selected < limit then
       (case fair_pass limit channels groups selected False of (groups', selected', progress) \<Rightarrow>
          if progress then fair_loop limit channels groups' selected' else selected')
     else selected)"
  by pat_completeness auto
termination
  by (relation "measure (\<lambda>(limit, cs, g, sel). limit - length sel)")
    (auto dest!: fair_pass_grows [OF sym] intro!: diff_less_mono2)

declare fair_loop.simps [simp del]

definition selectFairRows :: "SMSOutboxModel list \<Rightarrow> nat \<Rightarrow> SMSOutboxModel list" where
  "selectFairRows rows limit =
    (if length rows \<le> limit then rows
     else
       let groups = add_groups channel_of rows (\<lambda>_. []);
           channels = sort (remdups (map channel_of rows))
       in fair_loop limit channels groups [])"

section \<open>Groups\<close>

abbreviation of_ch :: "('a \<Rightarrow> string) \<Rightarrow> string \<Rightarrow> 'a list \<Rightarrow> 'a list" where
  "of_ch ch c xs \<equiv> filter (\<lambda>x. ch x = c) xs"

lemma add_groups_eq: "add_groups ch rows g c = g c @ of_ch ch c rows"
  by (induction rows arbitrary: g) simp_all

lemma count_of_ch: "count (mset xs) x = count (mset (of_ch ch (ch x) xs)) x"
  by (induction xs) auto

lemma split_channels:
  assumes "\<forall>c. of_ch ch c sel @ g c = of_ch ch c rows"
  shows "mset sel \<subseteq># mset rows" and "(\<forall>c. g c = []) \<Longrightarrow> mset sel = mset rows"
proof -
  have c: "count (mset sel) x + count (mset (g (ch x))) x = count (mset rows) x" for x
    using arg_cong [OF spec [OF assms, of "ch x"], of "\<lambda>l. count (mset l) x"] count_of_ch [of _ x ch] by simp
  show "mset sel \<subseteq># mset rows" using c by (metis le_add1 mset_subset_eqI)
  show "mset sel = mset rows" if "\<forall>c. g c = []"
    using c that by (intro multiset_eqI) (metis add.right_neutral count_empty mset.simps(1))
qed

section \<open>One pass and the whole loop\<close>

text \<open>
  \<open>taken r\<close>: every channel has had \<open>r\<close> rows selected, or all it has; \<open>spread\<close>: the same up to one round.
\<close>

definition taken :: "('a \<Rightarrow> string) \<Rightarrow> 'a list \<Rightarrow> 'a list \<Rightarrow> nat \<Rightarrow> string \<Rightarrow> bool" where
  "taken ch rows sel r c \<longleftrightarrow> length (of_ch ch c sel) = min r (length (of_ch ch c rows))"

definition spread :: "('a \<Rightarrow> string) \<Rightarrow> 'a list \<Rightarrow> 'a list \<Rightarrow> bool" where
  "spread ch rows sel \<longleftrightarrow> (\<exists>r. \<forall>c. taken ch rows sel r c \<or> taken ch rows sel (r + 1) c)"

definition splits :: "('a \<Rightarrow> string) \<Rightarrow> 'a list \<Rightarrow> (string \<Rightarrow> 'a list) \<Rightarrow> 'a list \<Rightarrow> bool" where
  "splits ch rows g sel \<longleftrightarrow> (\<forall>c. of_ch ch c sel @ g c = of_ch ch c rows)"

lemma splits_head:
  assumes "splits ch rows g sel" "g c = x # rest"
  shows "ch x = c \<and> splits ch rows (g(c := rest)) (sel @ [x])"
proof -
  have "x \<in> set (of_ch ch c rows)" using assms by (metis in_set_conv_decomp splits_def)
  then have c: "ch x = c" by simp
  have e: "of_ch ch c sel @ x # rest = of_ch ch c rows" using assms by (metis splits_def)
  have "of_ch ch d (sel @ [x]) @ (g(c := rest)) d = of_ch ch d rows" for d
    using assms(1) c e by (cases "d = c") (auto simp: splits_def)
  with c show ?thesis by (simp add: splits_def)
qed

lemma splits_len: "splits ch rows g sel \<Longrightarrow> length (of_ch ch c rows) = length (of_ch ch c sel) + length (g c)"
  by (metis length_append splits_def)

lemma fair_pass_spec:
  assumes "fair_pass limit cs g sel pr = (g', sel', pr')" "splits ch rows g sel" "distinct cs" "length sel < limit"
    "\<forall>c \<in> set cs. taken ch rows sel r c" "\<forall>c. c \<notin> set cs \<longrightarrow> taken ch rows sel (r + 1) c"
  shows "splits ch rows g' sel' \<and> ((\<forall>c. taken ch rows sel' (r + 1) c)
    \<or> length sel' = limit \<and> (\<forall>c. taken ch rows sel' r c \<or> taken ch rows sel' (r + 1) c))"
  using assms
proof (induction limit cs g sel pr rule: fair_pass.induct)
  case (2 limit c cs g sel pr)
  note len = splits_len [OF 2(4)]
  show ?case
  proof (cases "g c")
    case Nil
    have "taken ch rows sel (r + 1) c" using 2(7) len [of c] Nil by (auto simp: taken_def)
    then have t: "\<forall>d. d \<notin> set cs \<longrightarrow> taken ch rows sel (r + 1) d" using 2(8) by (metis set_ConsD)
    show ?thesis by (rule "2.IH"(1) [OF Nil _ 2(4) _ 2(6) _ t]) (use 2(3,5,7) Nil in simp_all)
  next
    case (Cons x rest)
    let ?g = "g(c := rest)" and ?sel = "sel @ [x]"
    have s: "ch x = c" "splits ch rows ?g ?sel" using splits_head [OF 2(4) Cons] by auto
    have "taken ch rows ?sel (r + 1) c" using 2(7) len [of c] Cons s(1) by (auto simp: taken_def)
    moreover have "taken ch rows ?sel k d = taken ch rows sel k d" if "d \<noteq> c" for k d
      using s(1) that by (auto simp: taken_def)
    ultimately have t: "\<forall>d \<in> set cs. taken ch rows ?sel r d" "\<forall>d. d \<notin> set cs \<longrightarrow> taken ch rows ?sel (r + 1) d"
      using 2(5,7,8) by (metis distinct.simps(2) list.set_intros(2), metis set_ConsD)
    show ?thesis
    proof (cases "length ?sel = limit")
      case True
      then show ?thesis using 2(3) Cons s(2) t by (auto simp: Let_def)
    next
      case False
      with 2(6) have "length ?sel < limit" by simp
      with "2.IH"(2) [OF Cons refl refl _ _ s(2) _ _ t] False 2(3,5) Cons show ?thesis
        by (simp add: Let_def fun_upd_def)
    qed
  qed
qed simp

lemma fair_loop_spec:
  assumes "splits ch rows g sel" "distinct cs" "\<forall>c. c \<notin> set cs \<longrightarrow> of_ch ch c rows = []"
    "\<forall>c. taken ch rows sel r c" "length sel \<le> limit"
  defines "res \<equiv> fair_loop limit cs g sel"
  shows "\<exists>g'. splits ch rows g' res \<and> spread ch rows res \<and> length res \<le> limit
    \<and> (length res = limit \<or> (\<forall>c. g' c = []))"
  using assms(1,2,4,5) assms(3) unfolding res_def
proof (induction limit cs g sel arbitrary: r rule: fair_loop.induct)
  case (1 limit cs g sel)
  show ?case
  proof (cases "length sel < limit")
    case False
    then show ?thesis using 1(2-) by (auto simp: fair_loop.simps [of limit cs g sel] spread_def)
  next
    case True
    obtain g' sel' pr where p: "fair_pass limit cs g sel False = (g', sel', pr)" using prod_cases3 by blast
    have out: "taken ch rows sel (r + 1) c" if "c \<notin> set cs" for c
      using 1(2,6) that splits_len [OF 1(2), of c] by (simp add: taken_def)
    have sp: "splits ch rows g' sel'" "(\<forall>c. taken ch rows sel' (r + 1) c)
        \<or> length sel' = limit \<and> (\<forall>c. taken ch rows sel' r c \<or> taken ch rows sel' (r + 1) c)"
      using fair_pass_spec [OF p 1(2,3) True, of r] 1(4) out by blast+
    obtain new where new: "sel' = sel @ new" "pr = (new \<noteq> [])" "length sel' \<le> limit"
      using fair_pass_grows [OF p] True by auto
    show ?thesis
    proof (cases pr)
      case True': True
      show ?thesis
      proof (cases "\<forall>c. taken ch rows sel' (r + 1) c")
        case True
        with 1(1) [OF \<open>length sel < limit\<close> p [symmetric] refl True' sp(1) 1(3) _ new(3) 1(6), of "r + 1"]
        show ?thesis using \<open>length sel < limit\<close> p True' by (simp add: fair_loop.simps [of limit cs g sel])
      next
        case False
        with sp(2) have f: "length sel' = limit" "spread ch rows sel'" by (auto simp: spread_def)
        then have "fair_loop limit cs g sel = sel'"
          using \<open>length sel < limit\<close> p True' by (simp add: fair_loop.simps [of limit cs g sel] fair_loop.simps [of limit cs g' sel'])
        with f sp(1) show ?thesis by auto
      qed
    next
      case False
      with new have s: "sel' = sel" by simp
      with sp(2) True have all: "\<forall>c. taken ch rows sel (r + 1) c" by auto
      have "g' c = []" for c
        using all [THEN spec, of c] 1(4) [THEN spec, of c] splits_len [OF sp(1), of c] s by (simp add: taken_def min_def split: if_splits)
      with sp(1) s all False p True show ?thesis
        by (auto simp: fair_loop.simps [of limit cs g sel] spread_def)
    qed
  qed
qed

lemma selectFairRows_spec:
  "\<exists>g'. splits channel_of rows g' (selectFairRows rows limit) \<and> spread channel_of rows (selectFairRows rows limit)
    \<and> (length rows \<le> limit \<longrightarrow> (\<forall>c. g' c = []))
    \<and> (limit < length rows \<longrightarrow> length (selectFairRows rows limit) = limit)"
proof (cases "length rows \<le> limit")
  case True
  have "taken channel_of rows rows (length rows) c" for c by (simp add: taken_def)
  with True show ?thesis
    by (intro exI [of _ "\<lambda>_. []"]) (auto simp: selectFairRows_def splits_def spread_def)
next
  case False
  let ?cs = "sort (remdups (map channel_of rows))" and ?g = "add_groups channel_of rows (\<lambda>_. [])"
  have "splits channel_of rows ?g []" by (simp add: splits_def add_groups_eq)
  moreover have "\<forall>c. c \<notin> set ?cs \<longrightarrow> of_ch channel_of c rows = []" by (auto simp: filter_empty_conv)
  moreover have "\<forall>c. taken channel_of rows [] 0 c" by (simp add: taken_def)
  ultimately obtain g' where g': "splits channel_of rows g' (fair_loop limit ?cs ?g [])"
    "spread channel_of rows (fair_loop limit ?cs ?g [])"
    "length (fair_loop limit ?cs ?g []) = limit \<or> (\<forall>c. g' c = [])" "length (fair_loop limit ?cs ?g []) \<le> limit"
    using fair_loop_spec [of channel_of rows ?g "[]" ?cs 0 limit] by auto
  have "length (fair_loop limit ?cs ?g []) = limit"
  proof (rule ccontr)
    assume n: "length (fair_loop limit ?cs ?g []) \<noteq> limit"
    with g'(3) have "mset (fair_loop limit ?cs ?g []) = mset rows"
      by (intro split_channels(2) [OF g'(1) [unfolded splits_def]]) blast
    then have "length (fair_loop limit ?cs ?g []) = length rows" by (rule mset_eq_length)
    with g'(4) False show False by simp
  qed
  with g' False show ?thesis by (auto simp: selectFairRows_def Let_def)
qed

text \<open>The batch has all rows or exactly \<^verbatim>\<open>limit\<close> of them, and no row more often than the query returned it.\<close>

lemma selectFairRows_batch:
  "length (selectFairRows rows limit) = min (length rows) limit \<and> mset (selectFairRows rows limit) \<subseteq># mset rows"
proof -
  obtain g' where g': "splits channel_of rows g' (selectFairRows rows limit)"
    "limit < length rows \<longrightarrow> length (selectFairRows rows limit) = limit" using selectFairRows_spec by blast
  from split_channels(1) [OF g'(1) [unfolded splits_def]] g'(2) show ?thesis
    by (cases "length rows \<le> limit") (simp_all add: selectFairRows_def)
qed

section \<open>Properties\<close>

text \<open>
  First in, first out per channel: the selected rows of a channel are the first rows of that
  channel, in the order in which the query returned them.
\<close>

theorem fair_fifo_per_channel:
  "\<exists>k. filter (\<lambda>row. channel_of row = c) (selectFairRows rows limit)
      = take k (filter (\<lambda>row. channel_of row = c) rows)"
proof -
  obtain g' where "splits channel_of rows g' (selectFairRows rows limit)" using selectFairRows_spec by blast
  then show ?thesis by (metis append_eq_conv_conj splits_def)
qed

text \<open>
  C6: a hot channel cannot crowd out another one. If some row of channel \<open>c\<close> had to wait, then
  no other channel got more than one row more than \<open>c\<close> in the batch.
\<close>

theorem fair_no_hot_channel:
  fixes rows :: "SMSOutboxModel list"
  defines "n c xs \<equiv> length (filter (\<lambda>row. channel_of row = c) xs)"
  assumes "n c (selectFairRows rows limit) < n c rows"
  shows "n d (selectFairRows rows limit) \<le> n c (selectFairRows rows limit) + 1"
proof -
  obtain r where r: "\<forall>c. taken channel_of rows (selectFairRows rows limit) r c
      \<or> taken channel_of rows (selectFairRows rows limit) (r + 1) c"
    using selectFairRows_spec [of rows limit] by (auto simp: spread_def)
  from r [THEN spec, of c] r [THEN spec, of d] assms(2) show ?thesis
    by (auto simp: taken_def n_def)
qed

definition row_of :: "int \<Rightarrow> string \<Rightarrow> SMSOutboxModel" where
  "row_of i c = \<lparr>om_ID = i, om_MessageID = ''m'', om_RoutingKey = ''normal'', om_Payload = JObj [(''channel_name'', JStr c)],
    om_CreatedAt = 0, om_PublishedAt = None\<rparr>"

lemma channel_of_row: "c \<noteq> [] \<Longrightarrow> channel_of (row_of i c) = c"
  by (simp add: channel_of_def row_of_def json_Unmarshal_def set_field_def event_fields_def set_string_def zero_event_def)

theorem fair_no_hot_channel_witness:
  "let rows = [row_of 1 ''a'', row_of 2 ''a'', row_of 3 ''a'', row_of 4 ''b'']; sel = selectFairRows rows 2 in
    length (filter (\<lambda>row. channel_of row = ''a'') sel) < length (filter (\<lambda>row. channel_of row = ''a'') rows)
    \<and> length (filter (\<lambda>row. channel_of row = ''b'') sel) \<le> length (filter (\<lambda>row. channel_of row = ''a'') sel) + 1"
proof -
  let ?rows = "[row_of 1 ''a'', row_of 2 ''a'', row_of 3 ''a'', row_of 4 ''b'']"
  have "length (filter (\<lambda>row. channel_of row = ''a'') (selectFairRows ?rows 2)) \<le> length (selectFairRows ?rows 2)"
    by (rule length_filter_le)
  also have "length (selectFairRows ?rows 2) < 3"
  proof -
    obtain g' where "2 < length ?rows \<longrightarrow> length (selectFairRows ?rows 2) = 2" using selectFairRows_spec by blast
    then show ?thesis by simp
  qed
  finally have "length (filter (\<lambda>row. channel_of row = ''a'') (selectFairRows ?rows 2))
      < length (filter (\<lambda>row. channel_of row = ''a'') ?rows)" by (simp add: channel_of_row)
  with fair_no_hot_channel [OF this, of "''b''"] show ?thesis by (simp only: Let_def)
qed

section \<open>A reference definition\<close>

text \<open>Reading the groups column by column; lists that are exhausted do not count.\<close>

lemma length_transpose_nonempty:
  "foldr (\<lambda>xs. max (length xs)) (filter (\<lambda>ys. ys \<noteq> []) xss) 0 = foldr (\<lambda>xs. max (length xs)) xss 0"
  by (induction xss) auto

lemma transpose_nonempty: "transpose (filter (\<lambda>ys. ys \<noteq> []) xss) = transpose xss"
proof (rule nth_equalityI)
  show "length (transpose (filter (\<lambda>ys. ys \<noteq> []) xss)) = length (transpose xss)"
    by (simp add: length_transpose length_transpose_nonempty)
  fix i assume "i < length (transpose (filter (\<lambda>ys. ys \<noteq> []) xss))"
  moreover have "filter (\<lambda>ys. ys \<noteq> [] \<and> i < length ys) xss = filter (\<lambda>ys. i < length ys) xss" by (rule filter_cong) auto
  ultimately show "transpose (filter (\<lambda>ys. ys \<noteq> []) xss) ! i = transpose xss ! i"
    by (simp add: nth_transpose length_transpose length_transpose_nonempty conj_commute)
qed

lemma transpose_heads: "concat (transpose xss) = concat (map (take 1) xss) @ concat (transpose (map tl xss))"
proof (induction xss rule: transpose.induct)
  case (3 x xs xss)
  have h: "concat (map (case_list [] (\<lambda>h t. [h])) yss) = concat (map (take 1) yss)" for yss :: "'a list list"
    by (induction yss) (auto split: list.splits)
  have t: "filter (\<lambda>ys. ys \<noteq> []) (concat (map (case_list [] (\<lambda>h t. [t])) yss)) = filter (\<lambda>ys. ys \<noteq> []) (map tl yss)" for yss :: "'a list list"
    by (induction yss) (auto split: list.splits)
  have "transpose (xs # concat (map (case_list [] (\<lambda>h t. [t])) xss)) = transpose (xs # map tl xss)"
    by (subst (1 2) transpose_nonempty [symmetric]) (simp add: t)
  then show ?case by (simp add: h)
qed simp_all

lemma fair_pass_heads:
  "fair_pass limit cs g sel pr = (g', sel', pr') \<Longrightarrow> distinct cs \<Longrightarrow> length sel < limit \<Longrightarrow>
    sel' = take limit (sel @ concat (map (\<lambda>c. take 1 (g c)) cs)) \<and> (pr' \<longleftrightarrow> pr \<or> (\<exists>c \<in> set cs. g c \<noteq> []))
    \<and> (length sel' < limit \<longrightarrow> (\<forall>c. g' c = (if c \<in> set cs then tl (g c) else g c)))"
proof (induction limit cs g sel pr rule: fair_pass.induct)
  case (2 limit c cs g sel pr)
  show ?case
  proof (cases "g c")
    case Nil
    then show ?thesis using 2 by auto
  next
    case (Cons x rest)
    have e: "concat (map (\<lambda>d. take 1 ((g(c := rest)) d)) cs) = concat (map (\<lambda>d. take 1 (g d)) cs)"
      using 2(4) by (intro arg_cong [of _ _ concat] map_cong) auto
    show ?thesis
    proof (cases "length (sel @ [x]) = limit")
      case True
      then show ?thesis using 2(3) Cons by (auto simp: Let_def)
    next
      case False
      then have "fair_pass limit cs (g(c := rest)) (sel @ [x]) True = (g', sel', pr')" using 2(3) Cons by (simp add: Let_def)
      from "2.IH"(2) [OF Cons refl refl False this] show ?thesis using 2(4,5) Cons False e by auto
    qed
  qed
qed auto

lemma fair_loop_reference:
  "distinct cs \<Longrightarrow> length sel \<le> limit \<Longrightarrow> fair_loop limit cs g sel = take limit (sel @ concat (transpose (map g cs)))"
proof (induction limit cs g sel rule: fair_loop.induct)
  case (1 limit cs g sel)
  show ?case
  proof (cases "length sel < limit")
    case True
    obtain g' sel' pr' where p: "fair_pass limit cs g sel False = (g', sel', pr')" by (metis prod_cases3)
    let ?heads = "concat (map (\<lambda>c. take 1 (g c)) cs)"
    note h = fair_pass_heads [OF p 1(2) True]
    have s: "sel' = take limit (sel @ ?heads)" using h by blast
    have t: "concat (transpose (map g cs)) = ?heads @ concat (transpose (map (\<lambda>c. tl (g c)) cs))"
      using transpose_heads [of "map g cs"] by (simp add: o_def)
    show ?thesis
    proof (cases pr')
      case prog: True
      have l: "length sel' \<le> limit" using s by simp
      have "fair_loop limit cs g' sel' = take limit (sel' @ concat (transpose (map g' cs)))"
        by (rule 1(1) [OF True p [symmetric] refl prog 1(2) l])
      moreover have "take limit (sel' @ concat (transpose (map g' cs))) = take limit (sel @ concat (transpose (map g cs)))"
      proof (cases "length sel' < limit")
        case True
        then have "map g' cs = map (\<lambda>c. tl (g c)) cs" "sel' = sel @ ?heads" using h s by auto
        then show ?thesis by (simp only: t append_assoc)
      next
        case False
        then have full: "length sel' = limit" using l by simp
        then have "limit \<le> length (sel @ ?heads)" using s by (metis length_take min.cobounded1)
        then have "take limit ((sel @ ?heads) @ ys) = sel'" for ys unfolding s by (subst take_append) simp
        moreover have "take limit (sel' @ ys) = sel'" for ys using full by simp
        ultimately have "take limit (sel' @ xs) = take limit ((sel @ ?heads) @ ys)" for xs ys by simp
        then show ?thesis by (simp only: t append_assoc)
      qed
      ultimately show ?thesis using True p prog by (subst fair_loop.simps) simp
    next
      case False
      then have e: "\<forall>c \<in> set cs. g c = []" using h by blast
      then have "transpose (map g cs) = []" by (simp add: transpose_empty)
      moreover have "sel' = sel" using s e True by auto
      ultimately show ?thesis using True p False by (subst fair_loop.simps) simp
    qed
  qed (use 1 in \<open>subst fair_loop.simps, simp\<close>)
qed

text \<open>
  C15: the selection is a transposition. The batch is a prefix of the rows read round by round: the first
  row of every channel in the order of their names, then the second row of every channel that has one,
  and so on. If everything fits, the rows keep their order.
\<close>

theorem fair_is_transposition:
  "selectFairRows rows limit = (if length rows \<le> limit then rows
    else take limit (concat (transpose (map (\<lambda>c. filter (\<lambda>row. channel_of row = c) rows) (sort (remdups (map channel_of rows)))))))"
  by (simp add: selectFairRows_def fair_loop_reference add_groups_eq [abs_def])

end
