(* ===== verification/Database.thy ===== *)
theory Database
  imports Models
begin

text \<open>
  The database as the program uses it. GORM and PostgreSQL are not part of the sources: each
  GORM call the program makes is a field of the record \<open>gorm\<close>, a function on the state \<open>'w\<close> of
  the world, and the locale \<open>gorm_db\<close> states what the program relies on. \<open>dbv\<close> reads the tables
  and \<open>frame\<close> whatever else is observed. A transaction is all or nothing, where a failing commit
  may still have taken effect; so may a statement that the program also issues outside a
  transaction (a new wallet, channel or outbox row, an update of a delivery or of \<^verbatim>\<open>published_at\<close>)
  although it reports an error. The other statements are issued only inside a transaction
  that their error rolls back. A \<^verbatim>\<open>DECIMAL(15,4)\<close> column stores an amount below \<open>10^11\<close> with four
  decimals exactly. Other sessions do not interfere with a transaction (rows are read
  \<^verbatim>\<open>FOR UPDATE\<close>).
\<close>

section \<open>Tables\<close>

record db =
  wallets :: "int \<Rightarrow> WalletModel option"
  wallet_transactions :: "WalletTransactionModel list"
  channels :: "ChannelModel list"
  sms_costs :: "SMSCostModel list"
  sms_outbox :: "SMSOutboxModel list"
  sms_deliveries :: "string \<Rightarrow> SMSDeliveryModel option"

text \<open>The columns an update of a delivery record sets; it always increments \<^verbatim>\<open>attempts\<close>.\<close>

record delivery_updates =
  up_status :: string
  up_last_error :: "string option"
  up_delivered_at :: "time option"

definition apply_updates :: "delivery_updates \<Rightarrow> time \<Rightarrow> SMSDeliveryModel \<Rightarrow> SMSDeliveryModel" where
  "apply_updates u t d = d\<lparr>dm_Status := up_status u, dm_Attempts := dm_Attempts d + 1, dm_UpdatedAt := t,
    dm_LastError := (case up_last_error u of None \<Rightarrow> dm_LastError d | Some e \<Rightarrow> e),
    dm_DeliveredAt := (case up_delivered_at u of None \<Rightarrow> dm_DeliveredAt d | Some x \<Rightarrow> Some x)\<rparr>"

text \<open>
  The variables that a transaction's closure assigns for its caller. They keep their values when
  the commit fails, so an error of \<open>Transaction\<close> comes with them.
\<close>

datatype captured = CNone | CWallet Wallet | CTerminal bool

record 'w gorm =
  Transaction :: "('w \<Rightarrow> (error + captured) \<times> 'w) \<Rightarrow> 'w \<Rightarrow> (error \<times> captured + captured) \<times> 'w"
  FirstWallet :: "int \<Rightarrow> 'w \<Rightarrow> (error + WalletModel) \<times> 'w"
  UpdateBalance :: "int \<Rightarrow> float64 \<Rightarrow> 'w \<Rightarrow> error option \<times> 'w"
  CreateWallet :: "float64 \<Rightarrow> 'w \<Rightarrow> (error + WalletModel) \<times> 'w"
  CreateTransaction :: "WalletTransactionModel \<Rightarrow> 'w \<Rightarrow> error option \<times> 'w"
  FindTransactions :: "int \<Rightarrow> 'w \<Rightarrow> (error + WalletTransactionModel list) \<times> 'w"
  CreateOutbox :: "SMSOutboxModel \<Rightarrow> 'w \<Rightarrow> error option \<times> 'w"
  FindOutbox :: "string \<Rightarrow> nat \<Rightarrow> 'w \<Rightarrow> (error + SMSOutboxModel list) \<times> 'w"
  UpdatePublished :: "int \<Rightarrow> time \<Rightarrow> 'w \<Rightarrow> error option \<times> 'w"
  FirstDelivery :: "string \<Rightarrow> 'w \<Rightarrow> (error + SMSDeliveryModel) \<times> 'w"
  CreateDelivery :: "SMSDeliveryModel \<Rightarrow> 'w \<Rightarrow> (error + SMSDeliveryModel) \<times> 'w"
  UpdateDelivery :: "string \<Rightarrow> delivery_updates \<Rightarrow> 'w \<Rightarrow> error option \<times> 'w"
  FindDeliveries :: "int \<Rightarrow> nat \<Rightarrow> 'w \<Rightarrow> (error + SMSDeliveryModel list) \<times> 'w"
  FirstChannel :: "string \<Rightarrow> 'w \<Rightarrow> (error + ChannelModel) \<times> 'w"
  CreateChannelRow :: "ChannelModel \<Rightarrow> 'w \<Rightarrow> (error + ChannelModel) \<times> 'w"
  FindChannels :: "'w \<Rightarrow> (error + ChannelModel list) \<times> 'w"
  FirstCost :: "string \<Rightarrow> 'w \<Rightarrow> (error + SMSCostModel) \<times> 'w"

section \<open>What the program relies on\<close>

text \<open>An amount a column takes exactly, positive or (for a debit entry) negative.\<close>

definition column_amount :: "float64 \<Rightarrow> bool" where
  "column_amount x \<longleftrightarrow> (\<exists>m. db_money m \<and> (x = Float64 m \<or> x = fneg (Float64 m)))"

definition set_balance :: "int \<Rightarrow> float64 \<Rightarrow> time \<Rightarrow> db \<Rightarrow> db" where
  "set_balance i x t d = d\<lparr>wallets := (wallets d)(i := map_option (\<lambda>m. m\<lparr>wm_Balance := x, wm_UpdatedAt := t\<rparr>) (wallets d i))\<rparr>"

definition add_transaction :: "WalletTransactionModel \<Rightarrow> int \<Rightarrow> time \<Rightarrow> db \<Rightarrow> db" where
  "add_transaction row i t d = d\<lparr>wallet_transactions := wallet_transactions d @ [row\<lparr>tm_ID := i, tm_CreatedAt := t\<rparr>]\<rparr>"

definition add_outbox :: "SMSOutboxModel \<Rightarrow> int \<Rightarrow> time \<Rightarrow> db \<Rightarrow> db" where
  "add_outbox row i t d = d\<lparr>sms_outbox := sms_outbox d @ [row\<lparr>om_ID := i, om_CreatedAt := t\<rparr>]\<rparr>"

definition set_published :: "int \<Rightarrow> time \<Rightarrow> db \<Rightarrow> db" where
  "set_published i t d = d\<lparr>sms_outbox := map (\<lambda>row. if om_ID row = i \<and> om_PublishedAt row = None
    then row\<lparr>om_PublishedAt := Some t\<rparr> else row) (sms_outbox d)\<rparr>"

definition set_delivery :: "string \<Rightarrow> SMSDeliveryModel option \<Rightarrow> db \<Rightarrow> db" where
  "set_delivery mid r d = d\<lparr>sms_deliveries := (sms_deliveries d)(mid := r)\<rparr>"

locale gorm_db =
  fixes G :: "'w gorm" and dbv :: "'w \<Rightarrow> db" and frame :: "'w \<Rightarrow> 'f"
  assumes transaction_ok: "Transaction G fc w = (r, w') \<Longrightarrow>
      (\<exists>e. r = Inl (e, CNone)) \<and> dbv w' = dbv w \<and> frame w' = frame w
      \<or> (\<exists>w1 r0 w2. dbv w1 = dbv w \<and> frame w1 = frame w \<and> fc w1 = (r0, w2) \<and> frame w' = frame w2
          \<and> (case r0 of Inl e \<Rightarrow> r = Inl (e, CNone) \<and> dbv w' = dbv w
             | Inr a \<Rightarrow> r = Inr a \<and> dbv w' = dbv w2 \<or> (\<exists>e. r = Inl (e, a)) \<and> (dbv w' = dbv w \<or> dbv w' = dbv w2)))"
    and frames: "frame (snd (FirstWallet G i w)) = frame w" "frame (snd (UpdateBalance G i x w)) = frame w"
      "frame (snd (CreateTransaction G tr w)) = frame w" "frame (snd (CreateOutbox G ob w)) = frame w"
      "frame (snd (FirstDelivery G mid w)) = frame w" "frame (snd (CreateDelivery G d w)) = frame w"
      "frame (snd (UpdateDelivery G mid u w)) = frame w" "frame (snd (FindOutbox G line n w)) = frame w"
      "frame (snd (UpdatePublished G i t w)) = frame w" "frame (snd (FirstChannel G nm w)) = frame w"
      "frame (snd (FirstCost G lt w)) = frame w" "frame (snd (CreateWallet G x w)) = frame w"
      "frame (snd (FindTransactions G i w)) = frame w" "frame (snd (FindDeliveries G i n w)) = frame w"
      "frame (snd (CreateChannelRow G c w)) = frame w" "frame (snd (FindChannels G w)) = frame w"
    and queries: "dbv (snd (FirstWallet G i w)) = dbv w" "dbv (snd (FirstDelivery G mid w)) = dbv w"
      "dbv (snd (FindOutbox G line n w)) = dbv w" "dbv (snd (FirstChannel G nm w)) = dbv w"
      "dbv (snd (FirstCost G lt w)) = dbv w" "dbv (snd (FindTransactions G i w)) = dbv w"
      "dbv (snd (FindDeliveries G i n w)) = dbv w" "dbv (snd (FindChannels G w)) = dbv w"
    and first_wallet: "FirstWallet G i w = (Inr m, w') \<Longrightarrow> wallets (dbv w) i = Some m"
    and update_balance: "UpdateBalance G i x w = (ro, w') \<Longrightarrow> column_amount x \<Longrightarrow>
      (case ro of Some e \<Rightarrow> dbv w' = dbv w | None \<Rightarrow> \<exists>t. dbv w' = set_balance i x t (dbv w))"
    and create_transaction: "CreateTransaction G tr w = (ro, w') \<Longrightarrow> column_amount (tm_Amount tr) \<Longrightarrow>
      (case ro of Some e \<Rightarrow> dbv w' = dbv w | None \<Rightarrow> \<exists>i t. dbv w' = add_transaction tr i t (dbv w))"
    and create_outbox: "CreateOutbox G ob w = (ro, w') \<Longrightarrow>
      ro \<noteq> None \<and> dbv w' = dbv w
      \<or> (\<exists>i t. dbv w' = add_outbox ob i t (dbv w)) \<and> om_MessageID ob \<notin> om_MessageID ` set (sms_outbox (dbv w))"
    and find_outbox: "FindOutbox G line n w = (Inr rows, w') \<Longrightarrow>
      rows = take n (filter (\<lambda>row. om_PublishedAt row = None \<and> om_RoutingKey row = line) (sort_key om_ID (sms_outbox (dbv w))))"
    and update_published: "UpdatePublished G i t w = (ro, w') \<Longrightarrow>
      ro \<noteq> None \<and> dbv w' = dbv w \<or> dbv w' = set_published i t (dbv w)"
    and first_delivery: "FirstDelivery G mid w = (rd, w') \<Longrightarrow>
      (case rd of Inr d \<Rightarrow> sms_deliveries (dbv w) mid = Some d
       | Inl e \<Rightarrow> e = ErrRecordNotFound \<longrightarrow> sms_deliveries (dbv w) mid = None)"
    and create_delivery: "CreateDelivery G d w = (rd, w') \<Longrightarrow>
      (case rd of Inl e \<Rightarrow> dbv w' = dbv w
       | Inr d' \<Rightarrow> (\<exists>t. d' = d\<lparr>dm_CreatedAt := t, dm_UpdatedAt := t\<rparr>) \<and> dbv w' = set_delivery (dm_MessageID d) (Some d') (dbv w))"
    and update_delivery: "UpdateDelivery G mid u w = (ro, w') \<Longrightarrow>
      ro \<noteq> None \<and> dbv w' = dbv w
      \<or> (\<exists>t. dbv w' = set_delivery mid (map_option (apply_updates u t) (sms_deliveries (dbv w) mid)) (dbv w))"
    and first_channel: "FirstChannel G nm w = (Inr c, w') \<Longrightarrow> c \<in> set (channels (dbv w)) \<and> cm_Name c = nm"
    and first_cost: "FirstCost G lt w = (Inr co, w') \<Longrightarrow> co \<in> set (sms_costs (dbv w)) \<and> sm_LineType co = lt"
    and find_deliveries: "FindDeliveries G i n w = (Inr ds, w') \<Longrightarrow> length ds \<le> n
      \<and> sorted_wrt (\<lambda>d d'. dm_CreatedAt d' \<le> dm_CreatedAt d) ds
      \<and> (\<forall>d \<in> set ds. dm_WalletID d = i \<and> (\<exists>mid. sms_deliveries (dbv w) mid = Some d))"
    and create_wallet: "CreateWallet G x w = (rm, w') \<Longrightarrow> column_amount x \<Longrightarrow>
      (\<exists>e. rm = Inl e) \<and> dbv w' = dbv w
      \<or> (\<exists>m. (rm = Inr m \<or> (\<exists>e. rm = Inl e)) \<and> wm_Balance m = x \<and> wallets (dbv w) (wm_ID m) = None
           \<and> dbv w' = (dbv w)\<lparr>wallets := (wallets (dbv w))(wm_ID m \<mapsto> m)\<rparr>)"
    and create_channel: "CreateChannelRow G c w = (rc, w') \<Longrightarrow>
      (\<exists>e. rc = Inl e) \<and> dbv w' = dbv w
      \<or> (\<exists>c'. (rc = Inr c' \<or> (\<exists>e. rc = Inl e)) \<and> cm_Name c' = cm_Name c \<and> cm_WalletID c' = cm_WalletID c
           \<and> (cm_IsActive c \<longrightarrow> cm_IsActive c')
           \<and> cm_Name c \<notin> cm_Name ` set (channels (dbv w)) \<and> wallets (dbv w) (cm_WalletID c) \<noteq> None
           \<and> dbv w' = (dbv w)\<lparr>channels := channels (dbv w) @ [c']\<rparr>)"

text \<open>What is observed may be seen through a function.\<close>

context gorm_db
begin

lemma framed: "gorm_db G dbv (\<lambda>w. h (frame w))"
proof (unfold_locales, goal_cases)
  case (1 fc w r w')
  then consider "\<exists>e. r = Inl (e, CNone)" "dbv w' = dbv w" "frame w' = frame w"
    | w1 r0 w2 where "dbv w1 = dbv w" "frame w1 = frame w" "fc w1 = (r0, w2)" "frame w' = frame w2"
      "case r0 of Inl e \<Rightarrow> r = Inl (e, CNone) \<and> dbv w' = dbv w
       | Inr a \<Rightarrow> r = Inr a \<and> dbv w' = dbv w2 \<or> (\<exists>e. r = Inl (e, a)) \<and> (dbv w' = dbv w \<or> dbv w' = dbv w2)"
    using transaction_ok [OF 1] by blast
  then show ?case
  proof cases
    case 2
    then show ?thesis by (intro disjI2 exI [of _ w1] exI [of _ r0] exI [of _ w2]) simp
  qed simp
qed (simp only: frames queries
  | erule first_wallet create_outbox find_outbox update_published first_delivery create_delivery update_delivery
      first_channel first_cost find_deliveries create_channel
  | erule (1) update_balance create_transaction create_wallet)+

end

section \<open>A database in memory\<close>

text \<open>
  The interface is consistent: tables in memory, with no failures but the ones of the constraints,
  keep every law. Rows get the number of rows as identifier and the time 0.
\<close>

definition mem_gorm :: "(db \<times> 'v) gorm" where
  "mem_gorm = \<lparr>
    Transaction = (\<lambda>fc w. case fc w of (Inl e, w2) \<Rightarrow> (Inl (e, CNone), (fst w, snd w2)) | (Inr a, w2) \<Rightarrow> (Inr a, w2)),
    FirstWallet = (\<lambda>i w. (case wallets (fst w) i of None \<Rightarrow> Inl ErrRecordNotFound | Some m \<Rightarrow> Inr m, w)),
    UpdateBalance = (\<lambda>i x w. (None, (set_balance i x 0 (fst w), snd w))),
    CreateWallet = (\<lambda>x w. let m = \<lparr>wm_ID = 1, wm_CreatedAt = 0, wm_UpdatedAt = 0, wm_Balance = x\<rparr>
       in if wallets (fst w) 1 = None then (Inr m, ((fst w)\<lparr>wallets := (wallets (fst w))(1 \<mapsto> m)\<rparr>, snd w))
          else (Inl (NewError ''duplicate key value''), w)),
    CreateTransaction = (\<lambda>tr w. (None, (add_transaction tr (int (length (wallet_transactions (fst w)))) 0 (fst w), snd w))),
    FindTransactions = (\<lambda>i w. (Inr (filter (\<lambda>t. tm_WalletID t = i) (wallet_transactions (fst w))), w)),
    CreateOutbox = (\<lambda>ob w. if om_MessageID ob \<in> om_MessageID ` set (sms_outbox (fst w))
       then (Some (NewError ''duplicate key value''), w)
       else (None, (add_outbox ob (int (length (sms_outbox (fst w)))) 0 (fst w), snd w))),
    FindOutbox = (\<lambda>line n w. (Inr (take n (filter (\<lambda>row. om_PublishedAt row = None \<and> om_RoutingKey row = line)
       (sort_key om_ID (sms_outbox (fst w))))), w)),
    UpdatePublished = (\<lambda>i t w. (None, (set_published i t (fst w), snd w))),
    FirstDelivery = (\<lambda>mid w. (case sms_deliveries (fst w) mid of None \<Rightarrow> Inl ErrRecordNotFound | Some d \<Rightarrow> Inr d, w)),
    CreateDelivery = (\<lambda>d w. let d' = d\<lparr>dm_CreatedAt := 0, dm_UpdatedAt := 0\<rparr>
       in (Inr d', (set_delivery (dm_MessageID d) (Some d') (fst w), snd w))),
    UpdateDelivery = (\<lambda>mid u w. (None, (set_delivery mid (map_option (apply_updates u 0) (sms_deliveries (fst w) mid)) (fst w), snd w))),
    FindDeliveries = (\<lambda>i n w. (Inl (NewError ''not supported by the tables in memory''), w)),
    FirstChannel = (\<lambda>nm w. (case find (\<lambda>c. cm_Name c = nm) (channels (fst w)) of None \<Rightarrow> Inl ErrRecordNotFound | Some c \<Rightarrow> Inr c, w)),
    CreateChannelRow = (\<lambda>c w. if cm_Name c \<in> cm_Name ` set (channels (fst w))
       then (Inl (NewError ''duplicate key value''), w)
       else if wallets (fst w) (cm_WalletID c) = None then (Inl (NewError ''violates foreign key constraint''), w)
       else let c' = c\<lparr>cm_ID := int (length (channels (fst w)))\<rparr> in
         (Inr c', ((fst w)\<lparr>channels := channels (fst w) @ [c']\<rparr>, snd w))),
    FindChannels = (\<lambda>w. (Inr (channels (fst w)), w)),
    FirstCost = (\<lambda>lt w. (case find (\<lambda>c. sm_LineType c = lt) (sms_costs (fst w)) of None \<Rightarrow> Inl ErrRecordNotFound | Some c \<Rightarrow> Inr c, w))\<rparr>"

interpretation mem_db: gorm_db mem_gorm fst snd
  by unfold_locales (auto simp: mem_gorm_def Let_def find_Some_iff split: prod.splits sum.splits option.splits if_splits)

text \<open>A database whose transactions never take effect when they report an error.\<close>

definition clean_commits :: "'w gorm \<Rightarrow> ('w \<Rightarrow> db) \<Rightarrow> bool" where
  "clean_commits G dbv \<longleftrightarrow> (\<forall>fc w e w'. Transaction G fc w = (Inl e, w') \<longrightarrow> dbv w' = dbv w)"

lemma clean_commitsD: "clean_commits G dbv \<Longrightarrow> Transaction G fc w = (Inl e, w') \<Longrightarrow> dbv w' = dbv w"
  unfolding clean_commits_def by blast

lemma mem_clean_commits [simp]: "clean_commits mem_gorm fst"
  by (auto simp: clean_commits_def mem_gorm_def split: sum.splits prod.splits)

end
