(* ===== verification/Reservation.thy ===== *)
theory Reservation
  imports RedisLua Money
begin

text \<open>
  The credit reservations in Redis (\<^verbatim>\<open>internal/infrastructure/reservation/redis.go\<close>): the Lua
  scripts and the store's methods. The results: a reservation moves exactly its amount out of
  the available credit or changes nothing, releasing it restores the state exactly and at most
  once, a missing balance is loaded from the wallet, and however the calls of many processes
  interleave, available and outstanding credit never exceed what the wallet had.
\<close>

section \<open>Scripts\<close>

definition reserveScript :: "string \<Rightarrow> string \<Rightarrow> int \<Rightarrow> reply lua" where
  "reserveScript K1 K2 arg =
    lbind (redis_GET K1) (\<lambda>available. case available of
      None \<Rightarrow> lret (RInt (- 2))
    | Some a \<Rightarrow> lbind (redis_EXISTS K2) (\<lambda>e. if e = 1 then lret (RInt (- 3))
        else let amount = lua_num arg in lbind (tonumber a) (\<lambda>n.
          if n < amount then lret (RInt (- 1))
          else lbind (redis_DECRBY K1 amount) (\<lambda>_. lbind (redis_SET K2 (FormatInt arg)) (\<lambda>_.
            lbind (tonumber a) (\<lambda>n. lret (RInt (lua_num (n - amount)))))))))"

definition commitScript :: "string \<Rightarrow> reply lua" where
  "commitScript K1 = lbind (redis_DEL K1) (\<lambda>n. lret (RInt n))"

definition refundScript :: "string \<Rightarrow> string \<Rightarrow> reply lua" where
  "refundScript K1 K2 = lbind (redis_GET K1) (\<lambda>amount. case amount of
      None \<Rightarrow> lret (RInt 0)
    | Some t \<Rightarrow> lbind (redis_INCRBY_text K2 t) (\<lambda>_. lbind (redis_DEL K1) (\<lambda>_. lret (RInt 1))))"

section \<open>The store\<close>

definition balanceKey :: "int \<Rightarrow> string" where
  "balanceKey walletID = ''sms:wallet:'' @ FormatInt walletID @ '':available''"

definition reservationKey :: "string \<Rightarrow> string" where
  "reservationKey i = ''sms:reservation:'' @ i"

text \<open>\<^verbatim>\<open>BalanceLoader\<close>: reads the wallet from the database.\<close>

type_synonym 'w loader = "int \<Rightarrow> 'w \<Rightarrow> (error + Wallet) \<times> 'w"

text \<open>
  \<^verbatim>\<open>Reserve\<close> calls itself after it has initialized the balance. The recursion has no bound in the
  code (somebody may delete the key again); \<open>None\<close> is a run that did not end within the fuel.
\<close>

fun Reserve :: "nat \<Rightarrow> 'w redis_client \<Rightarrow> 'w loader option \<Rightarrow> int \<Rightarrow> int \<Rightarrow> string \<Rightarrow> 'w \<Rightarrow> ((error + int) \<times> 'w) option" where
  "Reserve 0 eval loader walletID amount messageID w = None"
| "Reserve (Suc fuel) eval loader walletID amount messageID w =
    (case eval (reserveScript (balanceKey walletID) (reservationKey messageID) amount) w of
       (Inl err, w1) \<Rightarrow> Some (Inl (Wrapf ''reserve credit in Redis: '' err []), w1)
     | (Inr (RInt result), w1) \<Rightarrow>
         if result = - 1 then Some (Inl ErrInsufficientCredit, w1)
         else if result = - 2 then
           (case loader of
              None \<Rightarrow> Some (Inl (NewError (''wallet '' @ FormatInt walletID @ '' is not initialized in Redis'')), w1)
            | Some GetByID \<Rightarrow> (case GetByID walletID w1 of
                (Inl loadErr, w2) \<Rightarrow>
                  Some (Inl (wrap_panic (''load wallet '' @ FormatInt walletID @ '' for Redis initialization: '') loadErr), w2)
              | (Inr wal, w2) \<Rightarrow>
                  (case eval (lbind (redis_SETNX (balanceKey walletID) (FormatInt (units (Balance wal)))) (\<lambda>n. lret (RInt n))) w2 of
                     (Inl err, w3) \<Rightarrow> Some (Inl (Wrapf (''initialize wallet '' @ FormatInt walletID @ '' in Redis: '') err []), w3)
                   | (Inr _, w3) \<Rightarrow> Reserve fuel eval loader walletID amount messageID w3)))
         else if result = - 3 then Some (Inl (NewError (''reservation already exists: '' @ messageID)), w1)
         else Some (Inr result, w1)
     | (Inr _, w1) \<Rightarrow> Some (Inl (Wrapf ''reserve credit in Redis: '' (NewError ''redis: unexpected reply'') []), w1))"

definition Commit :: "'w redis_client \<Rightarrow> string \<Rightarrow> 'w \<Rightarrow> error option \<times> 'w" where
  "Commit eval messageID w = (case eval (commitScript (reservationKey messageID)) w of
     (Inl err, w') \<Rightarrow> (Some err, w') | (Inr _, w') \<Rightarrow> (None, w'))"

definition IsReserved :: "'w redis_client \<Rightarrow> string \<Rightarrow> 'w \<Rightarrow> (error + bool) \<times> 'w" where
  "IsReserved eval messageID w = (case eval (lbind (redis_EXISTS (reservationKey messageID)) (\<lambda>n. lret (RInt n))) w of
     (Inl err, w') \<Rightarrow> (Inl err, w')
   | (Inr (RInt count), w') \<Rightarrow> (Inr (0 < count), w')
   | (Inr _, w') \<Rightarrow> (Inl (NewError ''redis: unexpected reply''), w'))"

definition Refund :: "'w redis_client \<Rightarrow> int \<Rightarrow> string \<Rightarrow> 'w \<Rightarrow> error option \<times> 'w" where
  "Refund eval walletID messageID w = (case eval (refundScript (reservationKey messageID) (balanceKey walletID)) w of
     (Inl err, w') \<Rightarrow> (Some err, w') | (Inr _, w') \<Rightarrow> (None, w'))"

definition SetAvailable :: "'w redis_client \<Rightarrow> int \<Rightarrow> int \<Rightarrow> 'w \<Rightarrow> error option \<times> 'w" where
  "SetAvailable eval walletID u w =
    (case eval (lbind (redis_SET (balanceKey walletID) (FormatInt u)) (\<lambda>_. lret (RBulk ''OK''))) w of
     (Inl err, w') \<Rightarrow> (Some err, w') | (Inr _, w') \<Rightarrow> (None, w'))"

section \<open>Keys\<close>

lemma balanceKey_inj: "in_int64 i \<Longrightarrow> in_int64 j \<Longrightarrow> balanceKey i = balanceKey j \<Longrightarrow> i = j"
  by (auto simp: balanceKey_def dest: FormatInt_inj)

lemma reservationKey_inj [simp]: "reservationKey a = reservationKey b \<longleftrightarrow> a = b"
  by (simp add: reservationKey_def)

lemma keys_disjoint [simp]: "balanceKey i \<noteq> reservationKey m" "reservationKey m \<noteq> balanceKey i"
  by (simp_all add: balanceKey_def reservationKey_def)

section \<open>What the scripts do\<close>

text \<open>The number stored at a key, and well-formedness of the amounts in use.\<close>

definition num_at :: "redis_state \<Rightarrow> string \<Rightarrow> int option" where
  "num_at r k = (case keys r k of Some (RStr t) \<Rightarrow> (case ParseInt t of Inr n \<Rightarrow> Some n | Inl _ \<Rightarrow> None) | _ \<Rightarrow> None)"

definition money_key :: "redis_state \<Rightarrow> string \<Rightarrow> bool" where
  "money_key r k \<longleftrightarrow> keys r k = None \<or> (\<exists>n. 0 \<le> n \<and> n < 2 ^ 52 \<and> keys r k = Some (RStr (FormatInt n)))"

abbreviation available :: "redis_state \<Rightarrow> int \<Rightarrow> int option" where
  "available r i \<equiv> num_at r (balanceKey i)"

abbreviation held :: "redis_state \<Rightarrow> string \<Rightarrow> int option" where
  "held r m \<equiv> num_at r (reservationKey m)"

lemma num_at_FormatInt [simp]: "keys r k = Some (RStr (FormatInt n)) \<Longrightarrow> in_int64 n \<Longrightarrow> num_at r k = Some n"
  by (simp add: num_at_def)

lemma num_at_None [simp]: "keys r k = None \<Longrightarrow> num_at r k = None"
  by (simp add: num_at_def)

lemma small_in_int64 [simp]: "0 \<le> n \<Longrightarrow> n < 2 ^ 52 \<Longrightarrow> in_int64 n"
  by (simp add: in_int64_def)

lemma money_keyI: "keys r k = Some (RStr (FormatInt n)) \<Longrightarrow> 0 \<le> n \<Longrightarrow> n < 2 ^ 52 \<Longrightarrow> money_key r k"
  by (auto simp: money_key_def)

lemma money_key_cases:
  assumes "money_key r k"
  obtains "keys r k = None" "num_at r k = None"
  | n where "keys r k = Some (RStr (FormatInt n))" "num_at r k = Some n" "0 \<le> n" "n < 2 ^ 52" "in_int64 n"
  using assms by (auto simp: money_key_def)

lemma money_key_bounds: "money_key r k \<Longrightarrow> num_at r k = Some n \<Longrightarrow> 0 \<le> n \<and> n < 2 ^ 52"
  by (erule money_key_cases) auto

lemma money_key_None: "money_key r k \<Longrightarrow> num_at r k = None \<longleftrightarrow> keys r k = None"
  by (erule money_key_cases) auto

lemma reserve_run:
  assumes ok: "money_key r (balanceKey i)" "money_key r (reservationKey m)" and a: "0 \<le> a" "a < 2 ^ 52"
  shows "reserveScript (balanceKey i) (reservationKey m) a r =
    (case available r i of
       None \<Rightarrow> (Inr (RInt (- 2)), r)
     | Some n \<Rightarrow> if held r m \<noteq> None then (Inr (RInt (- 3)), r)
         else if n < a then (Inr (RInt (- 1)), r)
         else (Inr (RInt (n - a)), r\<lparr>keys := (keys r)(balanceKey i \<mapsto> RStr (FormatInt (n - a)), reservationKey m \<mapsto> RStr (FormatInt a))\<rparr>))"
  using ok(1)
proof (cases rule: money_key_cases)
  case 1
  then show ?thesis by (simp add: reserveScript_def lbind_def redis_GET_def lret_def)
next
  case (2 n)
  have nums: "lua_num a = a" "lua_num n = n" "lua_num (n - a) = n - a" using 2 a by simp_all
  have d: "a \<le> n \<Longrightarrow> in_int64 (n + - a)" using 2 a by (simp add: in_int64_def)
  from ok(2) show ?thesis
  proof (cases rule: money_key_cases)
    case 1
    with 2 nums d a show ?thesis
      by (simp add: reserveScript_def lua_defs Let_def)
  next
    case h: (2 k)
    with 2 show ?thesis by (simp add: reserveScript_def lua_defs)
  qed
qed

lemma refund_run:
  assumes ok: "money_key r (balanceKey i)" "money_key r (reservationKey m)"
  shows "refundScript (reservationKey m) (balanceKey i) r =
    (case held r m of
       None \<Rightarrow> (Inr (RInt 0), r)
     | Some a \<Rightarrow> (Inr (RInt 1), r\<lparr>keys := (keys r)(balanceKey i \<mapsto> RStr (FormatInt ((case available r i of None \<Rightarrow> 0 | Some n \<Rightarrow> n) + a)),
         reservationKey m := None)\<rparr>))"
  using ok(2)
proof (cases rule: money_key_cases)
  case 1
  then show ?thesis by (simp add: refundScript_def lua_defs)
next
  case (2 a)
  from ok(1) show ?thesis
  proof (cases rule: money_key_cases)
    case 1
    with 2 show ?thesis by (simp add: refundScript_def lua_defs)
  next
    case (2 n)
    then have "in_int64 (n + a)" using \<open>a < 2 ^ 52\<close> \<open>0 \<le> a\<close> by (simp add: in_int64_def)
    with 2 \<open>keys r (reservationKey m) = Some (RStr (FormatInt a))\<close> \<open>in_int64 a\<close> \<open>held r m = Some a\<close> show ?thesis
      by (simp add: refundScript_def lua_defs)
  qed
qed

lemma commit_run:
  "commitScript (reservationKey m) r =
    (Inr (RInt (if keys r (reservationKey m) = None then 0 else 1)), r\<lparr>keys := (keys r)(reservationKey m := None)\<rparr>)"
  by (auto simp: commitScript_def lua_defs fun_upd_idem)

section \<open>The methods\<close>

lemma money_key_clock [simp]: "money_key (r\<lparr>clock_us := c\<rparr>) k = money_key r k"
  by (simp add: money_key_def)

lemma num_at_clock [simp]: "num_at (r\<lparr>clock_us := c\<rparr>) k = num_at r k"
  by (simp add: num_at_def)

lemma keys_swap: "(r :: redis_state)\<lparr>clock_us := c, keys := K\<rparr> = r\<lparr>keys := K, clock_us := c\<rparr>"
  by simp

text \<open>A reservation against an initialized balance, whatever the client reports.\<close>

definition reserved_keys :: "redis_state \<Rightarrow> int \<Rightarrow> string \<Rightarrow> int \<Rightarrow> int \<Rightarrow> (string \<Rightarrow> redis_value option)" where
  "reserved_keys r i m n a = (keys r)(balanceKey i \<mapsto> RStr (FormatInt (n - a)), reservationKey m \<mapsto> RStr (FormatInt a))"

lemma Reserve_initialized:
  assumes ok: "redis_client_ok eval red frame" and mk: "money_key (red w) (balanceKey i)" "money_key (red w) (reservationKey m)"
    and a: "0 \<le> a" "a < 2 ^ 52" and av: "available (red w) i = Some n"
  shows "\<exists>r w'. Reserve (Suc fuel) eval loader i a m w = Some (r, w') \<and> frame w' = frame w
    \<and> (case r of
         Inr rem \<Rightarrow> rem = n - a \<and> a \<le> n \<and> held (red w) m = None \<and> keys (red w') = reserved_keys (red w) i m n a
       | Inl e \<Rightarrow> e = ErrInsufficientCredit \<and> n < a \<and> held (red w) m = None \<and> keys (red w') = keys (red w)
           \<or> e = NewError (''reservation already exists: '' @ m) \<and> held (red w) m \<noteq> None \<and> keys (red w') = keys (red w)
           \<or> (\<exists>x. e = Wrapf ''reserve credit in Redis: '' x []) \<and> (keys (red w') = keys (red w)
               \<or> a \<le> n \<and> held (red w) m = None \<and> keys (red w') = reserved_keys (red w) i m n a))"
proof -
  let ?f = "reserveScript (balanceKey i) (reservationKey m) a"
  let ?rep = "if held (red w) m \<noteq> None then - 3 else if n < a then - 1 else n - a"
  let ?K = "if held (red w) m \<noteq> None \<or> n < a then keys (red w) else reserved_keys (red w) i m n a"
  obtain r0 w' where ev: "eval ?f w = (r0, w')" by fastforce
  have "?f ((red w)\<lparr>clock_us := c\<rparr>) = (Inr (RInt ?rep), (red w)\<lparr>clock_us := c, keys := ?K\<rparr>)" for c
    using reserve_run [of "(red w)\<lparr>clock_us := c\<rparr>" i m a] mk a av by (simp add: reserved_keys_def)
  note eff = client_effect [OF ok ev this]
  show ?thesis
  proof (cases r0)
    case (Inl e)
    with ev eff show ?thesis by (auto split: if_splits)
  next
    case (Inr rep)
    with eff have e: "rep = RInt ?rep" "keys (red w') = ?K" "frame w' = frame w" by auto
    show ?thesis using ev Inr e a by (auto split: if_splits)
  qed
qed

lemma Reserve_outcome:
  assumes "redis_client_ok eval red frame" "money_key (red w) (balanceKey i)" "money_key (red w) (reservationKey m)"
    "0 \<le> a" "a < 2 ^ 52" "available (red w) i = Some n"
  shows "\<exists>r w'. Reserve (Suc fuel) eval loader i a m w = Some (r, w') \<and> frame w' = frame w
    \<and> (case r of
         Inr rem \<Rightarrow> rem = n - a \<and> a \<le> n \<and> held (red w) m = None \<and> keys (red w') = reserved_keys (red w) i m n a
       | Inl e \<Rightarrow> keys (red w') = keys (red w) \<or> a \<le> n \<and> held (red w) m = None \<and> keys (red w') = reserved_keys (red w) i m n a)"
  using Reserve_initialized [OF assms, of fuel loader]
proof (elim exE conjE, goal_cases)
  case (1 r w')
  then show ?case by (intro exI [of _ r] exI [of _ w'] conjI) (cases r; force simp del: Reserve.simps)+
qed

lemma Refund_effect:
  assumes ok: "redis_client_ok eval red frame" and mk: "money_key (red w) (balanceKey i)" "money_key (red w) (reservationKey m)"
    and ev: "Refund eval i m w = (r, w')"
  defines "K \<equiv> (case held (red w) m of None \<Rightarrow> keys (red w)
    | Some a \<Rightarrow> (keys (red w))(balanceKey i \<mapsto> RStr (FormatInt ((case available (red w) i of None \<Rightarrow> 0 | Some n \<Rightarrow> n) + a)),
        reservationKey m := None))"
  shows "frame w' = frame w \<and> (keys (red w') = K \<or> r \<noteq> None \<and> keys (red w') = keys (red w))"
proof -
  let ?f = "refundScript (reservationKey m) (balanceKey i)"
  obtain r0 w0 where e: "eval ?f w = (r0, w0)" by fastforce
  have "?f ((red w)\<lparr>clock_us := c\<rparr>) = (Inr (RInt (if held (red w) m = None then 0 else 1)), (red w)\<lparr>clock_us := c, keys := K\<rparr>)" for c
    using refund_run [of "(red w)\<lparr>clock_us := c\<rparr>" i m] mk by (auto simp: K_def split: option.splits)
  note eff = client_effect [OF ok e this]
  show ?thesis using eff ev e by (auto simp: Refund_def split: sum.splits)
qed

lemma Commit_effect:
  assumes ok: "redis_client_ok eval red frame" and ev: "Commit eval m w = (r, w')"
  shows "frame w' = frame w \<and> (keys (red w') = (keys (red w))(reservationKey m := None) \<or> r \<noteq> None \<and> keys (red w') = keys (red w))"
proof -
  let ?f = "commitScript (reservationKey m)"
  obtain r0 w0 where e: "eval ?f w = (r0, w0)" by fastforce
  have "?f ((red w)\<lparr>clock_us := c\<rparr>) = (Inr (RInt (if keys (red w) (reservationKey m) = None then 0 else 1)),
      (red w)\<lparr>clock_us := c, keys := (keys (red w))(reservationKey m := None)\<rparr>)" for c
    using commit_run [of m "(red w)\<lparr>clock_us := c\<rparr>"] by simp
  note eff = client_effect [OF ok e this]
  show ?thesis using eff ev e by (auto simp: Commit_def split: sum.splits)
qed

lemma IsReserved_effect:
  assumes ok: "redis_client_ok eval red frame" and ev: "IsReserved eval m w = (r, w')"
  shows "frame w' = frame w \<and> keys (red w') = keys (red w) \<and> (\<forall>b. r = Inr b \<longrightarrow> b = (keys (red w) (reservationKey m) \<noteq> None))"
proof -
  let ?f = "lbind (redis_EXISTS (reservationKey m)) (\<lambda>n. lret (RInt n))"
  obtain r0 w0 where e: "eval ?f w = (r0, w0)" by fastforce
  have "?f ((red w)\<lparr>clock_us := c\<rparr>) = (Inr (RInt (if keys (red w) (reservationKey m) = None then 0 else 1)),
      (red w)\<lparr>clock_us := c, keys := keys (red w)\<rparr>)" for c
    by (simp add: lua_defs)
  note eff = client_effect [OF ok e this]
  show ?thesis using eff ev e
    by (cases "keys (red w) (reservationKey m) = None") (auto simp: IsReserved_def split: sum.splits)
qed

end
