(* ===== verification/WalletRepo.thy ===== *)
theory WalletRepo
  imports Database Reservation
begin

text \<open>
  The wallet repository (\<^verbatim>\<open>internal/infrastructure/persistence/wallet_repository.go\<close>): every change
  of a balance is one transaction that also writes the ledger entry, and for an accepted SMS
  the outbox row. The results: a change is exact and all or nothing, and the balance always
  agrees with the ledger.
\<close>

section \<open>The repository\<close>

text \<open>\<^verbatim>\<open>BalanceCache\<close>: \<^verbatim>\<open>SetAvailable\<close>, or \<open>None\<close> for a repository without cache.\<close>

type_synonym 'w cache = "(int \<Rightarrow> int \<Rightarrow> 'w \<Rightarrow> error option \<times> 'w) option"

definition set_cache :: "'w cache \<Rightarrow> int \<Rightarrow> int \<Rightarrow> 'w \<Rightarrow> 'w" where
  "set_cache cache i u w = (case cache of None \<Rightarrow> w | Some f \<Rightarrow> snd (f i u w))"

text \<open>
  The end of a method whose transaction assigns \<^verbatim>\<open>result\<close>: the cache is updated after a commit. A
  transaction that succeeds without having assigned \<^verbatim>\<open>result\<close> (which the closures never do)
  would give the caller a nil wallet.
\<close>

definition finish :: "'w cache \<Rightarrow> int \<Rightarrow> (error \<times> captured + captured) \<times> 'w \<Rightarrow> (error + Wallet) \<times> 'w" where
  "finish cache i rw = (case rw of
     (Inl (err, _), w) \<Rightarrow> (Inl err, w)
   | (Inr (CWallet wal), w) \<Rightarrow> (Inr wal, set_cache cache i (units (Balance wal)) w)
   | (Inr _, w) \<Rightarrow> (Inl nil_deref, w))"

definition insufficient :: "Wallet \<Rightarrow> Money \<Rightarrow> error" where
  "insufficient wal amount = Wrapf [] ErrInsufficientFunds ('': have '' @ Money_String (Balance wal) @ '', need '' @ Money_String amount)"

definition mutate_tx :: "'w gorm \<Rightarrow> int \<Rightarrow> Money \<Rightarrow> string \<Rightarrow> string \<Rightarrow> TransactionType \<Rightarrow> 'w \<Rightarrow> (error + captured) \<times> 'w" where
  "mutate_tx G walletID amount refID desc typ w = (case FirstWallet G walletID w of
     (Inl err, w1) \<Rightarrow> (Inl (Wrapf ''wallet not found: '' err []), w1)
   | (Inr model, w1) \<Rightarrow> (case toWalletModel model of
       Inl p \<Rightarrow> (Inl p, w1)
     | Inr wal \<Rightarrow>
         if typ = TransactionTypeDebit \<and> \<not> CanAfford wal amount then (Inl (insufficient wal amount), w1)
         else
           let wal' = (if typ = TransactionTypeDebit then Deduct wal amount else Credit wal amount) in
           (case UpdateBalance G walletID (Float64 (Balance wal')) w1 of
              (Some err, w2) \<Rightarrow> (Inl (Wrapf ''update balance: '' err []), w2)
            | (None, w2) \<Rightarrow>
                let txModel = \<lparr>tm_ID = 0, tm_WalletID = walletID, tm_Amount = Float64 amount, tm_Type = TransactionType_string typ,
                      tm_Description = desc, tm_ReferenceID = refID, tm_CreatedAt = zero_time\<rparr>;
                    txModel = (if typ = TransactionTypeDebit then txModel\<lparr>tm_Amount := fneg (tm_Amount txModel)\<rparr> else txModel)
                in (case CreateTransaction G txModel w2 of
                      (Some err, w3) \<Rightarrow> (Inl (Wrapf ''record transaction: '' err []), w3)
                    | (None, w3) \<Rightarrow> (Inr (CWallet wal'), w3)))))"

definition mutateAndRecord ::
  "'w gorm \<Rightarrow> 'w cache \<Rightarrow> int \<Rightarrow> Money \<Rightarrow> string \<Rightarrow> string \<Rightarrow> TransactionType \<Rightarrow> 'w \<Rightarrow> (error + Wallet) \<times> 'w" where
  "mutateAndRecord G cache walletID amount refID desc typ w =
    finish cache walletID (Transaction G (mutate_tx G walletID amount refID desc typ) w)"

definition CreditAndRecord :: "'w gorm \<Rightarrow> 'w cache \<Rightarrow> int \<Rightarrow> Money \<Rightarrow> string \<Rightarrow> string \<Rightarrow> 'w \<Rightarrow> (error + Wallet) \<times> 'w" where
  "CreditAndRecord G cache walletID amount refID desc = mutateAndRecord G cache walletID amount refID desc TransactionTypeCredit"

definition DeductAndRecord :: "'w gorm \<Rightarrow> 'w cache \<Rightarrow> int \<Rightarrow> Money \<Rightarrow> string \<Rightarrow> string \<Rightarrow> 'w \<Rightarrow> (error + Wallet) \<times> 'w" where
  "DeductAndRecord G cache walletID amount refID desc = mutateAndRecord G cache walletID amount refID desc TransactionTypeDebit"

definition outbox_row :: "DeliveryEvent \<Rightarrow> json \<Rightarrow> SMSOutboxModel" where
  "outbox_row event payload = \<lparr>om_ID = 0, om_MessageID = ev_MessageID event, om_RoutingKey = ev_Line event,
    om_Payload = payload, om_CreatedAt = zero_time, om_PublishedAt = None\<rparr>"

definition enqueue_tx :: "'w gorm \<Rightarrow> int \<Rightarrow> Money \<Rightarrow> DeliveryEvent \<Rightarrow> json \<Rightarrow> string \<Rightarrow> 'w \<Rightarrow> (error + captured) \<times> 'w" where
  "enqueue_tx G walletID amount event payload desc w = (case FirstWallet G walletID w of
     (Inl err, w1) \<Rightarrow> (Inl (Wrapf ''wallet not found: '' err []), w1)
   | (Inr model, w1) \<Rightarrow> (case toWalletModel model of
       Inl p \<Rightarrow> (Inl p, w1)
     | Inr wal \<Rightarrow>
         if \<not> CanAfford wal amount then (Inl (insufficient wal amount), w1)
         else
           let wal' = Deduct wal amount in
           (case UpdateBalance G walletID (Float64 (Balance wal')) w1 of
              (Some err, w2) \<Rightarrow> (Inl (Wrapf ''update balance: '' err []), w2)
            | (None, w2) \<Rightarrow>
                (case CreateTransaction G \<lparr>tm_ID = 0, tm_WalletID = walletID, tm_Amount = fneg (Float64 amount),
                    tm_Type = TransactionType_string TransactionTypeDebit, tm_Description = desc,
                    tm_ReferenceID = ev_MessageID event, tm_CreatedAt = zero_time\<rparr> w2 of
                   (Some err, w3) \<Rightarrow> (Inl (Wrapf ''record transaction: '' err []), w3)
                 | (None, w3) \<Rightarrow>
                     (case CreateOutbox G (outbox_row event payload) w3 of
                        (Some err, w4) \<Rightarrow> (Inl (Wrapf ''record SMS outbox: '' err []), w4)
                      | (None, w4) \<Rightarrow> (Inr (CWallet wal'), w4))))))"

definition DeductAndEnqueue ::
  "'w gorm \<Rightarrow> 'w cache \<Rightarrow> int \<Rightarrow> Money \<Rightarrow> DeliveryEvent \<Rightarrow> string \<Rightarrow> 'w \<Rightarrow> (error + Wallet) \<times> 'w" where
  "DeductAndEnqueue G cache walletID amount event desc w = (case json_Marshal event of
     Inl err \<Rightarrow> (Inl (Wrapf ''marshal SMS event: '' err []), w)
   | Inr payload \<Rightarrow> finish cache walletID (Transaction G (enqueue_tx G walletID amount event payload desc) w))"

definition Enqueue :: "'w gorm \<Rightarrow> DeliveryEvent \<Rightarrow> string \<Rightarrow> 'w \<Rightarrow> error option \<times> 'w" where
  "Enqueue G event desc w = (case json_Marshal event of
     Inl err \<Rightarrow> (Some (Wrapf ''marshal SMS event: '' err []), w)
   | Inr payload \<Rightarrow> (case CreateOutbox G (outbox_row event payload) w of
       (Some err, w1) \<Rightarrow> (Some (Wrapf ''record SMS outbox: '' err []), w1)
     | (None, w1) \<Rightarrow> (None, w1)))"

definition GetByID :: "'w gorm \<Rightarrow> int \<Rightarrow> 'w \<Rightarrow> (error + Wallet) \<times> 'w" where
  "GetByID G i w = (case FirstWallet G i w of
     (Inl err, w1) \<Rightarrow> (Inl (Wrapf ''wallet not found: '' err []), w1)
   | (Inr model, w1) \<Rightarrow> (toWalletModel model, w1))"

text \<open>\<^verbatim>\<open>Create\<close> fills in the wallet it is given.\<close>

definition Create :: "'w gorm \<Rightarrow> 'w cache \<Rightarrow> Wallet \<Rightarrow> 'w \<Rightarrow> (error + Wallet) \<times> 'w" where
  "Create G cache wal w = (case CreateWallet G (Float64 (Balance wal)) w of
     (Inl err, w1) \<Rightarrow> (Inl (Wrapf ''insert wallet: '' err []), w1)
   | (Inr model, w1) \<Rightarrow>
       let wal' = wal\<lparr>ID := wm_ID model, CreatedAt := wm_CreatedAt model, UpdatedAt := wm_UpdatedAt model\<rparr>
       in (Inr wal', set_cache cache (ID wal') (units (Balance wal')) w1))"

definition GetTransactionsByWalletID :: "'w gorm \<Rightarrow> int \<Rightarrow> 'w \<Rightarrow> (error + WalletTransaction list) \<times> 'w" where
  "GetTransactionsByWalletID G i w = (case FindTransactions G i w of
     (Inl err, w1) \<Rightarrow> (Inl (Wrapf ''list wallet transactions: '' err []), w1)
   | (Inr models, w1) \<Rightarrow> (Inr (map toWalletTransactionModel models), w1))"

section \<open>The transactions\<close>

text \<open>The tables after a change of wallet \<open>i\<close> to balance \<open>b'\<close> with the given ledger entry.\<close>

definition changed :: "int \<Rightarrow> Money \<Rightarrow> float64 \<Rightarrow> string \<Rightarrow> string \<Rightarrow> string \<Rightarrow> db \<Rightarrow> db \<Rightarrow> bool" where
  "changed i b' amount typ refID desc d d' \<longleftrightarrow> (\<exists>t j t'. d' = add_transaction \<lparr>tm_ID = 0, tm_WalletID = i, tm_Amount = amount,
    tm_Type = typ, tm_Description = desc, tm_ReferenceID = refID, tm_CreatedAt = 0\<rparr> j t' (set_balance i (Float64 b') t d))"

lemma column_amountI [simp]: "db_money m \<Longrightarrow> column_amount (Float64 m)" "db_money m \<Longrightarrow> column_amount (fneg (Float64 m))"
  by (auto simp: column_amount_def)

definition new_balance :: "TransactionType \<Rightarrow> Money \<Rightarrow> Money \<Rightarrow> Money" where
  "new_balance typ b a = \<lparr>units = (if typ = TransactionTypeDebit then units b - units a else units b + units a)\<rparr>"

lemma toWallet_balance:
  assumes "db_money b" "wm_Balance m = Float64 b"
  shows "toWalletModel m = Inr \<lparr>ID = wm_ID m, Balance = b, CreatedAt = wm_CreatedAt m, UpdatedAt = wm_UpdatedAt m\<rparr>"
  using assms by (simp add: toWalletModel_def MustMoney_Float64)

lemma new_balance_wallet:
  assumes "db_money b" "db_money a" "db_money (new_balance typ b a)" "Balance wal = b"
  shows "Balance (if typ = TransactionTypeDebit then Deduct wal a else Credit wal a) = new_balance typ b a"
  using assms Deduct_units [of wal a] Credit_units [of wal a]
  by (cases "typ") (auto simp: new_balance_def db_money_def CanAfford_iff intro!: Money.equality)

text \<open>The transaction of \<^verbatim>\<open>DeductAndEnqueue\<close> is the debit followed by the outbox row.\<close>

lemma enqueue_tx_mutate:
  "enqueue_tx G i a event payload desc w = (case mutate_tx G i a (ev_MessageID event) desc TransactionTypeDebit w of
     (Inl err, w1) \<Rightarrow> (Inl err, w1)
   | (Inr x, w1) \<Rightarrow> (case CreateOutbox G (outbox_row event payload) w1 of
       (Some err, w4) \<Rightarrow> (Inl (Wrapf ''record SMS outbox: '' err []), w4) | (None, w4) \<Rightarrow> (Inr x, w4)))"
proof (cases "FirstWallet G i w")
  case (Pair r1 w1)
  show ?thesis
  proof (cases r1)
    case (Inr m)
    show ?thesis
    proof (cases "toWalletModel m")
      case wal: (Inr wal)
      obtain r2 w2 where u: "UpdateBalance G i (Float64 (Balance (Deduct wal a))) w1 = (r2, w2)" by fastforce
      let ?tr = "\<lparr>tm_ID = 0, tm_WalletID = i, tm_Amount = fneg (Float64 a), tm_Type = ''debit'', tm_Description = desc,
        tm_ReferenceID = ev_MessageID event, tm_CreatedAt = 0\<rparr>"
      obtain r3 w3 where c: "CreateTransaction G ?tr w2 = (r3, w3)" by fastforce
      show ?thesis
        by (cases "CanAfford wal a"; cases r2; cases r3) (simp_all add: enqueue_tx_def mutate_tx_def Pair Inr wal u c Let_def)
    qed (simp add: enqueue_tx_def mutate_tx_def Pair Inr)
  qed (simp add: enqueue_tx_def mutate_tx_def Pair)
qed

context gorm_db
begin

lemma mutate_tx_effect:
  assumes row: "wallets (dbv w) i = Some m" "wm_Balance m = Float64 b" and b: "db_money b" "db_money a"
    and nb: "typ = TransactionTypeCredit \<longrightarrow> db_money (new_balance typ b a)"
    and run: "mutate_tx G i a ref desc typ w = (r, w')"
  shows "frame w' = frame w \<and> (\<forall>x. r = Inr x \<longrightarrow> (\<exists>wal. x = CWallet wal \<and> Balance wal = new_balance typ b a)
      \<and> (typ = TransactionTypeDebit \<longrightarrow> units a \<le> units b)
      \<and> changed i (new_balance typ b a) (if typ = TransactionTypeDebit then fneg (Float64 a) else Float64 a)
          (TransactionType_string typ) ref desc (dbv w) (dbv w'))
    \<and> (typ = TransactionTypeDebit \<and> units b < units a \<longrightarrow> (\<exists>e. r = Inl e))"
proof -
  obtain r1 w1 where f: "FirstWallet G i w = (r1, w1)" by fastforce
  have w1: "dbv w1 = dbv w" "frame w1 = frame w" using f queries(1) [of i w] frames(1) [of i w] by simp_all
  show ?thesis
  proof (cases "(\<exists>e. r1 = Inl e) \<or> typ = TransactionTypeDebit \<and> units b < units a")
    case True
    then show ?thesis using run f w1 first_wallet [of i w _ w1] row toWallet_balance [OF b(1) row(2)]
      by (auto simp: mutate_tx_def CanAfford_iff Let_def split: sum.splits)
  next
    case False
    with first_wallet [of i w _ w1] f row(1) have r1: "r1 = Inr m" by (cases r1) auto
    let ?wal = "\<lparr>ID = wm_ID m, Balance = b, CreatedAt = wm_CreatedAt m, UpdatedAt = wm_UpdatedAt m\<rparr>"
    let ?wal' = "if typ = TransactionTypeDebit then Deduct ?wal a else Credit ?wal a"
    let ?x = "if typ = TransactionTypeDebit then fneg (Float64 a) else Float64 a"
    let ?tr = "\<lparr>tm_ID = 0, tm_WalletID = i, tm_Amount = ?x, tm_Type = TransactionType_string typ,
      tm_Description = desc, tm_ReferenceID = ref, tm_CreatedAt = 0\<rparr>"
    have ok: "db_money (new_balance typ b a)" using nb False b by (cases "typ") (auto simp: db_money_def new_balance_def)
    have bal: "Balance ?wal' = new_balance typ b a" by (rule new_balance_wallet [OF b ok]) simp
    obtain r2 w2 where u: "UpdateBalance G i (Float64 (new_balance typ b a)) w1 = (r2, w2)" by fastforce
    have w2: "frame w2 = frame w1" "r2 = None \<longrightarrow> (\<exists>t. dbv w2 = set_balance i (Float64 (new_balance typ b a)) t (dbv w1))"
      using u frames(2) [of i "Float64 (new_balance typ b a)" w1] update_balance [OF u] ok by (auto split: option.splits)
    obtain r3 w3 where c: "CreateTransaction G ?tr w2 = (r3, w3)" by fastforce
    have w3: "frame w3 = frame w2" "r3 = None \<longrightarrow> (\<exists>j t. dbv w3 = add_transaction ?tr j t (dbv w2))"
      using c frames(3) [of ?tr w2] create_transaction [OF c] b by (auto split: option.splits)
    have run': "mutate_tx G i a ref desc typ w = (case r2 of Some err \<Rightarrow> (Inl (Wrapf ''update balance: '' err []), w2)
        | None \<Rightarrow> (case r3 of Some err \<Rightarrow> (Inl (Wrapf ''record transaction: '' err []), w3) | None \<Rightarrow> (Inr (CWallet ?wal'), w3)))"
      using f r1 toWallet_balance [OF b(1) row(2)] False u c bal
      by (cases "typ") (auto simp: mutate_tx_def Let_def CanAfford_iff split: option.splits)
    show ?thesis using run [unfolded run'] w1 w2 w3 False bal
      by (cases r2; cases r3) (auto simp: changed_def split: if_splits)
  qed
qed

text \<open>
  A transaction whose closure keeps the frame and, if it succeeds, leaves the tables related by
  \<open>P\<close>: afterwards the tables are the old ones or related by \<open>P\<close>, and the latter if it succeeds.
\<close>

lemma transaction_all_or_nothing:
  assumes "Transaction G fc w = (r, w')"
    and fc: "\<And>w1 r0 w2. dbv w1 = dbv w \<Longrightarrow> fc w1 = (r0, w2) \<Longrightarrow> frame w2 = frame w1 \<and> (\<forall>x. r0 = Inr x \<longrightarrow> Q x \<and> P (dbv w) (dbv w2))"
  shows "frame w' = frame w \<and> (case r of Inr x \<Rightarrow> Q x \<and> P (dbv w) (dbv w') | Inl e \<Rightarrow> dbv w' = dbv w \<or> P (dbv w) (dbv w'))"
  using transaction_ok [OF assms(1)]
proof (elim disjE exE conjE)
  fix w1 r0 w2
  assume a: "dbv w1 = dbv w" "frame w1 = frame w" "fc w1 = (r0, w2)" "frame w' = frame w2"
    and c: "case r0 of Inl e \<Rightarrow> r = Inl (e, CNone) \<and> dbv w' = dbv w
      | Inr a \<Rightarrow> r = Inr a \<and> dbv w' = dbv w2 \<or> (\<exists>e. r = Inl (e, a)) \<and> (dbv w' = dbv w \<or> dbv w' = dbv w2)"
  from fc [OF a(1,3)] a c show ?thesis by (cases r0) auto
qed auto

lemma mutate_effect:
  assumes row: "wallets (dbv w) i = Some m" "wm_Balance m = Float64 b" and b: "db_money b" "db_money a"
    and nb: "typ = TransactionTypeCredit \<longrightarrow> db_money (new_balance typ b a)"
    and run: "Transaction G (mutate_tx G i a ref desc typ) w = (r, w')"
  shows "frame w' = frame w \<and> (case r of
      Inr x \<Rightarrow> (\<exists>wal. x = CWallet wal \<and> Balance wal = new_balance typ b a) \<and> (typ = TransactionTypeDebit \<longrightarrow> units a \<le> units b)
        \<and> changed i (new_balance typ b a) (if typ = TransactionTypeDebit then fneg (Float64 a) else Float64 a)
          (TransactionType_string typ) ref desc (dbv w) (dbv w')
    | Inl e \<Rightarrow> dbv w' = dbv w \<or> (typ = TransactionTypeDebit \<longrightarrow> units a \<le> units b) \<and>
        changed i (new_balance typ b a) (if typ = TransactionTypeDebit then fneg (Float64 a) else Float64 a)
          (TransactionType_string typ) ref desc (dbv w) (dbv w'))"
proof -
  let ?P = "\<lambda>d d'. (typ = TransactionTypeDebit \<longrightarrow> units a \<le> units b) \<and>
    changed i (new_balance typ b a) (if typ = TransactionTypeDebit then fneg (Float64 a) else Float64 a)
      (TransactionType_string typ) ref desc d d'"
  let ?Q = "\<lambda>x. \<exists>wal. x = CWallet wal \<and> Balance wal = new_balance typ b a"
  have "frame w2 = frame w1 \<and> (\<forall>x. r0 = Inr x \<longrightarrow> ?Q x \<and> ?P (dbv w) (dbv w2))"
    if "dbv w1 = dbv w" "mutate_tx G i a ref desc typ w1 = (r0, w2)" for w1 r0 w2
    using mutate_tx_effect [of w1, OF _ row(2) b nb that(2)] row(1) that(1) by auto
  from transaction_all_or_nothing [OF run, of ?Q ?P, OF this] show ?thesis by blast
qed

lemma enqueue_tx_effect:
  assumes row: "wallets (dbv w) i = Some m" "wm_Balance m = Float64 b" and b: "db_money b" "db_money a"
    and run: "enqueue_tx G i a event payload desc w = (r, w')"
  shows "frame w' = frame w \<and> (\<forall>x. r = Inr x \<longrightarrow> (\<exists>wal. x = CWallet wal \<and> Balance wal = new_balance TransactionTypeDebit b a)
      \<and> units a \<le> units b \<and> (\<exists>d j t. changed i (new_balance TransactionTypeDebit b a) (fneg (Float64 a)) ''debit'' (ev_MessageID event) desc (dbv w) d
        \<and> dbv w' = add_outbox (outbox_row event payload) j t d))"
proof -
  let ?dt = TransactionTypeDebit
  let ?tr = "\<lparr>tm_ID = 0, tm_WalletID = i, tm_Amount = fneg (Float64 a), tm_Type = ''debit'', tm_Description = desc,
    tm_ReferenceID = ev_MessageID event, tm_CreatedAt = 0\<rparr>"
  obtain r1 w1 where m1: "mutate_tx G i a (ev_MessageID event) desc ?dt w = (r1, w1)" by fastforce
  obtain r4 w4 where c: "CreateOutbox G (outbox_row event payload) w1 = (r4, w4)" by fastforce
  have e: "enqueue_tx G i a event payload desc w = (case r1 of Inl err \<Rightarrow> (Inl err, w1)
      | Inr x \<Rightarrow> (case r4 of Some err \<Rightarrow> (Inl (Wrapf ''record SMS outbox: '' err []), w4) | None \<Rightarrow> (Inr x, w4)))"
    using m1 c by (auto simp: enqueue_tx_mutate split: sum.splits option.splits)
  have me: "frame w1 = frame w" "\<forall>x. r1 = Inr x \<longrightarrow> (\<exists>wal. x = CWallet wal \<and> Balance wal = new_balance ?dt b a)
      \<and> units a \<le> units b \<and> changed i (new_balance ?dt b a) (fneg (Float64 a)) ''debit'' (ev_MessageID event) desc (dbv w) (dbv w1)"
    using mutate_tx_effect [OF row b _ m1] by auto
  have oe: "frame w4 = frame w1" "r4 = None \<longrightarrow> (\<exists>j t. dbv w4 = add_outbox (outbox_row event payload) j t (dbv w1))"
    using c frames(4) [of "outbox_row event payload" w1] create_outbox [OF c] by (auto split: option.splits)
  show ?thesis using run [unfolded e] me oe by (auto split: sum.splits option.splits)
qed

lemma enqueue_effect:
  assumes row: "wallets (dbv w) i = Some m" "wm_Balance m = Float64 b" and b: "db_money b" "db_money a"
    and run: "Transaction G (enqueue_tx G i a event payload desc) w = (r, w')"
  defines "P \<equiv> \<lambda>d d'. units a \<le> units b \<and> (\<exists>d1 j t. changed i (new_balance TransactionTypeDebit b a) (fneg (Float64 a)) ''debit'' (ev_MessageID event) desc d d1
        \<and> d' = add_outbox (outbox_row event payload) j t d1)"
  shows "frame w' = frame w \<and> (case r of
      Inr x \<Rightarrow> (\<exists>wal. x = CWallet wal \<and> Balance wal = new_balance TransactionTypeDebit b a) \<and> P (dbv w) (dbv w')
    | Inl e \<Rightarrow> dbv w' = dbv w \<or> P (dbv w) (dbv w'))"
proof -
  let ?Q = "\<lambda>x. \<exists>wal. x = CWallet wal \<and> Balance wal = new_balance TransactionTypeDebit b a"
  have "frame w2 = frame w1 \<and> (\<forall>x. r0 = Inr x \<longrightarrow> ?Q x \<and> P (dbv w) (dbv w2))"
    if "dbv w1 = dbv w" "enqueue_tx G i a event payload desc w1 = (r0, w2)" for w1 r0 w2
    using enqueue_tx_effect [of w1, OF _ row(2) b that(2)] row(1) that(1) unfolding P_def by auto
  from transaction_all_or_nothing [OF run, of ?Q P, OF this] show ?thesis by blast
qed

end

end
