(* ===== verification/WalletProps.thy ===== *)
theory WalletProps
  imports WalletRepo
begin

text \<open>
  The ledger and the properties of the wallet repository. \<open>ledger_gap\<close> is the balance of a wallet
  minus the sum of its ledger entries, in units: what the wallet was created with.
\<close>

section \<open>The ledger\<close>

definition units_of :: "float64 \<Rightarrow> int" where
  "units_of x = (case NewMoney x of Inr m \<Rightarrow> units m | Inl _ \<Rightarrow> 0)"

definition amount_units :: "float64 \<Rightarrow> int" where
  "amount_units x = (case x of Fin q \<Rightarrow> if q < 0 then - units_of (Fin (- q)) else units_of x | _ \<Rightarrow> 0)"

definition ledger_gap :: "db \<Rightarrow> int \<Rightarrow> int" where
  "ledger_gap d i = (case wallets d i of None \<Rightarrow> 0 | Some m \<Rightarrow> amount_units (wm_Balance m))
    - sum_list (map (\<lambda>row. amount_units (tm_Amount row)) (filter (\<lambda>row. tm_WalletID row = i) (wallet_transactions d)))"

lemma Float64_Fin:
  assumes "db_money m"
  obtains q where "Float64 m = Fin q" "0 \<le> q" "q = 0 \<longleftrightarrow> units m = 0"
proof -
  have r: "NewMoney (Float64 m) = Inr m" using assms by (rule db_money_roundtrip)
  then obtain q where q: "Float64 m = Fin q" "0 \<le> q"
    by (cases "Float64 m") (auto simp: NewMoney_def split: if_splits)
  have z: "Float64 \<lparr>units = 0\<rparr> = Fin 0" by (simp add: Float64_eq)
  have "NewMoney (Float64 \<lparr>units = 0\<rparr>) = Inr \<lparr>units = 0\<rparr>" by (rule db_money_roundtrip) (simp add: db_money_def)
  with z have "NewMoney (Fin 0) = Inr \<lparr>units = 0\<rparr>" by simp
  with r q z have "q = 0 \<longleftrightarrow> units m = 0" by (cases m) auto
  with q show thesis by (rule that)
qed

lemma amount_units_Float64: "db_money m \<Longrightarrow> amount_units (Float64 m) = units m \<and> amount_units (fneg (Float64 m)) = - units m"
proof -
  assume m: "db_money m"
  obtain q where q: "Float64 m = Fin q" "0 \<le> q" "q = 0 \<longleftrightarrow> units m = 0" by (rule Float64_Fin [OF m])
  have "units_of (Fin q) = units m" using db_money_roundtrip [OF m] q(1) by (simp add: units_of_def)
  with q show ?thesis by (auto simp: amount_units_def)
qed

lemma changed_gap:
  assumes row: "wallets d i = Some m" "wm_Balance m = Float64 b" and b: "db_money b" "db_money b'"
    and c: "changed i b' amount typ ref desc d d'" and a: "amount_units amount = units b' - units b"
  shows "ledger_gap d' j = ledger_gap d j"
  using assms amount_units_Float64 [OF b(1)] amount_units_Float64 [OF b(2)]
  by (auto simp: changed_def ledger_gap_def add_transaction_def set_balance_def)

lemma outbox_gap: "ledger_gap (add_outbox row k t d) j = ledger_gap d j"
  by (simp add: ledger_gap_def add_outbox_def)

definition wallet_has :: "db \<Rightarrow> int \<Rightarrow> Money \<Rightarrow> bool" where
  "wallet_has d i b \<longleftrightarrow> (\<exists>m. wallets d i = Some m \<and> wm_Balance m = Float64 b) \<and> db_money b"

lemma changed_has:
  "changed i b' amount typ ref desc d d' \<Longrightarrow> wallet_has d i b \<Longrightarrow> db_money b' \<Longrightarrow>
    wallet_has d' i b' \<and> (\<forall>j. j \<noteq> i \<longrightarrow> wallets d' j = wallets d j) \<and> channels d' = channels d \<and> sms_costs d' = sms_costs d
    \<and> sms_outbox d' = sms_outbox d \<and> sms_deliveries d' = sms_deliveries d
    \<and> (\<exists>k t. wallet_transactions d' = wallet_transactions d @ [\<lparr>tm_ID = k, tm_WalletID = i, tm_Amount = amount,
        tm_Type = typ, tm_Description = desc, tm_ReferenceID = ref, tm_CreatedAt = t\<rparr>])"
  by (auto simp: changed_def wallet_has_def add_transaction_def set_balance_def)

lemma signed_amount:
  "db_money a \<Longrightarrow> amount_units (if typ = TransactionTypeDebit then fneg (Float64 a) else Float64 a)
    = units (new_balance typ b a) - units b"
  using amount_units_Float64 [of a] by (simp add: new_balance_def)

lemma finish_cached:
  assumes "\<forall>f u v. cache = Some f \<longrightarrow> dbv (snd (f i u v)) = dbv v \<and> frame (snd (f i u v)) = frame v" "finish cache i (r0, w0) = (r, w')"
  shows "dbv w' = dbv w0 \<and> frame w' = frame w0 \<and> (case r0 of Inl err \<Rightarrow> r = Inl (fst err) | Inr (CWallet wal) \<Rightarrow> r = Inr wal | Inr _ \<Rightarrow> True)"
  using assms by (auto simp: finish_def set_cache_def split: sum.splits captured.splits option.splits prod.splits)

section \<open>Properties\<close>

text \<open>
  C5: a change of a balance is exact and all or nothing. If \<^verbatim>\<open>mutateAndRecord\<close> succeeds, the balance
  has changed by exactly the amount (a debit only if it was covered), exactly one ledger entry
  with the signed amount was added, and no other row of any table changed; if it fails, the
  tables are as they were, unless a commit that reported an error took effect: then they are as after
  success. A cache makes no difference to the tables.
\<close>

theorem wallet_mutation_exact:
  assumes "gorm_db G dbv frame" "wallet_has (dbv w) i b" "db_money a"
    "typ = TransactionTypeCredit \<longrightarrow> units b + units a < 10 ^ 15"
    "\<forall>f u v. cache = Some f \<longrightarrow> dbv (snd (f i u v)) = dbv v \<and> frame (snd (f i u v)) = frame v"
    "mutateAndRecord G cache i a ref desc typ w = (r, w')"
  defines "b' \<equiv> \<lparr>units = (if typ = TransactionTypeDebit then units b - units a else units b + units a)\<rparr>"
    and "x \<equiv> (if typ = TransactionTypeDebit then fneg (Float64 a) else Float64 a)"
  defines "applied \<equiv> (typ = TransactionTypeDebit \<longrightarrow> units a \<le> units b)
    \<and> changed i b' x (TransactionType_string typ) ref desc (dbv w) (dbv w')"
  shows "frame w' = frame w \<and> (case r of Inr wal \<Rightarrow> Balance wal = b' \<and> applied
      | Inl e \<Rightarrow> dbv w' = dbv w \<or> applied \<and> \<not> clean_commits G dbv)"
proof -
  from assms(2) obtain m where m: "wallets (dbv w) i = Some m" "wm_Balance m = Float64 b" "db_money b"
    by (auto simp: wallet_has_def)
  obtain r0 w0 where t: "Transaction G (mutate_tx G i a ref desc typ) w = (r0, w0)" by fastforce
  have nb: "typ = TransactionTypeCredit \<longrightarrow> db_money (new_balance typ b a)"
    using assms(3,4) m(3) by (auto simp: new_balance_def db_money_def)
  have b': "new_balance typ b a = b'" by (simp add: new_balance_def b'_def)
  note e = gorm_db.mutate_effect [OF assms(1) m(1,2,3) assms(3) nb t, unfolded b', folded x_def]
  have "dbv w' = dbv w0" "frame w' = frame w0" "case r0 of Inl err \<Rightarrow> r = Inl (fst err) | Inr (CWallet wal) \<Rightarrow> r = Inr wal | Inr _ \<Rightarrow> True"
    using finish_cached [OF assms(5), of r0 w0 r w'] assms(6) t by (auto simp: mutateAndRecord_def)
  with e t show ?thesis by (auto simp: applied_def split: sum.splits dest: clean_commitsD)
qed

definition db_example :: db where
  "db_example = \<lparr>wallets = [7 \<mapsto> \<lparr>wm_ID = 7, wm_CreatedAt = 0, wm_UpdatedAt = 0, wm_Balance = Float64 \<lparr>units = 30000\<rparr>\<rparr>],
    wallet_transactions = [], channels = [], sms_costs = [], sms_outbox = [], sms_deliveries = Map.empty\<rparr>"

lemma db_example_wallet: "wallet_has db_example 7 \<lparr>units = 30000\<rparr>"
  by (simp add: wallet_has_def db_example_def db_money_def)

lemma mem_db_ok: "gorm_db mem_gorm fst snd"
  by (rule mem_db.gorm_db_axioms)

lemma mem_debit_example:
  obtains wal w' where "mutateAndRecord mem_gorm None 7 \<lparr>units = 12000\<rparr> ''m'' ''SMS'' TransactionTypeDebit (db_example, ()) = (Inr wal, w')"
proof -
  have "db_money \<lparr>units = 30000\<rparr>" by (simp add: db_money_def)
  from toWallet_balance [OF this] show thesis
    by (intro that) (simp add: mutateAndRecord_def finish_def set_cache_def mem_gorm_def mutate_tx_def db_example_def CanAfford_iff Let_def)
qed

theorem wallet_mutation_exact_witness:
  "\<exists>wal w'. mutateAndRecord mem_gorm None 7 \<lparr>units = 12000\<rparr> ''m'' ''SMS'' TransactionTypeDebit (db_example, ()) = (Inr wal, w')
    \<and> units (Balance wal) = 18000 \<and> changed 7 \<lparr>units = 18000\<rparr> (fneg (Float64 \<lparr>units = 12000\<rparr>)) ''debit'' ''m'' ''SMS'' db_example (fst w')"
proof -
  obtain wal w' where m: "mutateAndRecord mem_gorm None 7 \<lparr>units = 12000\<rparr> ''m'' ''SMS'' TransactionTypeDebit (db_example, ()) = (Inr wal, w')"
    by (rule mem_debit_example)
  from wallet_mutation_exact [OF mem_db_ok _ _ _ _ m, of "\<lparr>units = 30000\<rparr>"] m db_example_wallet show ?thesis
    by (simp add: db_money_def)
qed

text \<open>
  C13: balance and ledger agree. Whatever a debit, a credit or an accepted SMS does and however
  it ends, the difference between a wallet's balance and the sum of its ledger entries stays
  the same, for every wallet.
\<close>

theorem ledger_conserved:
  assumes "gorm_db G dbv frame" "wallet_has (dbv w) i b" "db_money a"
    "typ = TransactionTypeCredit \<longrightarrow> units b + units a < 10 ^ 15"
    "mutateAndRecord G None i a ref desc typ w = (r, w') \<or> DeductAndEnqueue G None i a event desc w = (r, w')"
  shows "ledger_gap (dbv w') j = ledger_gap (dbv w) j"
proof -
  from assms(2) obtain m where m: "wallets (dbv w) i = Some m" "wm_Balance m = Float64 b" "db_money b"
    by (auto simp: wallet_has_def)
  have gap: "ledger_gap d' j = ledger_gap (dbv w) j" if "changed i (new_balance ty b a) (if ty = TransactionTypeDebit then fneg (Float64 a) else Float64 a) t2 rf ds (dbv w) d'"
      "db_money (new_balance ty b a)" for ty d' t2 rf ds
    by (rule changed_gap [OF m(1,2,3) that(2,1) signed_amount [OF assms(3)]])
  from assms(5) show ?thesis
  proof
    assume r: "mutateAndRecord G None i a ref desc typ w = (r, w')"
    obtain r0 w0 where t: "Transaction G (mutate_tx G i a ref desc typ) w = (r0, w0)" by fastforce
    have nb: "typ = TransactionTypeCredit \<longrightarrow> db_money (new_balance typ b a)"
      using assms(3,4) m(3) by (auto simp: new_balance_def db_money_def)
    have "w' = w0" using r t by (auto simp: mutateAndRecord_def finish_def set_cache_def split: sum.splits captured.splits)
    moreover have "units a \<le> units b \<Longrightarrow> db_money (new_balance TransactionTypeDebit b a)"
      using m(3) assms(3) by (simp add: new_balance_def db_money_def)
    ultimately show ?thesis using gorm_db.mutate_effect [OF assms(1) m assms(3) nb t] gap [of "typ"] nb
      by (cases "typ") (auto split: sum.splits)
  next
    assume r: "DeductAndEnqueue G None i a event desc w = (r, w')"
    show ?thesis
    proof (cases "json_Marshal event")
      case (Inr payload)
      obtain r0 w0 where t: "Transaction G (enqueue_tx G i a event payload desc) w = (r0, w0)" by fastforce
      have "w' = w0" using r t Inr by (auto simp: DeductAndEnqueue_def finish_def set_cache_def split: sum.splits captured.splits)
      moreover have "units a \<le> units b \<Longrightarrow> db_money (new_balance TransactionTypeDebit b a)"
        using m(3) assms(3) by (simp add: new_balance_def db_money_def)
      ultimately show ?thesis using gorm_db.enqueue_effect [OF assms(1) m assms(3) t] gap [of TransactionTypeDebit]
        by (auto simp: outbox_gap split: sum.splits)
    qed (use r in \<open>simp add: DeductAndEnqueue_def\<close>)
  qed
qed

theorem ledger_conserved_witness:
  "\<exists>wal w'. mutateAndRecord mem_gorm None 7 \<lparr>units = 12000\<rparr> ''m'' ''SMS'' TransactionTypeDebit (db_example, ()) = (Inr wal, w')
    \<and> ledger_gap (fst w') 7 = ledger_gap db_example 7"
proof -
  obtain wal w' where m: "mutateAndRecord mem_gorm None 7 \<lparr>units = 12000\<rparr> ''m'' ''SMS'' TransactionTypeDebit (db_example, ()) = (Inr wal, w')"
    by (rule mem_debit_example)
  from ledger_conserved [OF mem_db_ok _ _ _ disjI1 [OF m], of "\<lparr>units = 30000\<rparr>" 7] m db_example_wallet show ?thesis
    by (simp add: db_money_def)
qed

text \<open>
  C14: accepting an SMS in the legacy flow. If \<^verbatim>\<open>DeductAndEnqueue\<close> succeeds, the wallet covered the cost
  and was debited by exactly it, one ledger entry refers to the message, and the outbox has
  exactly one new unpublished row, routed by the line, whose payload decodes to the event; if
  it fails, none of this happened, unless a commit that reported an error took effect: then all of it.
\<close>

theorem deduct_and_enqueue_atomic:
  assumes "gorm_db G dbv frame" "wallet_has (dbv w) i b" "db_money a" "event_ok event"
    "\<forall>f u v. cache = Some f \<longrightarrow> dbv (snd (f i u v)) = dbv v \<and> frame (snd (f i u v)) = frame v"
    "DeductAndEnqueue G cache i a event desc w = (r, w')"
  defines "b' \<equiv> \<lparr>units = units b - units a\<rparr>"
  defines "accepted \<equiv> units a \<le> units b \<and> wallet_has (dbv w') i b'
    \<and> (\<exists>k t. wallet_transactions (dbv w') = wallet_transactions (dbv w) @ [\<lparr>tm_ID = k, tm_WalletID = i,
        tm_Amount = fneg (Float64 a), tm_Type = ''debit'', tm_Description = desc, tm_ReferenceID = ev_MessageID event, tm_CreatedAt = t\<rparr>])
    \<and> (\<exists>k t p. sms_outbox (dbv w') = sms_outbox (dbv w) @ [\<lparr>om_ID = k, om_MessageID = ev_MessageID event,
        om_RoutingKey = ev_Line event, om_Payload = p, om_CreatedAt = t, om_PublishedAt = None\<rparr>]
      \<and> json_Unmarshal (Some p) = Inr event)"
  shows "frame w' = frame w \<and> (case r of Inr wal \<Rightarrow> Balance wal = b' \<and> accepted
      | Inl e \<Rightarrow> dbv w' = dbv w \<or> accepted \<and> \<not> clean_commits G dbv)"
proof -
  from assms(2) obtain m where m: "wallets (dbv w) i = Some m" "wm_Balance m = Float64 b" "db_money b"
    by (auto simp: wallet_has_def)
  have js: "json_Marshal event = Inr (json_event event)" "json_Unmarshal (Some (json_event event)) = Inr event"
    using json_roundtrip_aux [OF assms(4)] by auto
  obtain r0 w0 where t: "Transaction G (enqueue_tx G i a event (json_event event) desc) w = (r0, w0)" by fastforce
  have w0: "dbv w' = dbv w0" "frame w' = frame w0" "case r0 of Inl err \<Rightarrow> r = Inl (fst err) | Inr (CWallet wal) \<Rightarrow> r = Inr wal | Inr _ \<Rightarrow> True"
    using finish_cached [OF assms(5), of r0 w0 r w'] assms(6) t js by (auto simp: DeductAndEnqueue_def)
  have b': "new_balance TransactionTypeDebit b a = b'" by (simp add: new_balance_def b'_def)
  have acc: accepted if "units a \<le> units b"
      "changed i b' (fneg (Float64 a)) ''debit'' (ev_MessageID event) desc (dbv w) d1"
      "dbv w' = add_outbox (outbox_row event (json_event event)) k t d1" for d1 k t
  proof -
    have "db_money b'" using that(1) m(3) assms(3) by (simp add: b'_def db_money_def)
    from changed_has [OF that(2) assms(2) this] that js(2) show ?thesis
      by (auto simp: accepted_def add_outbox_def outbox_row_def wallet_has_def)
  qed
  from gorm_db.enqueue_effect [OF assms(1) m assms(3) t, unfolded b'] w0 acc t show ?thesis
    by (cases r0) (auto dest: clean_commitsD)
qed

definition event_example :: DeliveryEvent where
  "event_example = \<lparr>ev_MessageID = ''SMS-1'', ev_WalletID = 7, ev_Destination = ''+98'', ev_Message = ''hi'', ev_Line = ''express'',
    ev_ChannelName = ''web'', ev_CostUnits = 12000, ev_CreatedAt = 63000000000000000000, ev_DeadlineAt = 63000000005000000000\<rparr>"

lemma event_example_ok: "event_ok event_example"
  by (simp add: event_ok_def event_example_def in_int64_def in_years_def ascii_valid_utf8)

theorem deduct_and_enqueue_atomic_witness:
  "\<exists>wal w'. DeductAndEnqueue mem_gorm None 7 \<lparr>units = 12000\<rparr> event_example ''SMS'' (db_example, ()) = (Inr wal, w')
    \<and> units (Balance wal) = 18000 \<and> length (sms_outbox (fst w')) = 1"
proof -
  have js: "json_Marshal event_example = Inr (json_event event_example)" using json_roundtrip_aux [OF event_example_ok] by simp
  have d: "db_money \<lparr>units = 30000\<rparr>" by (simp add: db_money_def)
  obtain wal w' where m: "DeductAndEnqueue mem_gorm None 7 \<lparr>units = 12000\<rparr> event_example ''SMS'' (db_example, ()) = (Inr wal, w')"
    using toWallet_balance [OF d]
    by (simp add: DeductAndEnqueue_def js finish_def set_cache_def mem_gorm_def enqueue_tx_def db_example_def CanAfford_iff Let_def
        set_balance_def add_transaction_def outbox_row_def)
  from deduct_and_enqueue_atomic [OF mem_db_ok _ _ event_example_ok _ m, of "\<lparr>units = 30000\<rparr>"] m db_example_wallet show ?thesis
    by (auto simp: db_money_def db_example_def)
qed

section \<open>The balance cache\<close>

lemma SetAvailable_effect:
  assumes ok: "redis_client_ok eval red frame" and ev: "SetAvailable eval i u w = (r, w')"
  shows "frame w' = frame w \<and> (keys (red w') = (keys (red w))(balanceKey i \<mapsto> RStr (FormatInt u))
    \<or> r \<noteq> None \<and> keys (red w') = keys (red w))"
proof -
  let ?f = "lbind (redis_SET (balanceKey i) (FormatInt u)) (\<lambda>_. lret (RBulk ''OK''))"
  obtain r0 w0 where e: "eval ?f w = (r0, w0)" by fastforce
  have "?f ((red w)\<lparr>clock_us := c\<rparr>) = (Inr (RBulk ''OK''), (red w)\<lparr>clock_us := c, keys := (keys (red w))(balanceKey i \<mapsto> RStr (FormatInt u))\<rparr>)" for c
    by (simp add: lua_defs)
  note eff = client_effect [OF ok e this]
  show ?thesis using eff ev e by (auto simp: SetAvailable_def split: sum.splits)
qed

text \<open>
  C37: a top-up forgets reservations. After a successful \<^verbatim>\<open>CreditAndRecord\<close> of a repository with cache
  whose write to Redis took effect, the available credit is the whole new balance, although
  the reservations of messages in flight still hold credit that is not debited yet: available
  plus held credit exceeds the balance by what they hold.
\<close>

theorem topup_forgets_reservations:
  assumes "gorm_db G dbv red" "redis_client_ok eval red dbv" "wallet_has (dbv w) i b" "db_money c"
    "units b + units c < 10 ^ 15" "held (red w) m = Some h"
    "CreditAndRecord G (Some (SetAvailable eval)) i c ref desc w = (Inr wal, w')"
    "keys (red w') \<noteq> keys (red w)"
  shows "wallet_has (dbv w') i \<lparr>units = units b + units c\<rparr>
    \<and> available (red w') i = Some (units b + units c) \<and> held (red w') m = Some h"
proof -
  let ?b = "new_balance TransactionTypeCredit b c"
  from assms(3) obtain r where m: "wallets (dbv w) i = Some r" "wm_Balance r = Float64 b" "db_money b"
    by (auto simp: wallet_has_def)
  have nb: "?b = \<lparr>units = units b + units c\<rparr>" "db_money ?b"
    using m(3) assms(4,5) by (simp_all add: new_balance_def db_money_def)
  obtain r0 w0 where t: "Transaction G (mutate_tx G i c ref desc TransactionTypeCredit) w = (r0, w0)" by fastforce
  note e = gorm_db.mutate_effect [OF assms(1) m assms(4) _ t]
  have w: "r0 = Inr (CWallet wal)" "w' = snd (SetAvailable eval i (units (Balance wal)) w0)"
    using assms(7) t by (auto simp: CreditAndRecord_def mutateAndRecord_def finish_def set_cache_def split: sum.splits captured.splits)
  have k: "Balance wal = ?b" "red w0 = red w" "changed i ?b (Float64 c) ''credit'' ref desc (dbv w) (dbv w0)"
    using e nb(2) w(1) by auto
  obtain rs where sa: "SetAvailable eval i (units ?b) w0 = (rs, w')" using w(2) k(1) by (metis prod.collapse)
  have s: "dbv w' = dbv w0" "keys (red w') = (keys (red w))(balanceKey i \<mapsto> RStr (FormatInt (units ?b)))"
    using SetAvailable_effect [OF assms(2) sa] assms(8) k(2) by auto
  have "wallet_has (dbv w') i ?b" using changed_has [OF k(3) assms(3) nb(2)] s(1) by simp
  moreover have "in_int64 (units ?b)" using nb(2) by (rule db_money_in_int64)
  ultimately show ?thesis using s(2) assms(6) nb(1) by (simp add: num_at_def)
qed

text \<open>A client for a world in which Redis stands beside the database.\<close>

definition db_client :: "(db \<times> redis_state) redis_client" where
  "db_client f w = (case f (snd w) of (x, r) \<Rightarrow> (x, (fst w, r)))"

lemma db_client_ok: "redis_client_ok db_client snd fst"
  by (force simp: redis_client_ok_def db_client_def Let_def split: prod.splits)

theorem topup_forgets_reservations_witness:
  "\<exists>wal w'. CreditAndRecord mem_gorm (Some (SetAvailable db_client)) 7 \<lparr>units = 5000\<rparr> ''r'' ''Wallet top-up''
      (db_example, \<lparr>keys = [balanceKey 7 \<mapsto> RStr (FormatInt 18000), reservationKey ''m'' \<mapsto> RStr (FormatInt 12000)], clock_us = 0\<rparr>)
      = (Inr wal, w')
    \<and> available (snd w') 7 = Some 35000 \<and> held (snd w') ''m'' = Some 12000"
proof -
  let ?r = "\<lparr>keys = [balanceKey 7 \<mapsto> RStr (FormatInt 18000), reservationKey ''m'' \<mapsto> RStr (FormatInt 12000)], clock_us = 0\<rparr>"
  have d: "db_money \<lparr>units = 30000\<rparr>" by (simp add: db_money_def)
  have u: "units (Balance (Credit \<lparr>ID = 7, Balance = \<lparr>units = 30000\<rparr>, CreatedAt = 0, UpdatedAt = 0\<rparr> \<lparr>units = 5000\<rparr>)) = 35000"
    by (simp add: Credit_units in_int64_def)
  obtain wal w' where m: "CreditAndRecord mem_gorm (Some (SetAvailable db_client)) 7 \<lparr>units = 5000\<rparr> ''r'' ''Wallet top-up'' (db_example, ?r) = (Inr wal, w')"
    "keys (snd w') (balanceKey 7) = Some (RStr (FormatInt 35000))"
    using toWallet_balance [OF d] u
    by (simp add: CreditAndRecord_def mutateAndRecord_def finish_def set_cache_def mem_gorm_def mutate_tx_def db_example_def Let_def
        SetAvailable_def db_client_def lua_defs)
  have "FormatInt 35000 \<noteq> FormatInt 18000" using FormatInt_inj [of 35000 18000] by (auto simp: in_int64_def)
  then have ne: "keys (snd w') \<noteq> keys (snd (db_example, ?r))" using m(2) by (auto dest: fun_cong [of _ _ "balanceKey 7"])
  from topup_forgets_reservations [OF mem_db_ok db_client_ok _ _ _ _ m(1) ne, of "\<lparr>units = 30000\<rparr>" "''m''" 12000] m(1) db_example_wallet
  show ?thesis by (simp add: db_money_def in_int64_def num_at_def)
qed

end
