(* ===== verification/Repositories.thy ===== *)
theory Repositories
  imports WalletRepo
begin

text \<open>
  The smaller repositories of \<^verbatim>\<open>internal/infrastructure/persistence\<close>: channels
  (\<^verbatim>\<open>channel_repository.go\<close>), prices (\<^verbatim>\<open>sms_cost_repository.go\<close>) and delivery reports
  (\<^verbatim>\<open>delivery_repository.go\<close>), over the same GORM interface as the wallet repository.
\<close>

section \<open>Channels\<close>

definition GetByName :: "'w gorm \<Rightarrow> string \<Rightarrow> 'w \<Rightarrow> (error + Channel) \<times> 'w" where
  "GetByName G nm w = (case FirstChannel G nm w of
     (Inl err, w1) \<Rightarrow> (Inl (Wrapf ''channel not found: '' err []), w1)
   | (Inr model, w1) \<Rightarrow> (Inr (toChannelModel model), w1))"

text \<open>\<^verbatim>\<open>Create\<close> fills in the channel it is given: the identifier and the two times.\<close>

definition channel_Create :: "'w gorm \<Rightarrow> Channel \<Rightarrow> 'w \<Rightarrow> (error + Channel) \<times> 'w" where
  "channel_Create G ch w =
    (let model = \<lparr>cm_ID = 0, cm_CreatedAt = zero_time, cm_UpdatedAt = zero_time, cm_Name = ch_Name ch,
       cm_WalletID = ch_WalletID ch, cm_IsActive = ch_IsActive ch\<rparr>
     in case CreateChannelRow G model w of
       (Inl err, w1) \<Rightarrow> (Inl (Wrapf ''insert channel: '' err []), w1)
     | (Inr model', w1) \<Rightarrow>
         let result = toChannelModel model'
         in (Inr (ch\<lparr>ch_ID := ch_ID result, ch_CreatedAt := ch_CreatedAt result, ch_UpdatedAt := ch_UpdatedAt result\<rparr>), w1))"

definition channel_List :: "'w gorm \<Rightarrow> 'w \<Rightarrow> (error + Channel list) \<times> 'w" where
  "channel_List G w = (case FindChannels G w of
     (Inl err, w1) \<Rightarrow> (Inl (Wrapf ''list channels: '' err []), w1)
   | (Inr models, w1) \<Rightarrow> (Inr (map toChannelModel models), w1))"

section \<open>Prices\<close>

definition GetByLineType :: "'w gorm \<Rightarrow> LineType \<Rightarrow> 'w \<Rightarrow> (error + SMSCost) \<times> 'w" where
  "GetByLineType G lt w = (case FirstCost G lt w of
     (Inl err, w1) \<Rightarrow> (Inl (Wrapf (''sms cost not found for line type '' @ [CHR 0x27] @ lt @ [CHR 0x27] @ '': '') err []), w1)
   | (Inr model, w1) \<Rightarrow> (Inr (toSMSCostModel model), w1))"

section \<open>Delivery reports\<close>

definition ListByWallet :: "'w gorm \<Rightarrow> int \<Rightarrow> int \<Rightarrow> 'w \<Rightarrow> (error + DeliveryReport list) \<times> 'w" where
  "ListByWallet G walletID limit w =
    (let limit = (if limit < 1 \<or> 500 < limit then 100 else limit)
     in case FindDeliveries G walletID (nat limit) w of
       (Inl err, w1) \<Rightarrow> (Inl (Wrapf ''list SMS delivery reports: '' err []), w1)
     | (Inr rows, w1) \<Rightarrow> (Inr (map toDeliveryReport rows), w1))"

definition GetByMessageID :: "'w gorm \<Rightarrow> string \<Rightarrow> 'w \<Rightarrow> (error + DeliveryReport) \<times> 'w" where
  "GetByMessageID G messageID w = (case FirstDelivery G messageID w of
     (Inl err, w1) \<Rightarrow> (Inl (Wrapf ''get SMS delivery report: '' err []), w1)
   | (Inr row, w1) \<Rightarrow> (Inr (toDeliveryReport row), w1))"

section \<open>Queries\<close>

context gorm_db
begin

lemma GetByName_query:
  assumes "GetByName G nm w = (r, w')"
  shows "dbv w' = dbv w \<and> frame w' = frame w
    \<and> (\<forall>ch. r = Inr ch \<longrightarrow> (\<exists>c \<in> set (channels (dbv w)). cm_Name c = nm \<and> ch = toChannelModel c))"
proof -
  obtain x w1 where f: "FirstChannel G nm w = (x, w1)" by force
  then show ?thesis using assms queries(4) [of nm w] frames(10) [of nm w] first_channel [of nm w]
    by (auto simp: GetByName_def split: sum.splits)
qed

lemma GetByLineType_query:
  assumes "GetByLineType G lt w = (r, w')"
  shows "dbv w' = dbv w \<and> frame w' = frame w
    \<and> (\<forall>co. r = Inr co \<longrightarrow> (\<exists>c \<in> set (sms_costs (dbv w)). sm_LineType c = lt \<and> co = toSMSCostModel c))"
proof -
  obtain x w1 where f: "FirstCost G lt w = (x, w1)" by force
  then show ?thesis using assms queries(5) [of lt w] frames(11) [of lt w] first_cost [of lt w]
    by (auto simp: GetByLineType_def split: sum.splits)
qed

lemma ListByWallet_query:
  assumes "ListByWallet G i limit w = (r, w')"
  shows "dbv w' = dbv w \<and> frame w' = frame w
    \<and> (\<forall>ds. r = Inr ds \<longrightarrow> length ds \<le> nat (if limit < 1 \<or> 500 < limit then 100 else limit)
        \<and> sorted_wrt (\<lambda>d d'. rep_CreatedAt d' \<le> rep_CreatedAt d) ds \<and> (\<forall>d \<in> set ds. rep_WalletID d = i))"
proof -
  define n where "n = nat (if limit < 1 \<or> 500 < limit then 100 else limit)"
  obtain x w1 where f: "FindDeliveries G i n w = (x, w1)" by force
  have q: "dbv w1 = dbv w" "frame w1 = frame w"
    using queries(7) [of i n w] frames(14) [of i n w] f by simp_all
  have r: "r = (case x of Inl err \<Rightarrow> Inl (Wrapf ''list SMS delivery reports: '' err []) | Inr rows \<Rightarrow> Inr (map toDeliveryReport rows))" "w' = w1"
    using assms f by (auto simp: ListByWallet_def n_def Let_def split: sum.splits)
  show ?thesis using q r find_deliveries [of i n w] f
    by (cases x) (auto simp: sorted_wrt_map toDeliveryReport_def n_def [symmetric])
qed

end

end
