(* ===== verification/CreditRuns.thy ===== *)
theory CreditRuns
  imports Reservation
begin

text \<open>
  Reservations by any number of processes. A run is a sequence of calls of \<^verbatim>\<open>Reserve\<close>, \<^verbatim>\<open>Commit\<close> and
  \<^verbatim>\<open>Refund\<close> for one wallet, with client errors that may or may not have taken effect, between
  which anything may happen that leaves this wallet's keys alone.
\<close>

section \<open>Runs\<close>

definition amount_held :: "redis_state \<Rightarrow> string \<Rightarrow> int" where
  "amount_held r m = (case held r m of None \<Rightarrow> 0 | Some a \<Rightarrow> a)"

text \<open>
  \<open>M\<close> is the set of messages for which credit of this wallet was set aside at some time, and \<open>s\<close> what has been
  spent: what the calls of \<^verbatim>\<open>Commit\<close> took out of the reservations.
\<close>

inductive credit_run :: "'w redis_client \<Rightarrow> ('w \<Rightarrow> redis_state) \<Rightarrow> int \<Rightarrow> 'w \<Rightarrow> 'w \<Rightarrow> string set \<Rightarrow> int \<Rightarrow> bool"
  for eval red i w0 where
  start: "credit_run eval red i w0 w0 {} 0"
| reserve: "credit_run eval red i w0 w M s \<Longrightarrow> 0 \<le> a \<Longrightarrow> a < 2 ^ 52 \<Longrightarrow> Reserve fuel eval loader i a m w = Some (r, w') \<Longrightarrow>
    credit_run eval red i w0 w' (if keys (red w) (reservationKey m) = None then insert m M else M) s"
| commit: "credit_run eval red i w0 w M s \<Longrightarrow> m \<in> M \<Longrightarrow> Commit eval m w = (c, w') \<Longrightarrow>
    credit_run eval red i w0 w' M (s + (amount_held (red w) m - amount_held (red w') m))"
| refund: "credit_run eval red i w0 w M s \<Longrightarrow> m \<in> M \<Longrightarrow> Refund eval i m w = (c, w') \<Longrightarrow> credit_run eval red i w0 w' M s"
| other: "credit_run eval red i w0 w M s \<Longrightarrow> \<forall>k \<in> insert (balanceKey i) (reservationKey ` M). keys (red w') k = keys (red w) k \<Longrightarrow>
    \<forall>m. money_key (red w') (reservationKey m) \<Longrightarrow> credit_run eval red i w0 w' M s"

section \<open>The invariant\<close>

definition credit_inv :: "redis_state \<Rightarrow> int \<Rightarrow> string set \<Rightarrow> int \<Rightarrow> bool" where
  "credit_inv r i M B \<longleftrightarrow> finite M \<and> (\<forall>m. money_key r (reservationKey m)) \<and>
    (\<exists>n. keys r (balanceKey i) = Some (RStr (FormatInt n)) \<and> 0 \<le> n \<and> n + (\<Sum>m \<in> M. amount_held r m) = B)"

lemma amount_held_nonneg: "money_key r (reservationKey m) \<Longrightarrow> 0 \<le> amount_held r m"
  by (erule money_key_cases) (simp_all add: amount_held_def)

lemma credit_invE:
  assumes "credit_inv r i M B" "B < 2 ^ 52"
  obtains n where "finite M" "\<And>m. money_key r (reservationKey m)" "money_key r (balanceKey i)" "available r i = Some n"
    "keys r (balanceKey i) = Some (RStr (FormatInt n))" "0 \<le> n" "n < 2 ^ 52" "n + (\<Sum>m \<in> M. amount_held r m) = B"
proof -
  from assms obtain n where n: "keys r (balanceKey i) = Some (RStr (FormatInt n))" "0 \<le> n" "n + (\<Sum>m \<in> M. amount_held r m) = B"
    and f: "finite M" "\<And>m. money_key r (reservationKey m)" by (auto simp: credit_inv_def)
  have "0 \<le> (\<Sum>m \<in> M. amount_held r m)" by (rule sum_nonneg) (simp add: amount_held_nonneg f)
  with n assms(2) have "n < 2 ^ 52" by simp
  with n f show thesis by (intro that) (auto simp: money_key_def)
qed

lemma num_at_cong: "keys r k = keys r' k \<Longrightarrow> num_at r k = num_at r' k"
  by (simp add: num_at_def)

lemma money_key_cong: "keys r k = keys r' k \<Longrightarrow> money_key r k = money_key r' k"
  by (simp add: money_key_def)

lemma credit_inv_cong:
  assumes "credit_inv r i M B" "\<forall>k \<in> insert (balanceKey i) (reservationKey ` M). keys r' k = keys r k"
    "\<forall>m. money_key r' (reservationKey m)"
  shows "credit_inv r' i M B"
proof -
  have "amount_held r' m = amount_held r m" if "m \<in> M" for m
    using assms(2) that num_at_cong [of r' "reservationKey m" r] by (simp add: amount_held_def)
  then have "(\<Sum>m \<in> M. amount_held r' m) = (\<Sum>m \<in> M. amount_held r m)" by (rule sum.cong [OF refl])
  with assms show ?thesis by (auto simp: credit_inv_def)
qed

lemma credit_inv_keys: "credit_inv r i M B \<Longrightarrow> keys r' = keys r \<Longrightarrow> credit_inv r' i M B"
  by (rule credit_inv_cong [of r]) (auto simp: credit_inv_def money_key_cong [of r' _ r])

lemma credit_inv_insert:
  assumes "credit_inv r i M B" "keys r (reservationKey m) = None"
  shows "credit_inv r i (insert m M) B"
proof (cases "m \<in> M")
  case False
  have "amount_held r m = 0" using assms(2) by (simp add: amount_held_def)
  with assms False show ?thesis by (auto simp: credit_inv_def)
qed (use assms in \<open>simp add: insert_absorb\<close>)

lemma credit_inv_reserve:
  assumes inv: "credit_inv r i M B" "B < 2 ^ 52" and a: "0 \<le> a" "a \<le> n" "available r i = Some n" "held r m = None"
    and k: "keys r' = reserved_keys r i m n a"
  shows "credit_inv r' i (insert m M) B"
proof -
  obtain n' where n: "finite M" "\<And>m. money_key r (reservationKey m)" "available r i = Some n'" "0 \<le> n'" "n' < 2 ^ 52"
    "n' + (\<Sum>m \<in> M. amount_held r m) = B" using credit_invE [OF inv] by metis
  then have nn: "n' = n" using a(3) by simp
  have mk: "money_key r' (reservationKey x)" for x
    using n(2) [of x] k a nn n(5) by (auto simp: money_key_def reserved_keys_def)
  have o: "amount_held r' x = (if x = m then a else amount_held r x)" for x
    using k a nn n(5) num_at_cong [of r' "reservationKey x" r] by (auto simp: amount_held_def reserved_keys_def num_at_def in_int64_def)
  have z: "amount_held r m = 0" using a(4) by (simp add: amount_held_def)
  have "(\<Sum>x \<in> insert m M. amount_held r' x) = a + (\<Sum>x \<in> M - {m}. amount_held r' x)"
    using n(1) o [of m] by (simp add: sum.insert_remove)
  also have "(\<Sum>x \<in> M - {m}. amount_held r' x) = (\<Sum>x \<in> M - {m}. amount_held r x)"
    using o by (intro sum.cong) auto
  also have "\<dots> = (\<Sum>x \<in> M. amount_held r x)" using n(1) z by (simp add: sum_diff1)
  finally show ?thesis using n nn mk k a by (auto simp: credit_inv_def reserved_keys_def)
qed

lemma credit_inv_drop:
  assumes inv: "credit_inv r i M B" "B < 2 ^ 52" and m: "m \<in> M" and av: "available r i = Some n" "0 \<le> x"
    and k: "keys r' = (keys r)(balanceKey i \<mapsto> RStr (FormatInt (n + x)), reservationKey m := None)"
  shows "credit_inv r' i M (B - (amount_held r m - x))" "amount_held r' m = 0"
proof -
  obtain n' where n: "finite M" "\<And>m. money_key r (reservationKey m)" "available r i = Some n'" "0 \<le> n'"
    "n' + (\<Sum>m \<in> M. amount_held r m) = B" using credit_invE [OF inv] by metis
  have nn: "n' = n" using n(3) av(1) by simp
  have mk: "money_key r' (reservationKey y)" for y using n(2) [of y] k by (auto simp: money_key_def)
  have o: "amount_held r' y = (if y = m then 0 else amount_held r y)" for y
    using k num_at_cong [of r' "reservationKey y" r] by (auto simp: amount_held_def num_at_def)
  then show "amount_held r' m = 0" by simp
  have "(\<Sum>y \<in> M. amount_held r' y) = (\<Sum>y \<in> M - {m}. amount_held r y)"
    using n(1) m o by (simp add: sum.remove [of M m])
  moreover have "(\<Sum>y \<in> M. amount_held r y) = amount_held r m + (\<Sum>y \<in> M - {m}. amount_held r y)"
    using n(1) m by (rule sum.remove)
  ultimately show "credit_inv r' i M (B - (amount_held r m - x))" using n nn mk k av by (auto simp: credit_inv_def)
qed

lemma credit_inv_commit:
  assumes inv: "credit_inv r i M B" "B < 2 ^ 52" and m: "m \<in> M" and k: "keys r' = (keys r)(reservationKey m := None)"
  shows "credit_inv r' i M (B - (amount_held r m - amount_held r' m))"
proof -
  obtain n where n: "available r i = Some n" "keys r (balanceKey i) = Some (RStr (FormatInt n))"
    using credit_invE [OF inv] by metis
  have "keys r' = (keys r)(balanceKey i \<mapsto> RStr (FormatInt (n + 0)), reservationKey m := None)"
    using k n(2) by (simp add: fun_upd_idem)
  from credit_inv_drop [OF inv m n(1) _ this] show ?thesis by simp
qed

lemma credit_run_inv:
  assumes "credit_run eval red i w0 w M s" "redis_client_ok eval red frame" "credit_inv (red w0) i {} B" "B < 2 ^ 52"
  shows "credit_inv (red w) i M (B - s) \<and> 0 \<le> s"
  using assms
proof (induction rule: credit_run.induct)
  case (reserve w M s a fuel loader m r w')
  then have inv: "credit_inv (red w) i M (B - s)" "B - s < 2 ^ 52" "0 \<le> s" by simp_all
  obtain n where n: "available (red w) i = Some n" "money_key (red w) (balanceKey i)" "\<And>m. money_key (red w) (reservationKey m)"
    using credit_invE [OF inv(1,2)] by metis
  obtain f where f: "fuel = Suc f" using reserve(4) by (cases fuel) auto
  have h: "held (red w) m = None \<longleftrightarrow> keys (red w) (reservationKey m) = None"
    using n(3) [of m] by (rule money_key_cases) auto
  have k: "keys (red w') = keys (red w) \<or> a \<le> n \<and> held (red w) m = None \<and> keys (red w') = reserved_keys (red w) i m n a"
    using Reserve_initialized [OF reserve(6) n(2,3) reserve(2,3) n(1), of f loader m] reserve(4) f by (auto split: sum.splits)
  show ?case using credit_inv_keys [OF inv(1), of "red w'"] credit_inv_insert [of "red w'" i M "B - s" m]
      credit_inv_reserve [OF inv(1,2) reserve(2) _ n(1), of m "red w'"] k h inv(3) by (auto split: if_splits)
next
  case (commit w M s m c w')
  then have inv: "credit_inv (red w) i M (B - s)" "B - s < 2 ^ 52" "0 \<le> s" by simp_all
  have pos: "0 \<le> amount_held (red w) m" using credit_invE [OF inv(1,2)] amount_held_nonneg by metis
  consider "keys (red w') = keys (red w)" | "keys (red w') = (keys (red w))(reservationKey m := None)"
    using Commit_effect [OF commit(5,3)] by auto
  then show ?case
  proof cases
    case 1
    then have "amount_held (red w') m = amount_held (red w) m" by (simp add: amount_held_def num_at_def)
    then show ?thesis using credit_inv_keys [OF inv(1) 1] inv(3) by simp
  next
    case 2
    then have "amount_held (red w') m = 0" by (simp add: amount_held_def num_at_def)
    then show ?thesis using credit_inv_commit [OF inv(1,2) commit(2) 2] pos inv(3) by (simp add: diff_diff_eq)
  qed
next
  case (refund w M s m c w')
  then have inv: "credit_inv (red w) i M (B - s)" "B - s < 2 ^ 52" "0 \<le> s" by simp_all
  obtain n where n: "available (red w) i = Some n" "money_key (red w) (balanceKey i)" "\<And>m. money_key (red w) (reservationKey m)"
    "n + (\<Sum>m \<in> M. amount_held (red w) m) = B - s" "finite M"
    using credit_invE [OF inv(1,2)] by metis
  show ?case
  proof (cases "held (red w) m")
    case None
    then show ?thesis using Refund_effect [OF refund(5) n(2,3) refund(3)] credit_inv_keys [OF inv(1)] inv(3) by auto
  next
    case (Some x)
    then have "amount_held (red w) m = x" by (simp add: amount_held_def)
    with credit_inv_drop(1) [OF inv(1,2) refund(2) n(1), of x "red w'"] amount_held_nonneg [OF n(3), of m] Some n(1)
      Refund_effect [OF refund(5) n(2,3) refund(3)] credit_inv_keys [OF inv(1)] inv(3) show ?thesis by auto
  qed
next
  case (other w M s w')
  then show ?case by (auto intro: credit_inv_cong)
qed simp

section \<open>Properties\<close>

text \<open>
  A reservation is exact. Against an initialized balance \<^verbatim>\<open>Reserve\<close> always returns, and: on
  success the amount was covered, it has moved from the available credit to the message's
  reservation, and the result is what remains; it reports insufficient credit only when the
  amount is not covered and a duplicate only for a message that already holds credit, both
  without any effect; an error of the client leaves the old or the reserved state. Nothing
  else in Redis or outside changes.
\<close>

theorem reserve_exact:
  assumes "redis_client_ok eval red frame" "money_key (red w) (balanceKey i)" "money_key (red w) (reservationKey m)"
    "0 \<le> a" "a < 2 ^ 52" "available (red w) i = Some n"
  shows "\<exists>r w'. Reserve (Suc fuel) eval loader i a m w = Some (r, w') \<and> frame w' = frame w
    \<and> (case r of
         Inr rem \<Rightarrow> rem = n - a \<and> a \<le> n \<and> held (red w) m = None \<and> keys (red w') = (keys (red w))
           (balanceKey i \<mapsto> RStr (FormatInt (n - a)), reservationKey m \<mapsto> RStr (FormatInt a))
       | Inl e \<Rightarrow> e = ErrInsufficientCredit \<and> n < a \<and> held (red w) m = None \<and> keys (red w') = keys (red w)
           \<or> e = NewError (''reservation already exists: '' @ m) \<and> held (red w) m \<noteq> None \<and> keys (red w') = keys (red w)
           \<or> (\<exists>x. e = Wrapf ''reserve credit in Redis: '' x []) \<and> (keys (red w') = keys (red w)
               \<or> a \<le> n \<and> held (red w) m = None \<and> keys (red w') = (keys (red w))
                   (balanceKey i \<mapsto> RStr (FormatInt (n - a)), reservationKey m \<mapsto> RStr (FormatInt a))))"
  using Reserve_initialized [OF assms, of fuel loader] unfolding reserved_keys_def .

definition credit_example :: redis_state where
  "credit_example = \<lparr>keys = [balanceKey 7 \<mapsto> RStr (FormatInt 30000)], clock_us = 0\<rparr>"

lemma credit_example_keys:
  "money_key credit_example (balanceKey 7)" "money_key credit_example (reservationKey m)"
  "available credit_example 7 = Some 30000" "held credit_example m = None"
  by (auto simp: credit_example_def money_key_def num_at_def in_int64_def intro!: exI [of _ 30000])

theorem reserve_exact_witness:
  "\<exists>r w'. Reserve 1 direct_client None 7 12000 ''m'' credit_example = Some (r, w')
    \<and> (case r of Inr rem \<Rightarrow> rem = 18000 | Inl e \<Rightarrow> e \<noteq> ErrInsufficientCredit)"
  using reserve_exact [OF direct_client_ok credit_example_keys(1,2) _ _ credit_example_keys(3), of 12000 0 None "''m''"]
  by (auto split: sum.splits simp del: Reserve.simps)

text \<open>
  An uninitialized balance. When Redis has no balance for the wallet, \<^verbatim>\<open>Reserve\<close> loads it from
  the wallet once and ends after at most one retry (fuel 2 is enough, whatever the client does);
  if it succeeds, the reservation was made against the loaded balance.
\<close>

theorem reserve_loads_balance:
  assumes "redis_client_ok eval red frame" "keys (red w) (balanceKey i) = None" "keys (red w) (reservationKey m) = None"
    "0 \<le> a" "a < 2 ^ 52" "\<forall>v. \<exists>wal v'. GetByID i v = (Inr wal, v') \<and> units (Balance wal) = b \<and> keys (red v') = keys (red v)"
    "0 \<le> b" "b < 2 ^ 52"
  shows "\<exists>r w'. Reserve (Suc (Suc fuel)) eval (Some GetByID) i a m w = Some (r, w')
    \<and> (\<forall>rem. r = Inr rem \<longrightarrow> a \<le> b \<and> rem = b - a \<and> available (red w') i = Some (b - a) \<and> held (red w') m = Some a)"
proof -
  let ?f = "reserveScript (balanceKey i) (reservationKey m) a"
  let ?g = "lbind (redis_SETNX (balanceKey i) (FormatInt b)) (\<lambda>n. lret (RInt n))"
  have mk: "money_key (red w) (balanceKey i)" "money_key (red w) (reservationKey m)" "available (red w) i = None"
    using assms(2,3) by (simp_all add: money_key_def)
  obtain r1 w1 where e1: "eval ?f w = (r1, w1)" by fastforce
  have "?f ((red w)\<lparr>clock_us := c\<rparr>) = (Inr (RInt (- 2)), (red w)\<lparr>clock_us := c, keys := keys (red w)\<rparr>)" for c
    using reserve_run [of "(red w)\<lparr>clock_us := c\<rparr>" i m a] mk assms(4,5) by simp
  note f1 = client_effect [OF assms(1) e1 this]
  obtain wal w2 where l: "GetByID i w1 = (Inr wal, w2)" "units (Balance wal) = b" "keys (red w2) = keys (red w)"
    using assms(6) f1 by metis
  obtain r3 w3 where e3: "eval ?g w2 = (r3, w3)" by fastforce
  have "?g ((red w2)\<lparr>clock_us := c\<rparr>) = (Inr (RInt 1), (red w2)\<lparr>clock_us := c, keys := (keys (red w))(balanceKey i \<mapsto> RStr (FormatInt b))\<rparr>)" for c
    using assms(2) l(3) by (simp add: lua_defs)
  note f3 = client_effect [OF assms(1) e3 this]
  show ?thesis
  proof (cases "\<exists>x. r1 = Inl x \<or> r3 = Inl x")
    case True
    then show ?thesis using e1 f1 l e3 f3 by (auto split: sum.splits)
  next
    case False
    with f1 f3 have ok: "r1 = Inr (RInt (- 2))" "r3 = Inr (RInt 1)" "keys (red w3) = (keys (red w))(balanceKey i \<mapsto> RStr (FormatInt b))"
      by auto
    have k: "money_key (red w3) (balanceKey i)" "money_key (red w3) (reservationKey m)" "available (red w3) i = Some b"
      using ok(3) assms(3,7,8) by (auto simp: money_key_def)
    have step: "Reserve (Suc (Suc fuel)) eval (Some GetByID) i a m w = Reserve (Suc fuel) eval (Some GetByID) i a m w3"
      using e1 l(1,2) e3 ok(1,2) by (simp add: Reserve.simps(2) [of "Suc fuel"] del: Reserve.simps)
    obtain r w' where r: "Reserve (Suc fuel) eval (Some GetByID) i a m w3 = Some (r, w')"
      "case r of Inr rem \<Rightarrow> rem = b - a \<and> a \<le> b \<and> held (red w3) m = None \<and> keys (red w') = reserved_keys (red w3) i m b a
        | Inl e \<Rightarrow> True"
      using Reserve_initialized [OF assms(1) k(1,2) assms(4,5) k(3), of fuel "Some GetByID"]
      by (metis (no_types, lifting) old.sum.exhaust old.sum.simps(5) old.sum.simps(6))
    have "available (red w') i = Some (b - a) \<and> held (red w') m = Some a" if "r = Inr rem" for rem
      using r(2) that assms(4,5,8) by (auto simp: reserved_keys_def in_int64_def)
    with r show ?thesis unfolding step by auto
  qed
qed

theorem reserve_loads_balance_witness:
  "\<exists>r w'. Reserve 2 direct_client (Some (\<lambda>i v. (Inr \<lparr>ID = i, Balance = \<lparr>units = 50000\<rparr>, CreatedAt = 0, UpdatedAt = 0\<rparr>, v)))
      9 12000 ''m'' credit_example = Some (r, w') \<and> (\<forall>rem. r = Inr rem \<longrightarrow> rem = 38000)"
proof -
  have "balanceKey 9 \<noteq> balanceKey 7" using balanceKey_inj [of 9 7] by (auto simp: in_int64_def)
  then show ?thesis
    using reserve_loads_balance [OF direct_client_ok, of credit_example 9 "''m''" 12000
      "\<lambda>i v. (Inr \<lparr>ID = i, Balance = \<lparr>units = 50000\<rparr>, CreatedAt = 0, UpdatedAt = 0\<rparr>, v)" 50000 0]
    by (auto simp: credit_example_def numeral_2_eq_2 simp del: Reserve.simps)
qed

text \<open>
  Releasing a reservation. If \<^verbatim>\<open>Reserve\<close> succeeded, a successful \<^verbatim>\<open>Refund\<close> restores every key to
  what it was; a second \<^verbatim>\<open>Refund\<close>, or a \<^verbatim>\<open>Refund\<close> after a \<^verbatim>\<open>Commit\<close>, returns nothing.
\<close>

theorem refund_restores_once:
  assumes "redis_client_ok eval red frame" "money_key (red w) (balanceKey i)" "money_key (red w) (reservationKey m)"
    "0 \<le> a" "a < 2 ^ 52" "available (red w) i = Some n"
    "Reserve (Suc fuel) eval loader i a m w = Some (Inr rem, w1)"
    "Refund eval i m w1 = (None, w2)" "Refund eval i m w2 = (r3, w3)"
    "Commit eval m w1 = (None, v2)" "Refund eval i m v2 = (r4, v3)"
  shows "keys (red w2) = keys (red w) \<and> keys (red w3) = keys (red w)
    \<and> keys (red v3) = (keys (red w))(balanceKey i \<mapsto> RStr (FormatInt (n - a)))"
proof -
  have k1: "a \<le> n" "held (red w) m = None" "keys (red w1) = reserved_keys (red w) i m n a"
    using Reserve_initialized [OF assms(1-6), of fuel loader] assms(7) by (auto simp del: Reserve.simps)
  obtain n' where n: "keys (red w) (balanceKey i) = Some (RStr (FormatInt n))" "n < 2 ^ 52"
    using assms(2,6) by (auto elim: money_key_cases)
  have none: "keys (red w) (reservationKey m) = None" using assms(3) k1(2) by (auto elim: money_key_cases)
  have small: "n - a < 2 ^ 52" "in_int64 (n - a)" "in_int64 a" using n(2) k1(1) assms(4,5) by (simp_all add: in_int64_def)
  have m1: "money_key (red w1) (balanceKey i)" "money_key (red w1) (reservationKey m)"
    "available (red w1) i = Some (n - a)" "held (red w1) m = Some a"
    using k1 small assms(4,5) money_keyI [of "red w1" "balanceKey i" "n - a"] money_keyI [of "red w1" "reservationKey m" a]
    by (simp_all add: reserved_keys_def)
  have k2: "keys (red w2) = keys (red w)"
    using Refund_effect [OF assms(1) m1(1,2) assms(8)] m1(3,4) k1(3) n(1) none
    by (simp add: reserved_keys_def fun_upd_idem fun_upd_twist)
  then have m2: "money_key (red w2) (balanceKey i)" "money_key (red w2) (reservationKey m)" "held (red w2) m = None"
    using assms(2,3) none by (simp_all add: money_key_def num_at_def)
  have k3: "keys (red w3) = keys (red w2)" using Refund_effect [OF assms(1) m2(1,2) assms(9)] m2(3) by auto
  have c2: "keys (red v2) = (keys (red w))(balanceKey i \<mapsto> RStr (FormatInt (n - a)))"
    using Commit_effect [OF assms(1,10)] k1(3) none by (simp add: reserved_keys_def fun_upd_idem fun_upd_twist)
  then have mv: "money_key (red v2) (balanceKey i)" "money_key (red v2) (reservationKey m)" "held (red v2) m = None"
    using none small k1(1) money_keyI [of "red v2" "balanceKey i" "n - a"] by (simp_all add: money_key_def)
  have "keys (red v3) = keys (red v2)" using Refund_effect [OF assms(1) mv(1,2) assms(11)] mv(3) by auto
  with k2 k3 c2 show ?thesis by simp
qed

lemma direct_reserve_example:
  obtains w1 where "Reserve (Suc 0) direct_client None 7 12000 ''m'' credit_example = Some (Inr 18000, w1)"
    "keys w1 = reserved_keys credit_example 7 ''m'' 30000 12000"
  using reserve_run [OF credit_example_keys(1,2), of 12000 "''m''"] credit_example_keys(3,4)
  by (simp add: direct_client_def reserved_keys_def)

lemma direct_refund:
  assumes "money_key r (balanceKey i)" "money_key r (reservationKey m)"
  shows "fst (Refund direct_client i m r) = None"
  using refund_run [OF assms] by (simp add: Refund_def direct_client_def split: option.splits)

theorem refund_restores_once_witness:
  "\<exists>w1. Reserve 1 direct_client None 7 12000 ''m'' credit_example = Some (Inr 18000, w1)
    \<and> keys (snd (Refund direct_client 7 ''m'' w1)) = keys credit_example
    \<and> keys (snd (Refund direct_client 7 ''m'' (snd (Commit direct_client ''m'' w1))))
      = [balanceKey 7 \<mapsto> RStr (FormatInt 18000)]"
proof -
  obtain w1 where w1: "Reserve (Suc 0) direct_client None 7 12000 ''m'' credit_example = Some (Inr 18000, w1)"
    and k: "keys w1 = reserved_keys credit_example 7 ''m'' 30000 12000" by (rule direct_reserve_example)
  have mk: "money_key w1 (balanceKey 7)" "money_key w1 (reservationKey ''m'')"
    using k money_keyI [of w1 "balanceKey 7" 18000] money_keyI [of w1 "reservationKey ''m''" 12000]
    by (simp_all add: reserved_keys_def)
  obtain w2 where w2: "Refund direct_client 7 ''m'' w1 = (None, w2)" using direct_refund [OF mk] by (metis prod.collapse)
  obtain r3 w3 where w3: "Refund direct_client 7 ''m'' w2 = (r3, w3)" by fastforce
  obtain v2 where v2: "Commit direct_client ''m'' w1 = (None, v2)" by (simp add: Commit_def direct_client_def commit_run)
  obtain r4 v3 where v3: "Refund direct_client 7 ''m'' v2 = (r4, v3)" by fastforce
  from refund_restores_once [OF direct_client_ok credit_example_keys(1,2) _ _ credit_example_keys(3) w1 w2 w3 v2 v3] w1 w2 v2 v3
  show ?thesis by (simp add: credit_example_def del: Reserve.simps)
qed

text \<open>
  C3: credit is neither lost nor made up. Whatever calls of \<^verbatim>\<open>Reserve\<close>, \<^verbatim>\<open>Commit\<close> and \<^verbatim>\<open>Refund\<close> have happened for a wallet whose
  available credit started at \<open>B\<close>, by whatever processes and with errors of the client at any point, the credit still
  available, all outstanding reservations and what commits have spent are together exactly \<open>B\<close>, and none
  of them is negative. (A top-up overwrites the available credit and is no call of such a run.)
\<close>

theorem credit_never_overspent:
  assumes "credit_run eval red i w0 w M s" "redis_client_ok eval red frame"
    "keys (red w0) (balanceKey i) = Some (RStr (FormatInt B))" "\<forall>m. money_key (red w0) (reservationKey m)"
    "0 \<le> B" "B < 2 ^ 52"
  shows "\<exists>n. available (red w) i = Some n \<and> 0 \<le> n \<and> 0 \<le> s \<and> (\<forall>m a. held (red w) m = Some a \<longrightarrow> 0 \<le> a)
    \<and> n + (\<Sum>m \<in> M. case held (red w) m of None \<Rightarrow> 0 | Some a \<Rightarrow> a) + s = B"
proof -
  have "credit_inv (red w0) i {} B" using assms(3-5) by (auto simp: credit_inv_def)
  from credit_run_inv [OF assms(1,2) this assms(6)] have inv: "credit_inv (red w) i M (B - s)" "0 \<le> s" by auto
  then obtain n where n: "available (red w) i = Some n" "0 \<le> n" "n + (\<Sum>m \<in> M. amount_held (red w) m) = B - s" "\<And>m. money_key (red w) (reservationKey m)"
    using credit_invE [OF inv(1)] assms(6) by (metis diff_ge_0_iff_ge diff_le_eq le_add_same_cancel1 order_le_less_trans)
  have "0 \<le> a" if "held (red w) m = Some a" for m a using amount_held_nonneg [OF n(4), of m] that by (simp add: amount_held_def)
  with n inv(2) show ?thesis unfolding amount_held_def by auto
qed

theorem credit_never_overspent_witness:
  "\<exists>w1 w2 n. Reserve 1 direct_client None 7 12000 ''m'' credit_example = Some (Inr 18000, w1) \<and> Commit direct_client ''m'' w1 = (None, w2)
    \<and> available w2 7 = Some n \<and> n + 12000 = 30000"
proof -
  obtain w1 where w1: "Reserve (Suc 0) direct_client None 7 12000 ''m'' credit_example = Some (Inr 18000, w1)"
    and k: "keys w1 = reserved_keys credit_example 7 ''m'' 30000 12000" by (rule direct_reserve_example)
  have 1: "credit_run direct_client (\<lambda>s. s) 7 credit_example w1 {''m''} 0"
    using credit_run.reserve [OF credit_run.start _ _ w1, where red = "\<lambda>s. s"] by (simp add: credit_example_def del: Reserve.simps)
  obtain w2 where w2: "Commit direct_client ''m'' w1 = (None, w2)" by (simp add: Commit_def direct_client_def commit_run)
  have h: "amount_held w1 ''m'' = 12000" using k by (simp add: amount_held_def reserved_keys_def num_at_def in_int64_def)
  have k2: "keys w2 (reservationKey ''m'') = None" using Commit_effect [OF direct_client_ok w2] by auto
  then have z: "amount_held w2 ''m'' = 0" by (simp add: amount_held_def num_at_def)
  have 2: "credit_run direct_client (\<lambda>s. s) 7 credit_example w2 {''m''} 12000"
    using credit_run.commit [OF 1 _ w2] h z by simp
  have "held w2 ''m'' = None" using k2 by (simp add: num_at_def)
  with credit_never_overspent [OF 2 direct_client_ok, of 30000] w1 w2 credit_example_keys(2) show ?thesis
    by (auto simp: credit_example_def simp del: Reserve.simps)
qed

end
