(* ===== verification/ReservationContract.thy ===== *)
theory ReservationContract
  imports CreditRuns
begin

text \<open>
  The Go interface \<^verbatim>\<open>ReservationStore\<close> (\<^verbatim>\<open>internal/application/sms/service.go\<close>) as a record of
  functions, the contract the service and the worker rely on, and the proof that the Redis
  store keeps it. \<open>credit\<close> is what a store holds: the available credit per wallet and the
  amount held per message.
\<close>

section \<open>The interface\<close>

text \<open>\<^verbatim>\<open>Reserve\<close> may fail to return, which is \<open>None\<close>.\<close>

record 'w ReservationStore =
  rs_Reserve :: "int \<Rightarrow> int \<Rightarrow> string \<Rightarrow> 'w \<Rightarrow> ((error + int) \<times> 'w) option"
  rs_IsReserved :: "string \<Rightarrow> 'w \<Rightarrow> (error + bool) \<times> 'w"
  rs_Commit :: "string \<Rightarrow> 'w \<Rightarrow> error option \<times> 'w"
  rs_Refund :: "int \<Rightarrow> string \<Rightarrow> 'w \<Rightarrow> error option \<times> 'w"

record credit =
  c_avail :: "int \<Rightarrow> int option"
  c_held :: "string \<Rightarrow> int option"

definition reserve_credit :: "int \<Rightarrow> string \<Rightarrow> int \<Rightarrow> int \<Rightarrow> credit \<Rightarrow> credit" where
  "reserve_credit i m n a c = c\<lparr>c_avail := (c_avail c)(i \<mapsto> n - a), c_held := (c_held c)(m \<mapsto> a)\<rparr>"

definition refund_credit :: "int \<Rightarrow> string \<Rightarrow> int \<Rightarrow> credit \<Rightarrow> credit" where
  "refund_credit i m n c = (case c_held c m of None \<Rightarrow> c
    | Some a \<Rightarrow> c\<lparr>c_avail := (c_avail c)(i \<mapsto> n + a), c_held := (c_held c)(m := None)\<rparr>)"

definition commit_credit :: "string \<Rightarrow> credit \<Rightarrow> credit" where
  "commit_credit m c = c\<lparr>c_held := (c_held c)(m := None)\<rparr>"

section \<open>The contract\<close>

locale reservation_store =
  fixes R :: "'w ReservationStore" and cred :: "'w \<Rightarrow> credit" and ok :: "'w \<Rightarrow> bool" and other :: "'w \<Rightarrow> 'o"
  assumes reserve_law: "ok w \<Longrightarrow> c_avail (cred w) i = Some n \<Longrightarrow> 0 \<le> a \<Longrightarrow> a < 2 ^ 52 \<Longrightarrow>
      \<exists>r w'. rs_Reserve R i a m w = Some (r, w') \<and> ok w' \<and> other w' = other w
        \<and> (case r of
            Inr rem \<Rightarrow> rem = n - a \<and> a \<le> n \<and> c_held (cred w) m = None \<and> cred w' = reserve_credit i m n a (cred w)
          | Inl e \<Rightarrow> cred w' = cred w \<or> a \<le> n \<and> c_held (cred w) m = None \<and> cred w' = reserve_credit i m n a (cred w))"
    and is_reserved_law: "ok w \<Longrightarrow> rs_IsReserved R m w = (rb, w') \<Longrightarrow>
      ok w' \<and> other w' = other w \<and> cred w' = cred w \<and> (\<forall>b. rb = Inr b \<longrightarrow> b = (c_held (cred w) m \<noteq> None))"
    and commit_law: "ok w \<Longrightarrow> rs_Commit R m w = (ro, w') \<Longrightarrow>
      ok w' \<and> other w' = other w \<and> (cred w' = commit_credit m (cred w) \<or> ro \<noteq> None \<and> cred w' = cred w)"
    and refund_law: "ok w \<Longrightarrow> c_avail (cred w) i = Some n \<Longrightarrow> (\<forall>a. c_held (cred w) m = Some a \<longrightarrow> n + a < 2 ^ 52) \<Longrightarrow>
      rs_Refund R i m w = (ro, w') \<Longrightarrow>
      ok w' \<and> other w' = other w \<and> (cred w' = refund_credit i m n (cred w) \<or> ro \<noteq> None \<and> cred w' = cred w)"

section \<open>The Redis store keeps it\<close>

definition redis_reservations :: "nat \<Rightarrow> 'w redis_client \<Rightarrow> 'w loader option \<Rightarrow> 'w ReservationStore" where
  "redis_reservations fuel eval loader = \<lparr>rs_Reserve = Reserve fuel eval loader, rs_IsReserved = IsReserved eval,
    rs_Commit = Commit eval, rs_Refund = Refund eval\<rparr>"

definition redis_credit :: "redis_state \<Rightarrow> credit" where
  "redis_credit r = \<lparr>c_avail = available r, c_held = held r\<rparr>"

definition redis_credit_ok :: "redis_state \<Rightarrow> bool" where
  "redis_credit_ok r \<longleftrightarrow> (\<forall>i. money_key r (balanceKey i)) \<and> (\<forall>m. money_key r (reservationKey m))"

lemma FormatInt_inj_all: "FormatInt m = FormatInt n \<Longrightarrow> m = n"
proof -
  have d: "show_nat k \<noteq> CHR ''-'' # s" for k s
    using hd_show_nat_digit [of k] by (auto simp: is_digit_def)
  assume "FormatInt m = FormatInt n"
  then show ?thesis by (auto simp: FormatInt_def dest!: show_nat_inj split: if_splits simp: d d [symmetric])
qed

lemma balanceKey_eq [simp]: "balanceKey i = balanceKey j \<longleftrightarrow> i = j"
  by (auto simp: balanceKey_def dest: FormatInt_inj_all)

lemma num_at_upd: "keys r' = (keys r)(k \<mapsto> RStr (FormatInt n)) \<Longrightarrow> in_int64 n \<Longrightarrow>
  num_at r' x = (if x = k then Some n else num_at r x)"
  by (simp add: num_at_def)

lemma redis_credit_keys: "keys r' = keys r \<Longrightarrow> redis_credit r' = redis_credit r \<and> redis_credit_ok r' = redis_credit_ok r"
  by (simp add: redis_credit_def redis_credit_ok_def num_at_def money_key_def)

lemma redis_reserved:
  assumes "redis_credit_ok r" "0 \<le> a" "a \<le> n" "a < 2 ^ 52" "available r i = Some n" "keys r' = reserved_keys r i m n a"
  shows "redis_credit_ok r' \<and> redis_credit r' = reserve_credit i m n a (redis_credit r)"
proof -
  have n: "n < 2 ^ 52" using assms(1,5) money_key_bounds [of r "balanceKey i" n] by (simp add: redis_credit_ok_def)
  have "money_key r' (balanceKey j)" for j
    using assms n money_keyI [of r' "balanceKey j" "n - a"] by (cases "j = i") (auto simp: redis_credit_ok_def reserved_keys_def money_key_def)
  moreover have "money_key r' (reservationKey x)" for x
    using assms n money_keyI [of r' "reservationKey x" a] by (cases "x = m") (auto simp: redis_credit_ok_def reserved_keys_def money_key_def)
  moreover have "in_int64 (n - a)" "in_int64 a" using assms(2-4) n by (simp_all add: in_int64_def)
  then have "available r' = (available r)(i \<mapsto> n - a)" "held r' = (held r)(m \<mapsto> a)"
    using assms(6) by (auto simp: fun_eq_iff reserved_keys_def num_at_def)
  ultimately show ?thesis by (simp add: redis_credit_ok_def redis_credit_def reserve_credit_def)
qed

lemma redis_refunded:
  assumes "redis_credit_ok r" "available r i = Some n" "held r m = Some a" "n + a < 2 ^ 52"
    "keys r' = (keys r)(balanceKey i \<mapsto> RStr (FormatInt (n + a)), reservationKey m := None)"
  shows "redis_credit_ok r' \<and> redis_credit r' = refund_credit i m n (redis_credit r)"
proof -
  have n: "0 \<le> n" "0 \<le> a" using assms(1-3) money_key_bounds [of r "balanceKey i" n] money_key_bounds [of r "reservationKey m" a]
    by (simp_all add: redis_credit_ok_def)
  have "money_key r' (balanceKey j)" for j
    using assms n money_keyI [of r' "balanceKey j" "n + a"] by (cases "j = i") (auto simp: redis_credit_ok_def money_key_def)
  moreover have "money_key r' (reservationKey x)" for x
    using assms by (cases "x = m") (auto simp: redis_credit_ok_def money_key_def)
  moreover have "in_int64 (n + a)" using assms(4) n by (simp add: in_int64_def)
  then have "available r' = (available r)(i \<mapsto> n + a)" "held r' = (held r)(m := None)"
    using assms(5) by (auto simp: fun_eq_iff num_at_def)
  ultimately show ?thesis using assms(3) by (simp add: redis_credit_ok_def redis_credit_def refund_credit_def)
qed

lemma redis_committed:
  assumes "redis_credit_ok r" "keys r' = (keys r)(reservationKey m := None)"
  shows "redis_credit_ok r' \<and> redis_credit r' = commit_credit m (redis_credit r)"
  using assms by (auto simp: redis_credit_ok_def redis_credit_def commit_credit_def money_key_def num_at_def fun_eq_iff)

lemma redis_reservation_store:
  assumes c: "redis_client_ok eval red frame"
  shows "reservation_store (redis_reservations (Suc fuel) eval loader) (\<lambda>w. redis_credit (red w)) (\<lambda>w. redis_credit_ok (red w)) frame"
proof
  fix w i n a m w' rb ro
  assume ok: "redis_credit_ok (red w)"
  then have mk: "money_key (red w) (balanceKey i)" "money_key (red w) (reservationKey m)" for i m
    by (auto simp: redis_credit_ok_def)
  show "c_avail (redis_credit (red w)) i = Some n \<Longrightarrow> 0 \<le> a \<Longrightarrow> a < 2 ^ 52 \<Longrightarrow>
      \<exists>r w'. rs_Reserve (redis_reservations (Suc fuel) eval loader) i a m w = Some (r, w') \<and> redis_credit_ok (red w') \<and> frame w' = frame w
        \<and> (case r of
            Inr rem \<Rightarrow> rem = n - a \<and> a \<le> n \<and> c_held (redis_credit (red w)) m = None
              \<and> redis_credit (red w') = reserve_credit i m n a (redis_credit (red w))
          | Inl e \<Rightarrow> redis_credit (red w') = redis_credit (red w) \<or> a \<le> n \<and> c_held (redis_credit (red w)) m = None
              \<and> redis_credit (red w') = reserve_credit i m n a (redis_credit (red w)))"
  proof -
    assume a: "c_avail (redis_credit (red w)) i = Some n" "0 \<le> a" "a < 2 ^ 52"
    then have av: "available (red w) i = Some n" by (simp add: redis_credit_def)
    obtain r w' where r: "Reserve (Suc fuel) eval loader i a m w = Some (r, w')" "frame w' = frame w"
      and k: "case r of
         Inr rem \<Rightarrow> rem = n - a \<and> a \<le> n \<and> held (red w) m = None \<and> keys (red w') = reserved_keys (red w) i m n a
       | Inl e \<Rightarrow> keys (red w') = keys (red w) \<or> a \<le> n \<and> held (red w) m = None \<and> keys (red w') = reserved_keys (red w) i m n a"
      using Reserve_outcome [OF c mk(1) [of i] mk(2) [of m] a(2,3) av, of fuel loader] by blast
    show ?thesis
      using r k ok redis_credit_keys [of "red w'" "red w"] redis_reserved [OF ok a(2) _ a(3) av, of "red w'" m]
      by (auto simp: redis_reservations_def redis_credit_def split: sum.splits simp del: Reserve.simps)
  qed
  show "rs_IsReserved (redis_reservations (Suc fuel) eval loader) m w = (rb, w') \<Longrightarrow>
      redis_credit_ok (red w') \<and> frame w' = frame w \<and> redis_credit (red w') = redis_credit (red w)
        \<and> (\<forall>b. rb = Inr b \<longrightarrow> b = (c_held (redis_credit (red w)) m \<noteq> None))"
    using IsReserved_effect [OF c, of m w rb w'] redis_credit_keys [of "red w'" "red w"] ok
      money_key_None [OF mk(2) [of m]]
    by (auto simp: redis_reservations_def redis_credit_def)
  show "rs_Commit (redis_reservations (Suc fuel) eval loader) m w = (ro, w') \<Longrightarrow>
      redis_credit_ok (red w') \<and> frame w' = frame w \<and> (redis_credit (red w') = commit_credit m (redis_credit (red w))
        \<or> ro \<noteq> None \<and> redis_credit (red w') = redis_credit (red w))"
    using Commit_effect [OF c, of m w ro w'] redis_credit_keys [of "red w'" "red w"] ok redis_committed [OF ok, of "red w'" m]
    by (auto simp: redis_reservations_def)
  show "c_avail (redis_credit (red w)) i = Some n \<Longrightarrow>
      (\<forall>a. c_held (redis_credit (red w)) m = Some a \<longrightarrow> n + a < 2 ^ 52) \<Longrightarrow>
      rs_Refund (redis_reservations (Suc fuel) eval loader) i m w = (ro, w') \<Longrightarrow>
      redis_credit_ok (red w') \<and> frame w' = frame w \<and> (redis_credit (red w') = refund_credit i m n (redis_credit (red w))
        \<or> ro \<noteq> None \<and> redis_credit (red w') = redis_credit (red w))"
  proof -
    assume a: "c_avail (redis_credit (red w)) i = Some n" "\<forall>a. c_held (redis_credit (red w)) m = Some a \<longrightarrow> n + a < 2 ^ 52"
      "rs_Refund (redis_reservations (Suc fuel) eval loader) i m w = (ro, w')"
    then have av: "available (red w) i = Some n" by (simp add: redis_credit_def)
    show ?thesis
      using Refund_effect [OF c mk(1) [of i] mk(2) [of m], of ro w'] a av redis_credit_keys [of "red w'" "red w"] ok
        redis_refunded [OF ok av _ _, of m _ "red w'"]
      by (cases "held (red w) m") (auto simp: redis_reservations_def redis_credit_def refund_credit_def)
  qed
qed

interpretation redis_store: reservation_store "redis_reservations (Suc fuel) direct_client loader" redis_credit redis_credit_ok "\<lambda>_. ()"
  for fuel loader
  by (rule redis_reservation_store [OF direct_client_ok])

end
