(* ===== verification/SmsService.thy ===== *)
theory SmsService
  imports Repositories ReservationContract
begin

text \<open>
  The service that accepts an SMS (\<^verbatim>\<open>internal/application/sms/service.go\<close>, \<^verbatim>\<open>dto.go\<close>): validation, the
  bounded number of requests in flight per line, the price, the reservation of credit (or, in
  the legacy flow, the debit) and the outbox row that makes the message durable.
\<close>

section \<open>Data\<close>

record SendSMSCommand =
  cmd_Line :: LineType
  cmd_Dest :: Destination
  cmd_ChannelName :: string
  cmd_Message :: string

record SendSMSResult =
  res_MessageID :: string
  res_Cost :: float64
  res_RemainingBal :: float64

record SendSMSRequest =
  req_Line :: string
  req_Dest :: string
  req_Channel :: string
  req_Message :: string

record SendSMSResponse =
  rsp_Accepted :: bool
  rsp_MessageID :: string
  rsp_Cost :: float64
  rsp_RemainingBalance :: float64
  rsp_Channel :: string
  rsp_Line :: string
  rsp_Dest :: string
  rsp_Message :: string

definition ToCommand :: "SendSMSRequest \<Rightarrow> SendSMSCommand" where
  "ToCommand req = \<lparr>cmd_Line = req_Line req, cmd_Dest = req_Dest req, cmd_ChannelName = req_Channel req,
    cmd_Message = req_Message req\<rparr>"

definition ToResponse :: "SendSMSRequest \<Rightarrow> SendSMSResult \<Rightarrow> SendSMSResponse" where
  "ToResponse req result = \<lparr>rsp_Accepted = True, rsp_MessageID = res_MessageID result, rsp_Cost = res_Cost result,
    rsp_RemainingBalance = res_RemainingBal result, rsp_Channel = req_Channel req, rsp_Line = req_Line req,
    rsp_Dest = req_Dest req, rsp_Message = req_Message req\<rparr>"

text \<open>
  The clock and the random numbers of the process: \<^verbatim>\<open>time.Now\<close> and \<^verbatim>\<open>rand.Intn\<close> are functions on the
  world that change nothing that is observed of it.
\<close>

record 'w runtime =
  Now :: "'w \<Rightarrow> time \<times> 'w"
  Intn :: "int \<Rightarrow> 'w \<Rightarrow> int \<times> 'w"

definition runtime_ok :: "'w runtime \<Rightarrow> ('w \<Rightarrow> 'f) \<Rightarrow> bool" where
  "runtime_ok rt obs \<longleftrightarrow> (\<forall>w n. obs (snd (Now rt w)) = obs w \<and> obs (snd (Intn rt n w)) = obs w
    \<and> (0 < n \<longrightarrow> 0 \<le> fst (Intn rt n w) \<and> fst (Intn rt n w) < n))"

section \<open>The service\<close>

text \<open>
  The acceptor has the type \<^verbatim>\<open>any\<close>; each of the two type assertions of \<^verbatim>\<open>Execute\<close> succeeds if the value
  has the method, which is \<open>Some\<close>. A slot channel is its capacity here and the number of its
  elements in \<open>slots\<close>.
\<close>

record 'w Service =
  channelRepo :: "string \<Rightarrow> 'w \<Rightarrow> (error + Channel) \<times> 'w"
  acceptor_DeductAndEnqueue :: "(int \<Rightarrow> Money \<Rightarrow> DeliveryEvent \<Rightarrow> string \<Rightarrow> 'w \<Rightarrow> (error + Wallet) \<times> 'w) option"
  acceptor_Enqueue :: "(DeliveryEvent \<Rightarrow> string \<Rightarrow> 'w \<Rightarrow> error option \<times> 'w) option"
  costRepo :: "LineType \<Rightarrow> 'w \<Rightarrow> (error + SMSCost) \<times> 'w"
  expressSLA :: duration
  expressSlots :: int
  normalSlots :: int
  reservations :: "'w ReservationStore option"

record slots =
  express_used :: int
  normal_used :: int

definition no_slots :: slots where
  "no_slots = \<lparr>express_used = 0, normal_used = 0\<rparr>"

text \<open>\<^verbatim>\<open>make(chan struct{}, n)\<close> panics for a negative size.\<close>

definition make_service ::
  "(string \<Rightarrow> 'w \<Rightarrow> (error + Channel) \<times> 'w) \<Rightarrow>
   (int \<Rightarrow> Money \<Rightarrow> DeliveryEvent \<Rightarrow> string \<Rightarrow> 'w \<Rightarrow> (error + Wallet) \<times> 'w) option \<Rightarrow>
   (DeliveryEvent \<Rightarrow> string \<Rightarrow> 'w \<Rightarrow> error option \<times> 'w) option \<Rightarrow>
   (LineType \<Rightarrow> 'w \<Rightarrow> (error + SMSCost) \<times> 'w) \<Rightarrow> 'w ReservationStore option \<Rightarrow> duration \<Rightarrow> int \<Rightarrow> int \<Rightarrow> error + 'w Service" where
  "make_service chans deduct enqueue costs res sla expressLimit normalLimit =
    (if expressLimit < 0 \<or> normalLimit < 0 then Inl (Panicked (NewError ''makechan: size out of range''))
     else Inr \<lparr>channelRepo = chans, acceptor_DeductAndEnqueue = deduct, acceptor_Enqueue = enqueue, costRepo = costs,
       expressSLA = sla, expressSlots = expressLimit, normalSlots = normalLimit, reservations = res\<rparr>)"

text \<open>
  The acceptor of the legacy constructors has \<^verbatim>\<open>DeductAndEnqueue\<close> and may have \<^verbatim>\<open>Enqueue\<close> too; the
  acceptor of the constructor with reservations the other way round.
\<close>

definition NewServiceWithPolicy where
  "NewServiceWithPolicy chans deduct enqueue costs sla expressLimit normalLimit =
    make_service chans (Some deduct) enqueue costs None sla expressLimit normalLimit"

definition NewServiceWithExpressSLA where
  "NewServiceWithExpressSLA chans deduct enqueue costs sla = NewServiceWithPolicy chans deduct enqueue costs sla 100 20"

definition NewService where
  "NewService chans deduct enqueue costs = NewServiceWithPolicy chans deduct enqueue costs (5 * second_ns) 100 20"

definition NewServiceWithReservation where
  "NewServiceWithReservation chans deduct enqueue costs res sla expressLimit normalLimit =
    make_service chans deduct (Some enqueue) costs (Some res) sla expressLimit normalLimit"

definition svc_acquire :: "'w Service \<Rightarrow> LineType \<Rightarrow> slots \<Rightarrow> bool \<times> slots" where
  "svc_acquire S line sl =
    (if line = LineTypeExpress
     then (if express_used sl < expressSlots S then (True, sl\<lparr>express_used := express_used sl + 1\<rparr>) else (False, sl))
     else (if normal_used sl < normalSlots S then (True, sl\<lparr>normal_used := normal_used sl + 1\<rparr>) else (False, sl)))"

text \<open>Receiving from an empty channel blocks, which is \<open>None\<close>.\<close>

definition svc_release :: "LineType \<Rightarrow> slots \<Rightarrow> slots option" where
  "svc_release line sl =
    (if line = LineTypeExpress
     then (if 0 < express_used sl then Some (sl\<lparr>express_used := express_used sl - 1\<rparr>) else None)
     else (if 0 < normal_used sl then Some (sl\<lparr>normal_used := normal_used sl - 1\<rparr>) else None))"

definition UnixMilli :: "time \<Rightarrow> int" where
  "UnixMilli t = (t - 62135596800 * second_ns) div 1000000"

definition generateMessageID :: "'w runtime \<Rightarrow> 'w \<Rightarrow> string \<times> 'w" where
  "generateMessageID rt w = (case Now rt w of (t, w1) \<Rightarrow> case Intn rt 1000000 w1 of (n, w2) \<Rightarrow>
    (''SMS-'' @ FormatInt (UnixMilli t) @ ''-'' @ pad 6 (nat n), w2))"

definition new_event :: "'w Service \<Rightarrow> SendSMSCommand \<Rightarrow> Channel \<Rightarrow> Money \<Rightarrow> string \<Rightarrow> time \<Rightarrow> DeliveryEvent" where
  "new_event S cmd ch cost messageID now =
    (let event = \<lparr>ev_MessageID = messageID, ev_WalletID = ch_WalletID ch, ev_Destination = cmd_Dest cmd, ev_Message = cmd_Message cmd,
       ev_Line = cmd_Line cmd, ev_ChannelName = cmd_ChannelName cmd, ev_CostUnits = units cost, ev_CreatedAt = now, ev_DeadlineAt = zero_time\<rparr>
     in if cmd_Line cmd = LineTypeExpress then event\<lparr>ev_DeadlineAt := now + expressSLA S\<rparr> else event)"

definition accept_reserved ::
  "'w Service \<Rightarrow> 'w ReservationStore \<Rightarrow> Channel \<Rightarrow> Money \<Rightarrow> DeliveryEvent \<Rightarrow> string \<Rightarrow> 'w \<Rightarrow> ((error + SendSMSResult) \<times> 'w) option" where
  "accept_reserved S R ch cost event description w =
    (case rs_Reserve R (ch_WalletID ch) (units cost) (ev_MessageID event) w of
       None \<Rightarrow> None
     | Some (Inl err, w1) \<Rightarrow> Some (Inl (wrap_panic ''reserve SMS credit: '' err), w1)
     | Some (Inr remaining, w1) \<Rightarrow>
         (case acceptor_Enqueue S of
            None \<Rightarrow> (case rs_Refund R (ch_WalletID ch) (ev_MessageID event) w1 of (_, w2) \<Rightarrow>
              Some (Inl (NewError ''SMS acceptor does not support reservation enqueue''), w2))
          | Some enqueue \<Rightarrow> (case enqueue event description w1 of
              (Some err, w2) \<Rightarrow> (case rs_Refund R (ch_WalletID ch) (ev_MessageID event) w2 of (_, w3) \<Rightarrow>
                Some (Inl (Wrapf ''enqueue SMS: '' err []), w3))
            | (None, w2) \<Rightarrow> Some (Inr \<lparr>res_MessageID = ev_MessageID event, res_Cost = Float64 cost,
                res_RemainingBal = fdiv_pos (float64_of_int remaining) 10000\<rparr>, w2))))"

definition accept_legacy ::
  "'w Service \<Rightarrow> Channel \<Rightarrow> Money \<Rightarrow> DeliveryEvent \<Rightarrow> string \<Rightarrow> 'w \<Rightarrow> (error + SendSMSResult) \<times> 'w" where
  "accept_legacy S ch cost event description w = (case acceptor_DeductAndEnqueue S of
     None \<Rightarrow> (Inl (NewError ''SMS acceptor does not support legacy enqueue''), w)
   | Some deduct \<Rightarrow> (case deduct (ch_WalletID ch) cost event description w of
       (Inl err, w1) \<Rightarrow> (Inl (wrap_panic ''accept SMS: '' err), w1)
     | (Inr wal, w1) \<Rightarrow> (Inr \<lparr>res_MessageID = ev_MessageID event, res_Cost = Float64 cost,
         res_RemainingBal = Float64 (Balance wal)\<rparr>, w1)))"

text \<open>The part of \<^verbatim>\<open>Execute\<close> that runs while the request holds its slot.\<close>

definition accept :: "'w runtime \<Rightarrow> 'w Service \<Rightarrow> SendSMSCommand \<Rightarrow> 'w \<Rightarrow> ((error + SendSMSResult) \<times> 'w) option" where
  "accept rt S cmd w = (case channelRepo S (cmd_ChannelName cmd) w of
     (Inl err, w1) \<Rightarrow> Some (Inl (Wrapf ''channel not found: '' err []), w1)
   | (Inr ch, w1) \<Rightarrow>
     if \<not> ch_IsActive ch
     then Some (Inl (NewError (''channel '' @ [CHR 0x27] @ cmd_ChannelName cmd @ [CHR 0x27] @ '' is inactive'')), w1)
     else (case costRepo S (cmd_Line cmd) w1 of
       (Inl err, w2) \<Rightarrow> Some (Inl (Wrapf (''cost not found for line type '' @ [CHR 0x27] @ cmd_Line cmd @ [CHR 0x27] @ '': '') err []), w2)
     | (Inr costRecord, w2) \<Rightarrow> (case NewMoney (cost_Cost costRecord) of
         Inl err \<Rightarrow> Some (Inl (NewError ''invalid configured cost''), w2)
       | Inr cost \<Rightarrow>
         if \<not> IsPositive cost then Some (Inl (NewError ''invalid configured cost''), w2)
         else case generateMessageID rt w2 of (messageID, w3) \<Rightarrow> (case Now rt w3 of (now, w4) \<Rightarrow>
           let event = new_event S cmd ch cost messageID now;
               description = ''SMS via '' @ cmd_ChannelName cmd @ '' ('' @ cmd_Line cmd @ '') to '' @ cmd_Dest cmd
           in (case reservations S of
                 Some R \<Rightarrow> accept_reserved S R ch cost event description w4
               | None \<Rightarrow> Some (accept_legacy S ch cost event description w4))))))"

definition Execute ::
  "'w runtime \<Rightarrow> 'w Service \<Rightarrow> SendSMSCommand \<Rightarrow> slots \<Rightarrow> 'w \<Rightarrow> ((error + SendSMSResult) \<times> slots \<times> 'w) option" where
  "Execute rt S cmd sl w =
    (if \<not> LineType_IsValid (cmd_Line cmd) then Some (Inl (NewError (''invalid line type: '' @ cmd_Line cmd)), sl, w)
     else if \<not> Destination_IsValid (cmd_Dest cmd) then Some (Inl (NewError ''destination is required''), sl, w)
     else if \<not> IsMessageValid (cmd_Message cmd)
     then Some (Inl (NewError ''message is required and must be at most 1600 characters''), sl, w)
     else case svc_acquire S (cmd_Line cmd) sl of
       (False, sl1) \<Rightarrow> Some (Inl (Wrapf [] ErrLineOverloaded ('': '' @ cmd_Line cmd)), sl1, w)
     | (True, sl1) \<Rightarrow> (case accept rt S cmd w of
         None \<Rightarrow> None
       | Some (r, w1) \<Rightarrow> (case svc_release (cmd_Line cmd) sl1 of None \<Rightarrow> None | Some sl2 \<Rightarrow> Some (r, sl2, w1))))"

end
