(* ===== verification/CreditFlow.thy ===== *)
theory CreditFlow
  imports Database ReservationContract
begin

text \<open>
  The reservation flow uses the database and the reservation store side by side: neither
  changes what the other one holds. The locale \<open>credit_flow\<close> joins the two contracts; the service
  and the worker are its clients. \<open>rest\<close> is whatever else is observed, such as the messages that
  were handed to a provider.
\<close>

locale credit_flow =
  db: gorm_db G dbv "\<lambda>w. (cred w, ok w, rest w)" + res: reservation_store R cred ok "\<lambda>w. (dbv w, rest w)"
  for G :: "'w gorm" and R :: "'w ReservationStore" and dbv :: "'w \<Rightarrow> db" and cred :: "'w \<Rightarrow> credit"
    and ok :: "'w \<Rightarrow> bool" and rest :: "'w \<Rightarrow> 'o"

section \<open>The Redis store beside the database\<close>

lemma client_framed:
  assumes "redis_client_ok eval red frame"
  shows "redis_client_ok eval red (\<lambda>w. h (frame w))"
  unfolding redis_client_ok_def
proof (intro allI impI, goal_cases)
  case (1 f w r w')
  with assms have "frame w' = frame w \<and> (\<exists>c \<ge> clock_us (red w). let s = (red w)\<lparr>clock_us := c\<rparr> in
       f s = (r, red w') \<or> (\<exists>e. r = Inl e) \<and> (red w' = s \<or> red w' = snd (f s)))"
    unfolding redis_client_ok_def by blast
  then show ?case by simp
qed

text \<open>
  Any database and any Redis client that keep out of each other's way: the program's Redis
  store and the database make up the flow.
\<close>

lemma redis_credit_flow:
  assumes "gorm_db G dbv (\<lambda>w. (red w, rest w))" "redis_client_ok eval red (\<lambda>w. (dbv w, rest w))"
  shows "credit_flow G (redis_reservations (Suc fuel) eval loader) dbv (\<lambda>w. redis_credit (red w))
    (\<lambda>w. redis_credit_ok (red w)) rest"
  using gorm_db.framed [OF assms(1), of "\<lambda>(r, x). (redis_credit r, redis_credit_ok r, x)"] redis_reservation_store [OF assms(2)]
  by (simp add: credit_flow_def)

text \<open>A client for a world in which Redis and something else stand beside the database.\<close>

definition beside_client :: "(db \<times> redis_state \<times> 'v) redis_client" where
  "beside_client f w = (case w of (d, r, v) \<Rightarrow> case f r of (x, r') \<Rightarrow> (x, (d, r', v)))"

lemma beside_client_ok: "redis_client_ok beside_client (\<lambda>w. fst (snd w)) (\<lambda>w. (fst w, snd (snd w)))"
  by (force simp: redis_client_ok_def beside_client_def Let_def split: prod.splits)

lemma beside_db_ok: "gorm_db mem_gorm fst (\<lambda>w. (fst (snd w), snd (snd w)))"
  using mem_db.gorm_db_axioms by simp

interpretation flow: credit_flow mem_gorm "redis_reservations (Suc fuel) beside_client loader" fst
  "\<lambda>w. redis_credit (fst (snd w))" "\<lambda>w. redis_credit_ok (fst (snd w))" "\<lambda>w. snd (snd w)" for fuel loader
  by (rule redis_credit_flow [OF beside_db_ok beside_client_ok])

end
