(* ===== verification/ServiceProps.thy ===== *)
theory ServiceProps
  imports SmsService CreditFlow
begin

text \<open>
  What the service promises: bounded and isolated lines under any interleaving of requests, and
  a reservation flow in which an accepted message has both its credit reserved and its outbox
  row, and a rejected one neither is charged nor silently sent.
\<close>

section \<open>Requests in flight\<close>

text \<open>
  The slots under concurrent requests: \<open>L\<close> are the lines of the requests between \<^verbatim>\<open>acquire\<close> and
  \<^verbatim>\<open>release\<close>. A refused request changes nothing.
\<close>

inductive in_flight :: "'w Service \<Rightarrow> slots \<Rightarrow> LineType list \<Rightarrow> bool" for S where
  idle: "in_flight S no_slots []"
| admit: "in_flight S sl L \<Longrightarrow> LineType_IsValid l \<Longrightarrow> svc_acquire S l sl = (True, sl') \<Longrightarrow> in_flight S sl' (l # L)"
| finish: "in_flight S sl L \<Longrightarrow> l \<in> set L \<Longrightarrow> svc_release l sl = Some sl' \<Longrightarrow> in_flight S sl' (remove1 l L)"

lemma lines_distinct [simp]: "LineTypeExpress \<noteq> LineTypeNormal" "LineTypeNormal \<noteq> LineTypeExpress"
  by (simp_all add: LineTypeExpress_def LineTypeNormal_def)

lemma count_remove1: "l \<in> set L \<Longrightarrow> int (count_list (remove1 l L) x) = int (count_list L x) - (if x = l then 1 else 0)"
  by (induction L) (auto simp: count_list_0_iff)

lemma in_flight_counts:
  assumes "in_flight S sl L"
  shows "set L \<subseteq> {LineTypeExpress, LineTypeNormal} \<and> express_used sl = int (count_list L LineTypeExpress)
    \<and> normal_used sl = int (count_list L LineTypeNormal)
    \<and> (0 \<le> expressSlots S \<longrightarrow> express_used sl \<le> expressSlots S) \<and> (0 \<le> normalSlots S \<longrightarrow> normal_used sl \<le> normalSlots S)"
  using assms
proof induction
  case (admit sl L l sl')
  then show ?case by (auto simp: svc_acquire_def LineType_IsValid_def split: if_splits)
next
  case (finish sl L l sl')
  then show ?case using set_remove1_subset [of l L] by (auto simp: svc_release_def count_remove1 split: if_splits)
qed (simp add: no_slots_def)

lemma count_pos: "x \<in> set L \<Longrightarrow> 0 < int (count_list L x)"
  using count_list_0_iff [of L x] by (cases "count_list L x") auto

text \<open>
  C24: the lines are bounded and independent. Under any interleaving of requests never more
  requests of a line are in flight than its limit, a request of a line is admitted exactly
  when fewer than that are in flight, whatever the other line does, and giving back a slot
  never blocks.
\<close>

theorem lines_bounded:
  assumes "NewServiceWithReservation chans deduct enqueue costs res sla el nl = Inr S" "in_flight S sl L"
  shows "int (count_list L LineTypeExpress) \<le> el \<and> int (count_list L LineTypeNormal) \<le> nl
    \<and> (fst (svc_acquire S LineTypeExpress sl) \<longleftrightarrow> int (count_list L LineTypeExpress) < el)
    \<and> (fst (svc_acquire S LineTypeNormal sl) \<longleftrightarrow> int (count_list L LineTypeNormal) < nl)
    \<and> (\<forall>l \<in> set L. svc_release l sl \<noteq> None)"
  using assms(1) in_flight_counts [OF assms(2)] count_pos [of _ L]
  by (fastforce simp: NewServiceWithReservation_def make_service_def svc_acquire_def svc_release_def split: if_splits)

theorem lines_bounded_witness:
  "\<exists>S sl. NewServiceWithReservation (GetByName mem_gorm) None (Enqueue mem_gorm) (GetByLineType mem_gorm)
      (redis_reservations 1 beside_client None :: (db \<times> redis_state \<times> unit) ReservationStore) second_ns 1 0 = Inr S
    \<and> in_flight S sl [LineTypeExpress] \<and> \<not> fst (svc_acquire S LineTypeExpress sl) \<and> svc_release LineTypeExpress sl \<noteq> None"
proof -
  obtain S where S: "NewServiceWithReservation (GetByName mem_gorm) None (Enqueue mem_gorm) (GetByLineType mem_gorm)
      (redis_reservations 1 beside_client None :: (db \<times> redis_state \<times> unit) ReservationStore) second_ns 1 0 = Inr S" "expressSlots S = 1"
    by (simp add: NewServiceWithReservation_def make_service_def)
  have f: "in_flight S \<lparr>express_used = 1, normal_used = 0\<rparr> [LineTypeExpress]"
    by (rule in_flight.admit [OF in_flight.idle]) (simp_all add: svc_acquire_def no_slots_def LineType_IsValid_def S(2))
  from lines_bounded [OF S(1) f] S(1) f show ?thesis by auto
qed

section \<open>The reservation flow\<close>

context gorm_db
begin

lemma Enqueue_effect:
  assumes "Enqueue G ev desc w = (ro, w')"
  shows "frame w' = frame w
    \<and> (ro \<noteq> None \<and> dbv w' = dbv w \<or> (\<exists>i t. dbv w' = add_outbox (outbox_row ev (json_event ev)) i t (dbv w)))"
proof (cases "json_Marshal ev")
  case (Inr payload)
  then have p: "payload = json_event ev" by (simp add: json_Marshal_def split: if_splits)
  obtain x w1 where c: "CreateOutbox G (outbox_row ev payload) w = (x, w1)" by force
  then show ?thesis using assms Inr p create_outbox [OF c] frames(4) [of "outbox_row ev payload" w]
    by (auto simp: Enqueue_def split: option.splits)
qed (use assms in \<open>auto simp: Enqueue_def\<close>)

end

text \<open>
  What can be left of a request for channel row \<open>c\<close> at price \<open>m\<close>: the reservation (or not, if the
  request failed) and the outbox row (or not, if the request failed).
\<close>

definition accepted ::
  "'w Service \<Rightarrow> SendSMSCommand \<Rightarrow> ChannelModel \<Rightarrow> Money \<Rightarrow> int \<Rightarrow> string \<Rightarrow> time \<Rightarrow> error + SendSMSResult \<Rightarrow> db \<Rightarrow> credit \<Rightarrow> db \<Rightarrow> credit \<Rightarrow> bool" where
  "accepted S cmd c m n mid now r d cr d' cr' \<longleftrightarrow>
    (let ev = new_event S cmd (toChannelModel c) m mid now; stored = (c_held cr mid = None \<and> (\<exists>i t. d' = add_outbox (outbox_row ev (json_event ev)) i t d));
         reserved = (units m \<le> n \<and> c_held cr mid = None \<and> cr' = reserve_credit (cm_WalletID c) mid n (units m) cr)
     in (case r of
           Inr res \<Rightarrow> stored \<and> reserved \<and> res = \<lparr>res_MessageID = mid, res_Cost = Float64 m,
             res_RemainingBal = fdiv_pos (float64_of_int (n - units m)) 10000\<rparr>
         | Inl e \<Rightarrow> (stored \<or> d' = d) \<and> (reserved \<or> cr' = cr)))"

text \<open>
  Where a rejected request may have left something behind: an outbox row only if storing it reported an error, and a reservation only if
  \<^verbatim>\<open>Reserve\<close> reported an error, or if the \<^verbatim>\<open>Refund\<close> that the request ended with did.
\<close>

definition explained :: "'w ReservationStore \<Rightarrow> int \<Rightarrow> string \<Rightarrow> error + SendSMSResult \<Rightarrow> db \<Rightarrow> credit \<Rightarrow> db \<Rightarrow> credit \<Rightarrow> 'w \<Rightarrow> bool" where
  "explained R i mid r d cr d' cr' w' \<longleftrightarrow> (\<forall>e. r = Inl e \<longrightarrow>
    (d' \<noteq> d \<longrightarrow> (\<exists>x. e = Wrapf ''enqueue SMS: '' x []))
    \<and> (cr' \<noteq> cr \<longrightarrow> d' = d \<and> (\<exists>x. e = wrap_panic ''reserve SMS credit: '' x) \<or> (\<exists>v y. rs_Refund R i mid v = (Some y, w'))))"

lemma refund_reserve [simp]:
  "c_avail cr i = Some n \<Longrightarrow> c_held cr m = None \<Longrightarrow> refund_credit i m (n - a) (reserve_credit i m n a cr) = cr"
  by (cases cr) (auto simp: refund_credit_def reserve_credit_def fun_upd_idem)

lemma reserve_credit_sel [simp]:
  "c_avail (reserve_credit i m n a cr) i = Some (n - a)" "c_held (reserve_credit i m n a cr) m = Some a"
  by (simp_all add: reserve_credit_def)

context credit_flow
begin

lemma accept_reserved_outcome:
  fixes cmd :: SendSMSCommand and mid :: string and now :: time
  assumes S: "acceptor_Enqueue S = Some (Enqueue G)" and w: "ok w" "c_avail (cred w) (cm_WalletID c) = Some n" "n < 2 ^ 52"
    and m: "0 \<le> units m" "units m < 2 ^ 52"
  defines "ev \<equiv> new_event S cmd (toChannelModel c) m mid now"
  shows "\<exists>r w'. accept_reserved S R (toChannelModel c) m ev desc w = Some (r, w') \<and> ok w' \<and> rest w' = rest w
    \<and> accepted S cmd c m n mid now r (dbv w) (cred w) (dbv w') (cred w')
    \<and> explained R (cm_WalletID c) mid r (dbv w) (cred w) (dbv w') (cred w') w'"
proof -
  have ev: "ev_MessageID ev = mid" "ch_WalletID (toChannelModel c) = cm_WalletID c"
    by (simp_all add: ev_def new_event_def Let_def toChannelModel_def)
  obtain r w1 where 1: "rs_Reserve R (cm_WalletID c) (units m) mid w = Some (r, w1)" "ok w1" "dbv w1 = dbv w" "rest w1 = rest w"
    and c1: "case r of
            Inr rem \<Rightarrow> rem = n - units m \<and> units m \<le> n \<and> c_held (cred w) mid = None \<and> cred w1 = reserve_credit (cm_WalletID c) mid n (units m) (cred w)
          | Inl e \<Rightarrow> cred w1 = cred w \<or> units m \<le> n \<and> c_held (cred w) mid = None \<and> cred w1 = reserve_credit (cm_WalletID c) mid n (units m) (cred w)"
    using res.reserve_law [OF w(1,2) m, of mid] by auto
  show ?thesis
  proof (cases r)
    case (Inl e)
    then show ?thesis using 1 c1 by (auto simp: accept_reserved_def ev accepted_def explained_def Let_def ev_def [symmetric])
  next
    case (Inr rem)
    then have c1: "rem = n - units m" "units m \<le> n" "c_held (cred w) mid = None" "cred w1 = reserve_credit (cm_WalletID c) mid n (units m) (cred w)"
      using c1 by simp_all
    obtain ro w2 where 2: "Enqueue G ev desc w1 = (ro, w2)" by force
    have f: "cred w2 = cred w1" "ok w2" "rest w2 = rest w"
      and d: "ro \<noteq> None \<and> dbv w2 = dbv w \<or> (\<exists>i t. dbv w2 = add_outbox (outbox_row ev (json_event ev)) i t (dbv w))"
      using db.Enqueue_effect [OF 2] 1 by auto
    show ?thesis
    proof (cases ro)
      case None
      then show ?thesis using 1 2 f d c1 Inr S by (auto simp: accept_reserved_def ev accepted_def explained_def Let_def ev_def [symmetric])
    next
      case (Some e)
      obtain rr w3 where 3: "rs_Refund R (cm_WalletID c) mid w2 = (rr, w3)" by force
      have "ok w3 \<and> (dbv w3, rest w3) = (dbv w2, rest w2)
        \<and> (cred w3 = refund_credit (cm_WalletID c) mid (n - units m) (cred w2) \<or> rr \<noteq> None \<and> cred w3 = cred w2)"
        using w(3) f c1 by (intro res.refund_law [OF _ _ _ 3]) simp_all
      then show ?thesis using 1 2 3 Some f d c1 Inr S w(2)
        by (auto simp: accept_reserved_def ev accepted_def explained_def Let_def ev_def [symmetric])
    qed
  qed
qed

lemma runtime_obs:
  assumes "runtime_ok rt (\<lambda>w. (dbv w, cred w, ok w, rest w))" "generateMessageID rt w = (mid, w1)" "Now rt w1 = (t, w2)"
  shows "dbv w2 = dbv w \<and> cred w2 = cred w \<and> ok w2 = ok w \<and> rest w2 = rest w"
proof -
  obtain t0 wa n wb where "Now rt w = (t0, wa)" "Intn rt 1000000 wa = (n, wb)" by (metis surj_pair)
  with assms(2,3) show ?thesis using assms(1)
    unfolding runtime_ok_def generateMessageID_def by (metis (no_types, lifting) case_prod_conv prod.inject snd_conv)
qed

lemma accept_outcome:
  assumes S: "channelRepo S = GetByName G" "costRepo S = GetByLineType G" "reservations S = Some R" "acceptor_Enqueue S = Some (Enqueue G)"
    and rt: "runtime_ok rt (\<lambda>w. (dbv w, cred w, ok w, rest w))" and w: "ok w"
    and avail: "\<forall>c \<in> set (channels (dbv w)). \<exists>n. c_avail (cred w) (cm_WalletID c) = Some n \<and> n < 2 ^ 52"
    and price: "\<forall>co \<in> set (sms_costs (dbv w)). \<exists>m. db_money m \<and> sm_Cost co = Float64 m"
  shows "\<exists>r w'. accept rt S cmd w = Some (r, w') \<and> ok w' \<and> rest w' = rest w
    \<and> (dbv w' = dbv w \<and> cred w' = cred w \<and> (\<exists>e. r = Inl e)
      \<or> (\<exists>c \<in> set (channels (dbv w)). \<exists>co \<in> set (sms_costs (dbv w)). \<exists>m n mid now.
          cm_Name c = cmd_ChannelName cmd \<and> cm_IsActive c \<and> sm_LineType co = cmd_Line cmd \<and> sm_Cost co = Float64 m \<and> db_money m \<and> 0 < units m
          \<and> c_avail (cred w) (cm_WalletID c) = Some n \<and> (\<exists>v. mid = fst (generateMessageID rt v))
          \<and> accepted S cmd c m n mid now r (dbv w) (cred w) (dbv w') (cred w')
          \<and> explained R (cm_WalletID c) mid r (dbv w) (cred w) (dbv w') (cred w') w'))"
proof -
  obtain x1 w1 where 1: "GetByName G (cmd_ChannelName cmd) w = (x1, w1)" by force
  note q1 = db.GetByName_query [OF 1]
  show ?thesis
  proof (cases x1)
    case (Inl e)
    then show ?thesis using 1 q1 w S by (auto simp: accept_def)
  next
    case (Inr ch)
    then obtain c where c: "c \<in> set (channels (dbv w))" "cm_Name c = cmd_ChannelName cmd" "ch = toChannelModel c" using q1 by auto
    obtain x2 w2 where 2: "GetByLineType G (cmd_Line cmd) w1 = (x2, w2)" by force
    note q2 = db.GetByLineType_query [OF 2]
    show ?thesis
    proof (cases "cm_IsActive c")
      case False
      then show ?thesis using 1 q1 w S Inr c by (auto simp: accept_def toChannelModel_def)
    next
      case act: True
      show ?thesis
      proof (cases x2)
        case (Inl e)
        then show ?thesis using 1 2 q1 q2 w S Inr c act \<open>x1 = Inr ch\<close> by (auto simp: accept_def toChannelModel_def)
      next
        case x2: (Inr cr)
        then obtain co where co: "co \<in> set (sms_costs (dbv w))" "sm_LineType co = cmd_Line cmd" "cr = toSMSCostModel co" using q1 q2 by auto
        obtain m where m: "db_money m" "sm_Cost co = Float64 m" using price co by blast
        have nm: "NewMoney (cost_Cost cr) = Inr m" using m co by (simp add: toSMSCostModel_def db_money_roundtrip)
        obtain mid w3 where 3: "generateMessageID rt w2 = (mid, w3)" by force
        obtain now w4 where 4: "Now rt w3 = (now, w4)" by force
        have e: "dbv w4 = dbv w" "cred w4 = cred w" "ok w4" "rest w4 = rest w"
          using runtime_obs [OF rt 3 4] q1 q2 w by auto
        obtain n where n: "c_avail (cred w4) (cm_WalletID c) = Some n" "n < 2 ^ 52" using avail c e by auto
        have u: "0 \<le> units m" "units m < 2 ^ 52" using m(1) by (simp_all add: db_money_def)
        show ?thesis
        proof (cases "IsPositive m")
          case True
          obtain r w' where r: "accept_reserved S R ch m (new_event S cmd ch m mid now)
              (''SMS via '' @ cmd_ChannelName cmd @ '' ('' @ cmd_Line cmd @ '') to '' @ cmd_Dest cmd) w4 = Some (r, w')"
            "ok w' \<and> rest w' = rest w \<and> accepted S cmd c m n mid now r (dbv w) (cred w) (dbv w') (cred w')
              \<and> explained R (cm_WalletID c) mid r (dbv w) (cred w) (dbv w') (cred w') w'"
            using accept_reserved_outcome [OF S(4) e(3) n u, of cmd mid now] e unfolding c(3) by metis
          have "accept rt S cmd w = Some (r, w')"
            using r(1) 1 2 3 4 nm act S Inr x2 c(3) True by (simp add: accept_def toChannelModel_def [of c])
          moreover have "0 < units m" using True by (simp add: IsPositive_def)
          moreover have "mid = fst (generateMessageID rt w2)" using 3 by simp
          ultimately show ?thesis using r(2) c(1,2) co(1,2) m act n(1) [unfolded e(2)] by blast
        next
          case False
          then show ?thesis using 1 2 nm act S Inr x2 c q1 q2 w by (auto simp: accept_def toChannelModel_def)
        qed
      qed
    qed
  qed
qed

end

lemma runtime_through: "runtime_ok rt obs \<Longrightarrow> runtime_ok rt (\<lambda>w. h (obs w))"
  by (simp add: runtime_ok_def)

lemma slots_return:
  assumes "in_flight S sl L" "svc_acquire S l sl = (True, sl1)"
  shows "svc_release l sl1 = Some sl"
  using assms(2) in_flight_counts [OF assms(1)] by (auto simp: svc_acquire_def svc_release_def split: if_splits)

lemma refused_slots: "svc_acquire S l sl = (False, sl1) \<Longrightarrow> sl1 = sl"
  by (auto simp: svc_acquire_def split: if_splits)

lemma Execute_outcome:
  assumes "gorm_db G dbv (\<lambda>w. (red w, rest w))" "redis_client_ok eval red (\<lambda>w. (dbv w, rest w))"
    "NewServiceWithReservation (GetByName G) deduct (Enqueue G) (GetByLineType G) (redis_reservations (Suc fuel) eval loader) sla el nl = Inr S"
    "runtime_ok rt (\<lambda>w. (dbv w, red w, rest w))" "in_flight S sl L" "redis_credit_ok (red w)"
    "\<forall>c \<in> set (channels (dbv w)). available (red w) (cm_WalletID c) \<noteq> None"
    "\<forall>co \<in> set (sms_costs (dbv w)). \<exists>m. db_money m \<and> sm_Cost co = Float64 m"
  shows "\<exists>r w'. Execute rt S cmd sl w = Some (r, sl, w') \<and> redis_credit_ok (red w') \<and> rest w' = rest w
    \<and> ((\<exists>e. r = Inl e) \<and> dbv w' = dbv w \<and> redis_credit (red w') = redis_credit (red w)
      \<or> LineType_IsValid (cmd_Line cmd) \<and> Destination_IsValid (cmd_Dest cmd) \<and> IsMessageValid (cmd_Message cmd)
        \<and> (\<exists>c \<in> set (channels (dbv w)). \<exists>co \<in> set (sms_costs (dbv w)). \<exists>m n mid now.
            cm_Name c = cmd_ChannelName cmd \<and> cm_IsActive c \<and> sm_LineType co = cmd_Line cmd \<and> sm_Cost co = Float64 m \<and> db_money m \<and> 0 < units m
            \<and> available (red w) (cm_WalletID c) = Some n \<and> (\<exists>v. mid = fst (generateMessageID rt v))
            \<and> accepted S cmd c m n mid now r (dbv w) (redis_credit (red w)) (dbv w') (redis_credit (red w'))
            \<and> explained (redis_reservations (Suc fuel) eval loader) (cm_WalletID c) mid r
                (dbv w) (redis_credit (red w)) (dbv w') (redis_credit (red w')) w'))"
proof (cases "LineType_IsValid (cmd_Line cmd) \<and> Destination_IsValid (cmd_Dest cmd) \<and> IsMessageValid (cmd_Message cmd)
    \<and> fst (svc_acquire S (cmd_Line cmd) sl)")
  case False
  then show ?thesis using assms(6) refused_slots [of S "cmd_Line cmd" sl] by (auto simp: Execute_def split: prod.splits bool.splits)
next
  case True
  then obtain sl1 where a: "svc_acquire S (cmd_Line cmd) sl = (True, sl1)" by (cases "svc_acquire S (cmd_Line cmd) sl") auto
  have f: "channelRepo S = GetByName G" "costRepo S = GetByLineType G"
    "reservations S = Some (redis_reservations (Suc fuel) eval loader)" "acceptor_Enqueue S = Some (Enqueue G)"
    using assms(3) by (auto simp: NewServiceWithReservation_def make_service_def split: if_splits)
  have rt: "runtime_ok rt (\<lambda>w. (dbv w, redis_credit (red w), redis_credit_ok (red w), rest w))"
    using runtime_through [OF assms(4), of "\<lambda>(d, r, x). (d, redis_credit r, redis_credit_ok r, x)"] by simp
  have av: "\<forall>c \<in> set (channels (dbv w)). \<exists>n. c_avail (redis_credit (red w)) (cm_WalletID c) = Some n \<and> n < 2 ^ 52"
    using assms(6,7) money_key_bounds by (fastforce simp: redis_credit_def redis_credit_ok_def)
  note flow = credit_flow.accept_outcome [OF redis_credit_flow [OF assms(1,2)] f rt assms(6) av assms(8), of cmd]
  then obtain r w' where x: "accept rt S cmd w = Some (r, w')" by blast
  have "Execute rt S cmd sl w = Some (r, sl, w')"
    using True a x slots_return [OF assms(5) a] by (simp add: Execute_def)
  then show ?thesis using flow x True by (auto simp: redis_credit_def)
qed

text \<open>
  C8: the reservation flow. If Redis has the balances, \<^verbatim>\<open>Execute\<close> always returns and gives its slot back. A message is accepted
  only if the command is valid, its channel exists and is active and the price of its line is
  positive and covered by the available credit; then exactly the price is reserved under a
  fresh message identifier, exactly one outbox row with the event is stored, and the answer
  tells the price and the remaining credit. Otherwise the caller gets an error, and of credit
  and outbox nothing has changed unless a call of Redis or the database that reported an error
  took effect; such a left-over is this message's row, if storing it reported an error, or its reservation, if
  reserving it did or if giving it back did after storing the row failed.
\<close>

theorem execute_reserved:
  assumes "gorm_db G dbv (\<lambda>w. (red w, rest w))" "redis_client_ok eval red (\<lambda>w. (dbv w, rest w))"
    "NewServiceWithReservation (GetByName G) deduct (Enqueue G) (GetByLineType G) (redis_reservations (Suc fuel) eval loader) sla el nl = Inr S"
    "runtime_ok rt (\<lambda>w. (dbv w, red w, rest w))" "in_flight S sl L" "redis_credit_ok (red w)"
    "\<forall>c \<in> set (channels (dbv w)). available (red w) (cm_WalletID c) \<noteq> None"
    "\<forall>co \<in> set (sms_costs (dbv w)). \<exists>m. db_money m \<and> sm_Cost co = Float64 m"
  shows "\<exists>r w'. Execute rt S cmd sl w = Some (r, sl, w') \<and> redis_credit_ok (red w') \<and> rest w' = rest w
    \<and> ((\<exists>e. r = Inl e) \<and> dbv w' = dbv w \<and> redis_credit (red w') = redis_credit (red w)
      \<or> LineType_IsValid (cmd_Line cmd) \<and> Destination_IsValid (cmd_Dest cmd) \<and> IsMessageValid (cmd_Message cmd)
        \<and> (\<exists>c \<in> set (channels (dbv w)). \<exists>co \<in> set (sms_costs (dbv w)). \<exists>m n mid now.
            cm_Name c = cmd_ChannelName cmd \<and> cm_IsActive c \<and> sm_LineType co = cmd_Line cmd \<and> sm_Cost co = Float64 m \<and> 0 < units m
            \<and> available (red w) (cm_WalletID c) = Some n
            \<and> accepted S cmd c m n mid now r (dbv w) (redis_credit (red w)) (dbv w') (redis_credit (red w'))
            \<and> explained (redis_reservations (Suc fuel) eval loader) (cm_WalletID c) mid r
                (dbv w) (redis_credit (red w)) (dbv w') (redis_credit (red w')) w'))"
  using Execute_outcome [OF assms, of cmd] by blast

definition rt_example :: "'w runtime" where
  "rt_example = \<lparr>Now = (\<lambda>w. (63843379200 * second_ns, w)), Intn = (\<lambda>n w. (n - 1, w))\<rparr>"

lemma rt_example_ok: "runtime_ok rt_example obs"
  by (simp add: runtime_ok_def rt_example_def)

definition db_channel_example :: db where
  "db_channel_example = \<lparr>wallets = [7 \<mapsto> \<lparr>wm_ID = 7, wm_CreatedAt = 0, wm_UpdatedAt = 0, wm_Balance = Float64 \<lparr>units = 30000\<rparr>\<rparr>], wallet_transactions = [],
    channels = [\<lparr>cm_ID = 1, cm_CreatedAt = 0, cm_UpdatedAt = 0, cm_Name = ''web'', cm_WalletID = 7, cm_IsActive = True\<rparr>],
    sms_costs = [\<lparr>sm_ID = 1, sm_CreatedAt = 0, sm_UpdatedAt = 0, sm_LineType = ''express'', sm_Cost = Float64 \<lparr>units = 12000\<rparr>\<rparr>],
    sms_outbox = [], sms_deliveries = Map.empty\<rparr>"

definition service_example :: "(db \<times> redis_state \<times> 'v) Service" where
  "service_example = \<lparr>channelRepo = GetByName mem_gorm, acceptor_DeductAndEnqueue = None, acceptor_Enqueue = Some (Enqueue mem_gorm),
    costRepo = GetByLineType mem_gorm, expressSLA = 5 * second_ns, expressSlots = 100, normalSlots = 20,
    reservations = Some (redis_reservations 1 beside_client None)\<rparr>"

definition cmd_example :: SendSMSCommand where
  "cmd_example = \<lparr>cmd_Line = ''express'', cmd_Dest = ''+98'', cmd_ChannelName = ''web'', cmd_Message = ''hi''\<rparr>"

lemma credit_example_ok: "redis_credit_ok credit_example"
  unfolding redis_credit_ok_def
proof (intro conjI allI)
  show "money_key credit_example (balanceKey i)" for i
    using credit_example_keys(1) by (cases "i = 7") (auto simp: credit_example_def money_key_def)
qed (rule credit_example_keys)

definition sent_to :: "string \<Rightarrow> DeliveryEvent" where
  "sent_to d = \<lparr>ev_MessageID = fst (generateMessageID rt_example ()), ev_WalletID = 7, ev_Destination = d, ev_Message = ''hi'',
    ev_Line = ''express'', ev_ChannelName = ''web'', ev_CostUnits = 12000, ev_CreatedAt = 63843379200 * second_ns,
    ev_DeadlineAt = 63843379205 * second_ns\<rparr>"

definition sent_example :: DeliveryEvent where
  "sent_example = sent_to ''+98''"

definition accepted_db_example :: db where
  "accepted_db_example = add_outbox (outbox_row sent_example (json_event sent_example)) 0 0 db_channel_example"

definition accepted_credit_example :: redis_state where
  "accepted_credit_example = credit_example\<lparr>keys := (keys credit_example)(balanceKey 7 \<mapsto> RStr (FormatInt 18000),
    reservationKey (ev_MessageID sent_example) \<mapsto> RStr (FormatInt 12000))\<rparr>"

lemma accept_example_to:
  "\<exists>res. accept rt_example service_example (cmd_example\<lparr>cmd_Dest := d\<rparr>) (db_channel_example, credit_example, v)
    = Some (Inr res, (add_outbox (outbox_row (sent_to d) (json_event (sent_to d))) 0 0 db_channel_example, accepted_credit_example, v))"
proof -
  have m: "db_money \<lparr>units = 12000\<rparr>" by (simp add: db_money_def)
  have r: "reserveScript (balanceKey 7) (reservationKey mid) 12000 credit_example = (Inr (RInt 18000), credit_example\<lparr>keys :=
      (keys credit_example)(balanceKey 7 \<mapsto> RStr (FormatInt 18000), reservationKey mid \<mapsto> RStr (FormatInt 12000))\<rparr>)" for mid
    using reserve_run [OF credit_example_keys(1,2), of 12000 mid] credit_example_keys(3,4) by simp
  have y: "in_years (63843379200 * second_ns)" "in_years (63843379200 * second_ns + 5 * second_ns)"
    by (simp_all add: in_years_def second_ns_def)
  show ?thesis
    using m r y
    by (simp add: accept_def service_example_def cmd_example_def db_channel_example_def GetByName_def GetByLineType_def mem_gorm_def
        toChannelModel_def toSMSCostModel_def db_money_roundtrip IsPositive_def generateMessageID_def rt_example_def accept_reserved_def
        redis_reservations_def beside_client_def Enqueue_def json_Marshal_def new_event_def Let_def LineTypeExpress_def
        second_ns_def outbox_row_def accepted_credit_example_def
        sent_example_def sent_to_def)
qed

lemma execute_example_to:
  assumes "d \<noteq> []"
  shows "\<exists>res. Execute rt_example service_example (cmd_example\<lparr>cmd_Dest := d\<rparr>) no_slots (db_channel_example, credit_example, v)
    = Some (Inr res, no_slots, (add_outbox (outbox_row (sent_to d) (json_event (sent_to d))) 0 0 db_channel_example, accepted_credit_example, v))"
proof -
  have "LineType_IsValid (cmd_Line (cmd_example\<lparr>cmd_Dest := d\<rparr>))" "Destination_IsValid (cmd_Dest (cmd_example\<lparr>cmd_Dest := d\<rparr>))" "IsMessageValid (cmd_Message (cmd_example\<lparr>cmd_Dest := d\<rparr>))"
    using assms by (simp_all add: cmd_example_def LineType_IsValid_def LineTypeExpress_def Destination_IsValid_def IsMessageValid_def rune_count.simps rune_width_def cont_def)
  with accept_example_to [of d v] show ?thesis
    by (auto simp: Execute_def svc_acquire_def svc_release_def service_example_def no_slots_def split: if_splits)
qed

lemma execute_example:
  "\<exists>res. Execute rt_example service_example cmd_example no_slots (db_channel_example, credit_example, v)
    = Some (Inr res, no_slots, (accepted_db_example, accepted_credit_example, v))"
  using execute_example_to [of "''+98''" v] by (simp add: accepted_db_example_def sent_example_def cmd_example_def)

lemma service_example_new:
  "NewServiceWithReservation (GetByName mem_gorm) None (Enqueue mem_gorm) (GetByLineType mem_gorm)
    (redis_reservations (Suc 0) beside_client None) (5 * second_ns) 100 20 = Inr service_example"
  by (simp add: NewServiceWithReservation_def make_service_def service_example_def)

lemma db_channel_example_ok:
  "\<forall>co \<in> set (sms_costs db_channel_example). \<exists>m. db_money m \<and> sm_Cost co = Float64 m"
  "\<forall>c \<in> set (channels db_channel_example). available credit_example (cm_WalletID c) \<noteq> None"
  using credit_example_keys(3)
  by (auto simp: db_channel_example_def db_money_def intro!: exI [of _ "\<lparr>units = 12000\<rparr>"])

theorem execute_reserved_witness:
  "\<exists>res w' c m n mid now. Execute rt_example service_example cmd_example no_slots (db_channel_example, credit_example, ())
      = Some (Inr res, no_slots, w')
    \<and> accepted (service_example :: (db \<times> redis_state \<times> unit) Service) cmd_example c m n mid now (Inr res) db_channel_example (redis_credit credit_example) (fst w') (redis_credit (fst (snd w')))"
proof -
  obtain res w' where e: "Execute rt_example service_example cmd_example no_slots (db_channel_example, credit_example, ()) = Some (Inr res, no_slots, w')"
    using execute_example [of "()"] by blast
  from execute_reserved [OF beside_db_ok beside_client_ok service_example_new rt_example_ok in_flight.idle,
      of "(db_channel_example, credit_example, ())" cmd_example, unfolded fst_conv snd_conv,
      OF credit_example_ok db_channel_example_ok(2,1)] e
  have "\<exists>c m n mid now. accepted (service_example :: (db \<times> redis_state \<times> unit) Service) cmd_example c m n mid now (Inr res)
      db_channel_example (redis_credit credit_example) (fst w') (redis_credit (fst (snd w')))"
    by (elim exE conjE disjE bexE) (simp, simp, blast)
  with e show ?thesis by blast
qed

end
