(* ===== verification/Worker.thy ===== *)
theory Worker
  imports SmsService ProviderPool
begin

text \<open>
  The delivery worker (\<^verbatim>\<open>internal/infrastructure/messaging/rabbitmq.go\<close>): it takes a message from its
  queue, records the delivery, hands the SMS to the sender and settles the credit. In the
  reservation flow the credit was reserved in Redis and is debited in PostgreSQL after the
  provider took the SMS; in the legacy flow it was debited at acceptance and is paid back when
  the delivery fails.
\<close>

section \<open>Construction\<close>

record 'w Worker =
  wk_db :: "'w gorm"
  wk_line :: string
  wk_prefetch :: int
  wk_concurrency :: int
  wk_sender :: "ctx \<Rightarrow> DeliveryEvent \<Rightarrow> 'w \<Rightarrow> error option \<times> 'w"
  wk_reservations :: "'w ReservationStore option"
  wk_providerTimeout :: duration

text \<open>\<^verbatim>\<open>amqp.Dial\<close> is the parameter \<open>dial\<close>; the connection itself is not part of the record.\<close>

definition newWorker ::
  "(string \<Rightarrow> 'w \<Rightarrow> error option \<times> 'w) \<Rightarrow> 'w gorm \<Rightarrow> string \<Rightarrow> string \<Rightarrow> int \<Rightarrow> int \<Rightarrow>
   (ctx \<Rightarrow> DeliveryEvent \<Rightarrow> 'w \<Rightarrow> error option \<times> 'w) \<Rightarrow> 'w ReservationStore option \<Rightarrow> duration \<Rightarrow> 'w \<Rightarrow> (error + 'w Worker) \<times> 'w" where
  "newWorker dial G url line prefetch concurrency send res timeout w =
    (if line \<noteq> ''express'' \<and> line \<noteq> ''normal'' then (Inl (NewError (''invalid worker line '' @ quoted line)), w)
     else if concurrency < 1 \<or> prefetch < concurrency
     then (Inl (NewError (''prefetch ('' @ FormatInt prefetch @ '') must be at least concurrency ('' @ FormatInt concurrency @ '')'')), w)
     else if timeout \<le> 0 then (Inl (NewError ''provider timeout must be positive''), w)
     else case dial url w of
       (Some err, w1) \<Rightarrow> (Inl err, w1)
     | (None, w1) \<Rightarrow> (Inr \<lparr>wk_db = G, wk_line = line, wk_prefetch = prefetch, wk_concurrency = concurrency,
         wk_sender = send, wk_reservations = res, wk_providerTimeout = timeout\<rparr>, w1))"

definition NewWorker where
  "NewWorker dial G url line prefetch concurrency send =
    newWorker dial G url line prefetch concurrency send None (10 * second_ns)"

definition NewWorkerWithReservation where
  "NewWorkerWithReservation dial G url line prefetch concurrency send res =
    newWorker dial G url line prefetch concurrency send res (10 * second_ns)"

definition NewWorkerWithReservationAndTimeout where
  "NewWorkerWithReservationAndTimeout dial G url line prefetch concurrency send res timeout =
    newWorker dial G url line prefetch concurrency send res timeout"

section \<open>Contexts\<close>

text \<open>
  A context is its deadline. \<^verbatim>\<open>context.WithTimeout\<close> reads the clock and keeps an earlier deadline of
  the parent; \<^verbatim>\<open>context.WithCancel\<close> keeps the parent's.
\<close>

definition WithTimeout :: "('w \<Rightarrow> time \<times> 'w) \<Rightarrow> ctx \<Rightarrow> duration \<Rightarrow> 'w \<Rightarrow> ctx \<times> 'w" where
  "WithTimeout now c d w = (case now w of (t, w1) \<Rightarrow>
    (Some (case c of None \<Rightarrow> t + d | Some dl \<Rightarrow> min dl (t + d)), w1))"

definition clamp_timeout :: "('w \<Rightarrow> time \<times> 'w) \<Rightarrow> duration \<Rightarrow> DeliveryEvent \<Rightarrow> 'w \<Rightarrow> duration \<times> 'w" where
  "clamp_timeout now timeout event w =
    (if ev_DeadlineAt event \<noteq> zero_time
     then case now w of (t, w1) \<Rightarrow> let remaining = time_Sub (ev_DeadlineAt event) t in
       (if remaining < timeout then remaining else timeout, w1)
     else (timeout, w))"

definition providerContext :: "'w Worker \<Rightarrow> ('w \<Rightarrow> time \<times> 'w) \<Rightarrow> ctx \<Rightarrow> DeliveryEvent \<Rightarrow> 'w \<Rightarrow> ctx \<times> 'w" where
  "providerContext W now c event w =
    (let timeout = (if wk_providerTimeout W \<le> 0 then 10 * second_ns else wk_providerTimeout W)
     in case clamp_timeout now timeout event w of (timeout', w1) \<Rightarrow>
       if timeout' \<le> 0 then (c, w1) else WithTimeout now c timeout' w1)"

section \<open>Delivery records\<close>

definition new_delivery :: "DeliveryEvent \<Rightarrow> SMSDeliveryModel" where
  "new_delivery event = \<lparr>dm_MessageID = ev_MessageID event, dm_WalletID = ev_WalletID event, dm_Destination = ev_Destination event,
    dm_Message = ev_Message event, dm_Line = ev_Line event, dm_ChannelName = ev_ChannelName event, dm_Status = ''processing'',
    dm_Attempts = 0, dm_LastError = [], dm_CreatedAt = zero_time, dm_UpdatedAt = zero_time, dm_DeliveredAt = None\<rparr>"

definition is_terminal :: "SMSDeliveryModel \<Rightarrow> bool" where
  "is_terminal record \<longleftrightarrow> dm_Status record = ''delivered'' \<or> dm_Status record = ''refunded''"

text \<open>Reading the record of a message, or creating it.\<close>

definition load_record :: "'w gorm \<Rightarrow> DeliveryEvent \<Rightarrow> 'w \<Rightarrow> (error + SMSDeliveryModel) \<times> 'w" where
  "load_record G event w = (case FirstDelivery G (ev_MessageID event) w of
     (Inr record, w1) \<Rightarrow> (Inr record, w1)
   | (Inl err, w1) \<Rightarrow> if err = ErrRecordNotFound then CreateDelivery G (new_delivery event) w1 else (Inl err, w1))"

definition begin_tx :: "'w gorm \<Rightarrow> DeliveryEvent \<Rightarrow> 'w \<Rightarrow> (error + captured) \<times> 'w" where
  "begin_tx G event w = (case load_record G event w of
     (Inl err, w1) \<Rightarrow> (Inl err, w1)
   | (Inr record, w1) \<Rightarrow> (Inr (CTerminal (is_terminal record)), w1))"

text \<open>The result is \<^verbatim>\<open>terminal\<close> and the error; both may be set if the commit fails.\<close>

definition beginDelivery :: "'w gorm \<Rightarrow> DeliveryEvent \<Rightarrow> 'w \<Rightarrow> (bool \<times> error option) \<times> 'w" where
  "beginDelivery G event w = (case Transaction G (begin_tx G event) w of
     (Inl (err, cap), w1) \<Rightarrow> ((cap = CTerminal True, Some err), w1)
   | (Inr cap, w1) \<Rightarrow> ((cap = CTerminal True, None), w1))"

definition markDelivery :: "'w gorm \<Rightarrow> string \<Rightarrow> string \<Rightarrow> string \<Rightarrow> time option \<Rightarrow> 'w \<Rightarrow> error option \<times> 'w" where
  "markDelivery G messageID status lastError deliveredAt =
    UpdateDelivery G messageID \<lparr>up_status = status, up_last_error = Some lastError, up_delivered_at = deliveredAt\<rparr>"

section \<open>The reservation flow\<close>

definition debit_tx :: "'w gorm \<Rightarrow> ('w \<Rightarrow> time \<times> 'w) \<Rightarrow> DeliveryEvent \<Rightarrow> 'w \<Rightarrow> (error + captured) \<times> 'w" where
  "debit_tx G now event w = (case MoneyFromUnits (ev_CostUnits event) of
     Inl err \<Rightarrow> (Inl (Wrapf ''invalid reserved amount: '' err []), w)
   | Inr amount \<Rightarrow> (case DeductAndRecord G None (ev_WalletID event) amount (ev_MessageID event) ''SMS delivery'' w of
       (Inl err, w1) \<Rightarrow> (Inl err, w1)
     | (Inr _, w1) \<Rightarrow> (case now w1 of (t, w2) \<Rightarrow>
         (case UpdateDelivery G (ev_MessageID event) \<lparr>up_status = ''delivered'', up_last_error = None, up_delivered_at = Some t\<rparr> w2 of
            (Some err, w3) \<Rightarrow> (Inl err, w3)
          | (None, w3) \<Rightarrow> (Inr CNone, w3)))))"

definition refund_and_mark :: "'w gorm \<Rightarrow> 'w ReservationStore \<Rightarrow> DeliveryEvent \<Rightarrow> (error \<Rightarrow> error) \<Rightarrow> string \<Rightarrow> 'w \<Rightarrow> error option \<times> 'w" where
  "refund_and_mark G R event wrap reason w = (case rs_Refund R (ev_WalletID event) (ev_MessageID event) w of
     (Some refundErr, w1) \<Rightarrow> (Some (wrap refundErr), w1)
   | (None, w1) \<Rightarrow> markDelivery G (ev_MessageID event) ''refunded'' reason None w1)"

definition settle :: "'w gorm \<Rightarrow> 'w ReservationStore \<Rightarrow> ('w \<Rightarrow> time \<times> 'w) \<Rightarrow> DeliveryEvent \<Rightarrow> 'w \<Rightarrow> error option \<times> 'w" where
  "settle G R now event w = (case Transaction G (debit_tx G now event) w of
     (Inl (err, _), w1) \<Rightarrow>
       if is_panic err then (Some err, w1)
       else refund_and_mark G R event (\<lambda>refundErr. Wrapf ''commit debit: '' err (''; refund reservation: '' @ error_text refundErr)) (error_text err) w1
   | (Inr _, w1) \<Rightarrow> rs_Commit R (ev_MessageID event) w1)"

text \<open>The deadline check: \<^verbatim>\<open>time.Now()\<close> is read only if there is a deadline.\<close>

definition expired :: "('w \<Rightarrow> time \<times> 'w) \<Rightarrow> DeliveryEvent \<Rightarrow> 'w \<Rightarrow> bool \<times> 'w" where
  "expired now event w = (if ev_DeadlineAt event = zero_time then (False, w)
    else case now w of (t, w1) \<Rightarrow> (ev_DeadlineAt event < t, w1))"

definition sla_expired :: string where
  "sla_expired = ''express SMS SLA expired before provider attempt''"

definition processReserved :: "'w Worker \<Rightarrow> 'w ReservationStore \<Rightarrow> ('w \<Rightarrow> time \<times> 'w) \<Rightarrow> ctx \<Rightarrow> DeliveryEvent \<Rightarrow> 'w \<Rightarrow> error option \<times> 'w" where
  "processReserved W R now c event w = (case beginDelivery (wk_db W) event w of
     ((terminal, err), w1) \<Rightarrow>
     if terminal then rs_Commit R (ev_MessageID event) w1
     else if err \<noteq> None then (err, w1)
     else case expired now event w1 of (late, w2) \<Rightarrow>
       if late then refund_and_mark (wk_db W) R event (\<lambda>e. e) sla_expired w2
       else (case rs_IsReserved R (ev_MessageID event) w2 of
         (Inl err, w3) \<Rightarrow> (Some err, w3)
       | (Inr reserved, w3) \<Rightarrow>
         if \<not> reserved then markDelivery (wk_db W) (ev_MessageID event) ''refunded'' ''credit reservation is missing'' None w3
         else case providerContext W now c event w3 of (sendCtx, w4) \<Rightarrow> (case wk_sender W sendCtx event w4 of
           (Some err, w5) \<Rightarrow> if is_panic err then (Some err, w5) else refund_and_mark (wk_db W) R event (\<lambda>e. e) (error_text err) w5
         | (None, w5) \<Rightarrow> settle (wk_db W) R now event w5)))"

section \<open>The legacy flow\<close>

text \<open>
  \<^verbatim>\<open>tx.Model(record).Updates(...)\<close> addresses the row by the primary key of the record; GORM refuses
  it for the empty key.
\<close>

definition update_record :: "'w gorm \<Rightarrow> SMSDeliveryModel \<Rightarrow> delivery_updates \<Rightarrow> 'w \<Rightarrow> error option \<times> 'w" where
  "update_record G record u w = (if dm_MessageID record = [] then (Some (NewError ''WHERE conditions required''), w)
    else UpdateDelivery G (dm_MessageID record) u w)"

definition refund :: "'w gorm \<Rightarrow> SMSDeliveryModel \<Rightarrow> DeliveryEvent \<Rightarrow> string \<Rightarrow> 'w \<Rightarrow> error option \<times> 'w" where
  "refund G record event reason w = (case MoneyFromUnits (ev_CostUnits event) of
     Inl err \<Rightarrow> (Some err, w)
   | Inr amount \<Rightarrow> (case CreditAndRecord G None (ev_WalletID event) amount (ev_MessageID event) ''Refund for failed SMS delivery'' w of
       (Inl err, w1) \<Rightarrow> (Some err, w1)
     | (Inr _, w1) \<Rightarrow> update_record G record \<lparr>up_status = ''refunded'', up_last_error = Some reason, up_delivered_at = None\<rparr> w1))"

definition as_closure :: "error option \<times> 'w \<Rightarrow> (error + captured) \<times> 'w" where
  "as_closure rw = (case rw of (Some err, w) \<Rightarrow> (Inl err, w) | (None, w) \<Rightarrow> (Inr CNone, w))"

definition legacy_tx :: "'w Worker \<Rightarrow> ('w \<Rightarrow> time \<times> 'w) \<Rightarrow> ctx \<Rightarrow> DeliveryEvent \<Rightarrow> 'w \<Rightarrow> (error + captured) \<times> 'w" where
  "legacy_tx W now c event w = (case load_record (wk_db W) event w of
     (Inl err, w1) \<Rightarrow> (Inl err, w1)
   | (Inr record, w1) \<Rightarrow>
     if is_terminal record then (Inr CNone, w1)
     else case expired now event w1 of (late, w2) \<Rightarrow>
       if late then as_closure (refund (wk_db W) record event sla_expired w2)
       else (case wk_sender W c event w2 of
         (Some err, w3) \<Rightarrow> if is_panic err then (Inl err, w3) else as_closure (refund (wk_db W) record event (error_text err) w3)
       | (None, w3) \<Rightarrow> (case now w3 of (t, w4) \<Rightarrow>
           as_closure (update_record (wk_db W) record \<lparr>up_status = ''delivered'', up_last_error = None, up_delivered_at = Some t\<rparr> w4))))"

definition processLegacy :: "'w Worker \<Rightarrow> ('w \<Rightarrow> time \<times> 'w) \<Rightarrow> ctx \<Rightarrow> DeliveryEvent \<Rightarrow> 'w \<Rightarrow> error option \<times> 'w" where
  "processLegacy W now c event w = (case Transaction (wk_db W) (legacy_tx W now c event) w of
     (Inl (err, _), w1) \<Rightarrow> (Some err, w1) | (Inr _, w1) \<Rightarrow> (None, w1))"

section \<open>The queue\<close>

definition process :: "'w Worker \<Rightarrow> ('w \<Rightarrow> time \<times> 'w) \<Rightarrow> ctx \<Rightarrow> json option \<Rightarrow> 'w \<Rightarrow> error option \<times> 'w" where
  "process W now c body w = (case json_Unmarshal body of
     Inl err \<Rightarrow> (Some (Wrapf ''decode event: '' err []), w)
   | Inr event \<Rightarrow> (case wk_reservations W of
       None \<Rightarrow> processLegacy W now c event w
     | Some R \<Rightarrow> processReserved W R now c event w))"

text \<open>
  What the worker tells the broker about a delivery; a panic ends the process, after which the
  broker delivers the message again.
\<close>

datatype disposition = Ack | NackRequeue | Crash

definition dispose :: "error option \<Rightarrow> disposition" where
  "dispose r = (case r of None \<Rightarrow> Ack | Some err \<Rightarrow> if is_panic err then Crash else NackRequeue)"

end
