(* ===== verification/WorkerFlow.thy ===== *)
theory WorkerFlow
  imports Worker CreditFlow WalletProps
begin

text \<open>
  What the worker's steps do to the tables and to the reserved credit, proved once for every
  database, reservation store and sender that keep their contracts.
\<close>

section \<open>Outcomes\<close>

text \<open>The tables after the record of the message has been created, unless it was there.\<close>

definition begun :: "DeliveryEvent \<Rightarrow> db \<Rightarrow> db \<Rightarrow> bool" where
  "begun ev d d1 \<longleftrightarrow> (if sms_deliveries d (ev_MessageID ev) = None
    then (\<exists>t. d1 = set_delivery (ev_MessageID ev) (Some ((new_delivery ev)\<lparr>dm_CreatedAt := t, dm_UpdatedAt := t\<rparr>)) d) else d1 = d)"

definition terminal_in :: "db \<Rightarrow> string \<Rightarrow> bool" where
  "terminal_in d mid \<longleftrightarrow> (\<exists>record. sms_deliveries d mid = Some record \<and> is_terminal record)"

definition updated :: "string \<Rightarrow> delivery_updates \<Rightarrow> db \<Rightarrow> db \<Rightarrow> bool" where
  "updated mid u d d' \<longleftrightarrow> (\<exists>t. d' = set_delivery mid (map_option (apply_updates u t) (sms_deliveries d mid)) d)"

text \<open>The message marked as refunded for a reason.\<close>

definition refunded_db :: "DeliveryEvent \<Rightarrow> string \<Rightarrow> db \<Rightarrow> db \<Rightarrow> bool" where
  "refunded_db ev reason d d' \<longleftrightarrow>
    updated (ev_MessageID ev) \<lparr>up_status = ''refunded'', up_last_error = Some reason, up_delivered_at = None\<rparr> d d'"

text \<open>The message debited from balance \<open>b\<close>, with its ledger entry, and marked as delivered.\<close>

definition delivered_db :: "DeliveryEvent \<Rightarrow> Money \<Rightarrow> db \<Rightarrow> db \<Rightarrow> bool" where
  "delivered_db ev b d d' \<longleftrightarrow> ev_CostUnits ev \<le> units b \<and> (\<exists>d1 t.
    changed (ev_WalletID ev) \<lparr>units = units b - ev_CostUnits ev\<rparr> (fneg (Float64 \<lparr>units = ev_CostUnits ev\<rparr>)) ''debit''
      (ev_MessageID ev) ''SMS delivery'' d d1
    \<and> updated (ev_MessageID ev) \<lparr>up_status = ''delivered'', up_last_error = None, up_delivered_at = Some t\<rparr> d1 d')"

abbreviation refunded_credit :: "DeliveryEvent \<Rightarrow> int \<Rightarrow> credit \<Rightarrow> credit" where
  "refunded_credit ev n \<equiv> refund_credit (ev_WalletID ev) (ev_MessageID ev) n"

text \<open>
  The settlement of a message whose record is in the tables \<open>d1\<close>: refunded, or delivered and
  debited, and the credit with it. \<open>d2\<close> is \<open>d1\<close> unless the commit of the debit reported an error
  and took effect nevertheless, which only happens if \<open>amb\<close> holds.
\<close>

definition settled :: "DeliveryEvent \<Rightarrow> int \<Rightarrow> Money \<Rightarrow> bool \<Rightarrow> bool \<Rightarrow> db \<Rightarrow> credit \<Rightarrow> db \<Rightarrow> credit \<Rightarrow> bool" where
  "settled ev n b out amb d1 cr d' cr' \<longleftrightarrow>
    out \<and> delivered_db ev b d1 d' \<and> cr' = commit_credit (ev_MessageID ev) cr
    \<or> (\<exists>d2 reason. (d2 = d1 \<or> out \<and> amb \<and> delivered_db ev b d1 d2) \<and> refunded_db ev reason d2 d' \<and> cr' = refunded_credit ev n cr)"

text \<open>An unfinished message: nothing that the settlement would not do has been done.\<close>

definition unsettled :: "DeliveryEvent \<Rightarrow> int \<Rightarrow> Money \<Rightarrow> bool \<Rightarrow> bool \<Rightarrow> db \<Rightarrow> credit \<Rightarrow> db \<Rightarrow> credit \<Rightarrow> bool" where
  "unsettled ev n b out amb d1 cr d' cr' \<longleftrightarrow>
    d' = d1 \<and> (cr' = cr \<or> cr' = refunded_credit ev n cr)
    \<or> out \<and> delivered_db ev b d1 d' \<and> (cr' = cr \<or> amb \<and> cr' = refunded_credit ev n cr)"

lemma begun_terminal: "begun ev d d1 \<Longrightarrow> terminal_in d1 (ev_MessageID ev) \<longleftrightarrow> terminal_in d (ev_MessageID ev)"
  by (auto simp: begun_def terminal_in_def set_delivery_def new_delivery_def is_terminal_def split: if_splits)

lemma begun_wallets: "begun ev d d1 \<Longrightarrow> wallets d1 = wallets d \<and> wallet_transactions d1 = wallet_transactions d"
  by (auto simp: begun_def set_delivery_def split: if_splits)

section \<open>The database steps\<close>

context gorm_db
begin

lemma load_record_effect:
  assumes "load_record G ev w = (r, w')"
  shows "frame w' = frame w \<and> (case r of
      Inr record \<Rightarrow> begun ev (dbv w) (dbv w') \<and> sms_deliveries (dbv w') (ev_MessageID ev) = Some record
        \<and> (is_terminal record \<longleftrightarrow> terminal_in (dbv w) (ev_MessageID ev))
    | Inl e \<Rightarrow> dbv w' = dbv w)"
proof -
  obtain x w1 where f: "FirstDelivery G (ev_MessageID ev) w = (x, w1)" by force
  have w1: "frame w1 = frame w" "dbv w1 = dbv w" using frames(5) [of "ev_MessageID ev" w] queries(2) [of "ev_MessageID ev" w] f by simp_all
  obtain y w2 where c: "CreateDelivery G (new_delivery ev) w1 = (y, w2)" by force
  have w2: "frame w2 = frame w1" using frames(6) [of "new_delivery ev" w1] c by simp
  have m: "dm_MessageID (new_delivery ev) = ev_MessageID ev" by (simp add: new_delivery_def)
  show ?thesis
  proof (cases "x = Inl ErrRecordNotFound")
    case True
    then have "sms_deliveries (dbv w) (ev_MessageID ev) = None" using first_delivery [OF f] by simp
    then show ?thesis using assms True f c w1 w2 m create_delivery [OF c]
      by (auto simp: load_record_def begun_def terminal_in_def set_delivery_def is_terminal_def new_delivery_def split: sum.splits)
  next
    case False
    then show ?thesis using assms f w1 first_delivery [OF f]
      by (auto simp: load_record_def begun_def terminal_in_def split: sum.splits if_splits)
  qed
qed

lemma beginDelivery_effect:
  assumes "beginDelivery G ev w = ((tm, err), w')"
  shows "frame w' = frame w \<and> (tm \<longrightarrow> terminal_in (dbv w) (ev_MessageID ev))
    \<and> (err = None \<longrightarrow> begun ev (dbv w) (dbv w') \<and> (tm \<longleftrightarrow> terminal_in (dbv w) (ev_MessageID ev)))
    \<and> (dbv w' = dbv w \<or> begun ev (dbv w) (dbv w'))"
proof -
  obtain r w1 where t: "Transaction G (begin_tx G ev) w = (r, w1)" by force
  have r: "w' = w1" "case r of Inl (e, cap) \<Rightarrow> tm = (cap = CTerminal True) \<and> err = Some e | Inr cap \<Rightarrow> tm = (cap = CTerminal True) \<and> err = None"
    using assms t by (auto simp: beginDelivery_def split: sum.splits)
  have fc: "frame v' = frame v \<and> (case x of Inr cap \<Rightarrow> begun ev (dbv v) (dbv v') \<and> cap = CTerminal (terminal_in (dbv v) (ev_MessageID ev)) | Inl e \<Rightarrow> True)"
    if "begin_tx G ev v = (x, v')" for v x v'
  proof -
    obtain y v1 where "load_record G ev v = (y, v1)" by force
    with load_record_effect [OF this] that show ?thesis by (cases y) (auto simp: begin_tx_def)
  qed
  from transaction_ok [OF t] show ?thesis
  proof (elim disjE exE conjE)
    fix v x v' assume a: "dbv v = dbv w" "frame v = frame w" "begin_tx G ev v = (x, v')" "frame w1 = frame v'"
      and c: "case x of Inl e \<Rightarrow> r = Inl (e, CNone) \<and> dbv w1 = dbv w
        | Inr a \<Rightarrow> r = Inr a \<and> dbv w1 = dbv v' \<or> (\<exists>e. r = Inl (e, a)) \<and> (dbv w1 = dbv w \<or> dbv w1 = dbv v')"
    from fc [OF a(3)] a c r show ?thesis by (cases x) auto
  qed (use r in auto)
qed

lemma markDelivery_effect:
  assumes "markDelivery G mid st e da w = (r, w')"
  shows "frame w' = frame w \<and> (updated mid \<lparr>up_status = st, up_last_error = Some e, up_delivered_at = da\<rparr> (dbv w) (dbv w')
    \<or> r \<noteq> None \<and> dbv w' = dbv w)"
  using assms update_delivery [of mid _ w r w'] frames(7) [of mid "\<lparr>up_status = st, up_last_error = Some e, up_delivered_at = da\<rparr>" w]
  by (auto simp: markDelivery_def updated_def)

lemma record_effect:
  assumes "mutateAndRecord G None i a ref desc typ w = (r, w')" "wallet_has (dbv w) i b" "db_money a"
    "typ = TransactionTypeCredit \<longrightarrow> db_money (new_balance typ b a)"
  shows "frame w' = frame w \<and> (\<forall>wal. r = Inr wal \<longrightarrow> (typ = TransactionTypeDebit \<longrightarrow> units a \<le> units b)
    \<and> changed i (new_balance typ b a) (if typ = TransactionTypeDebit then fneg (Float64 a) else Float64 a)
        (TransactionType_string typ) ref desc (dbv w) (dbv w'))"
proof -
  from assms(2) obtain m where m: "wallets (dbv w) i = Some m" "wm_Balance m = Float64 b" "db_money b"
    by (auto simp: wallet_has_def)
  obtain r0 w0 where t: "Transaction G (mutate_tx G i a ref desc typ) w = (r0, w0)" by force
  have "w' = w0" "\<forall>wal. r = Inr wal \<longrightarrow> (\<exists>x. r0 = Inr x)"
    using assms(1) t by (auto simp: mutateAndRecord_def finish_def set_cache_def split: sum.splits captured.splits)
  with mutate_effect [OF m assms(3,4) t] show ?thesis by auto
qed

end

section \<open>The reservation flow\<close>

text \<open>
  The sender touches neither the database nor the credit; what is observed of it are the events
  it handed to a provider, at most one per call and exactly one if it succeeds.
\<close>

locale worker_flow = credit_flow G R dbv cred ok sent
  for G :: "'w gorm" and R :: "'w ReservationStore" and dbv :: "'w \<Rightarrow> db" and cred :: "'w \<Rightarrow> credit"
    and ok :: "'w \<Rightarrow> bool" and sent :: "'w \<Rightarrow> (ctx \<times> DeliveryEvent) list" +
  fixes send :: "ctx \<Rightarrow> DeliveryEvent \<Rightarrow> 'w \<Rightarrow> error option \<times> 'w" and now :: "'w \<Rightarrow> time \<times> 'w"
  assumes send_law: "send c ev w = (ro, w') \<Longrightarrow> dbv w' = dbv w \<and> cred w' = cred w \<and> ok w' = ok w
      \<and> (ro \<noteq> None \<and> sent w' = sent w \<or> sent w' = sent w @ [(c, ev)])"
    and now_law: "(dbv (snd (now w)), cred (snd (now w)), ok (snd (now w)), sent (snd (now w))) = (dbv w, cred w, ok w, sent w)"
begin

lemma now_same: "now w = (t, w') \<Longrightarrow> dbv w' = dbv w \<and> cred w' = cred w \<and> ok w' = ok w \<and> sent w' = sent w"
  using now_law [of w] by simp

lemma debit_tx_effect:
  assumes "debit_tx G now ev w = (r, w')" "wallet_has (dbv w) (ev_WalletID ev) b" "db_money \<lparr>units = ev_CostUnits ev\<rparr>"
  shows "(cred w', ok w', sent w') = (cred w, ok w, sent w) \<and> (\<forall>x. r = Inr x \<longrightarrow> delivered_db ev b (dbv w) (dbv w'))"
proof -
  let ?m = "\<lparr>units = ev_CostUnits ev\<rparr>"
  have m: "MoneyFromUnits (ev_CostUnits ev) = Inr ?m" using assms(3) by (simp add: MoneyFromUnits_def db_money_def)
  obtain r1 w1 where d: "DeductAndRecord G None (ev_WalletID ev) ?m (ev_MessageID ev) ''SMS delivery'' w = (r1, w1)" by (metis surj_pair)
  note e = db.record_effect [OF d [unfolded DeductAndRecord_def] assms(2,3)]
  show ?thesis
  proof (cases r1)
    case (Inr wal)
    obtain t w2 where n: "now w1 = (t, w2)" by (metis surj_pair)
    let ?u = "\<lparr>up_status = ''delivered'', up_last_error = None, up_delivered_at = Some t\<rparr>"
    obtain r3 w3 where u: "UpdateDelivery G (ev_MessageID ev) ?u w2 = (r3, w3)" by (metis surj_pair)
    have r: "w' = w3" "(\<exists>x. r = Inr x) \<longrightarrow> r3 = None"
      using assms(1) m d Inr n u by (auto simp: debit_tx_def split: option.splits)
    show ?thesis
      using r e Inr now_same [OF n] db.frames(7) [of "ev_MessageID ev" ?u w2] db.update_delivery [OF u] u
      by (auto simp: delivered_db_def updated_def new_balance_def)
  qed (use assms(1) m d e in \<open>auto simp: debit_tx_def\<close>)
qed

lemma debit_effect:
  assumes "Transaction G (debit_tx G now ev) w = (r, w')" "wallet_has (dbv w) (ev_WalletID ev) b" "db_money \<lparr>units = ev_CostUnits ev\<rparr>"
  shows "(cred w', ok w', sent w') = (cred w, ok w, sent w) \<and> (case r of
      Inr x \<Rightarrow> delivered_db ev b (dbv w) (dbv w')
    | Inl e \<Rightarrow> dbv w' = dbv w \<or> \<not> clean_commits G dbv \<and> delivered_db ev b (dbv w) (dbv w'))"
proof -
  have "(cred w2, ok w2, sent w2) = (cred w1, ok w1, sent w1) \<and> (\<forall>x. r0 = Inr x \<longrightarrow> True \<and> delivered_db ev b (dbv w) (dbv w2))"
    if "dbv w1 = dbv w" "debit_tx G now ev w1 = (r0, w2)" for w1 r0 w2
    using debit_tx_effect [OF that(2), of b] assms(2,3) that(1) by simp
  from db.transaction_all_or_nothing [OF assms(1), of "\<lambda>_. True" "delivered_db ev b", OF this] assms(1) show ?thesis
    by (cases r) (auto dest: clean_commitsD)
qed

text \<open>The credit is available to the wallet, and giving back what is held does not overflow.\<close>

definition credit_ready :: "'w \<Rightarrow> DeliveryEvent \<Rightarrow> int \<Rightarrow> bool" where
  "credit_ready w ev n \<longleftrightarrow> ok w \<and> c_avail (cred w) (ev_WalletID ev) = Some n
    \<and> (\<forall>a. c_held (cred w) (ev_MessageID ev) = Some a \<longrightarrow> n + a < 2 ^ 52)"

lemma refund_and_mark_effect:
  assumes "refund_and_mark G R ev wrap reason w = (r, w')" "credit_ready w ev n"
  shows "ok w' \<and> sent w' = sent w \<and> (dbv w' = dbv w \<and> (cred w' = cred w \<or> cred w' = refunded_credit ev n (cred w)) \<and> r \<noteq> None
    \<or> refunded_db ev reason (dbv w) (dbv w') \<and> cred w' = refunded_credit ev n (cred w))"
proof -
  obtain ro w1 where f: "rs_Refund R (ev_WalletID ev) (ev_MessageID ev) w = (ro, w1)" by (metis surj_pair)
  have 1: "ok w1" "dbv w1 = dbv w" "sent w1 = sent w" "cred w1 = refunded_credit ev n (cred w) \<or> ro \<noteq> None \<and> cred w1 = cred w"
    using res.refund_law [OF _ _ _ f, of n] assms(2) by (auto simp: credit_ready_def)
  show ?thesis
  proof (cases ro)
    case None
    then have "markDelivery G (ev_MessageID ev) ''refunded'' reason None w1 = (r, w')" using assms(1) f by (simp add: refund_and_mark_def)
    with db.markDelivery_effect [OF this] 1 None show ?thesis by (auto simp: refunded_db_def)
  qed (use assms(1) f 1 in \<open>auto simp: refund_and_mark_def\<close>)
qed

lemma settle_effect:
  assumes "settle G R now ev w = (r, w')" "credit_ready w ev n" "wallet_has (dbv w) (ev_WalletID ev) b" "db_money \<lparr>units = ev_CostUnits ev\<rparr>"
  shows "ok w' \<and> sent w' = sent w
    \<and> (delivered_db ev b (dbv w) (dbv w') \<and> (cred w' = commit_credit (ev_MessageID ev) (cred w) \<or> r \<noteq> None \<and> cred w' = cred w)
      \<or> (\<exists>d2. (d2 = dbv w \<or> \<not> clean_commits G dbv \<and> delivered_db ev b (dbv w) d2)
          \<and> (dbv w' = d2 \<and> (cred w' = cred w \<or> cred w' = refunded_credit ev n (cred w)) \<and> r \<noteq> None
            \<or> (\<exists>reason. refunded_db ev reason d2 (dbv w')) \<and> cred w' = refunded_credit ev n (cred w))))"
proof -
  obtain x w1 where t: "Transaction G (debit_tx G now ev) w = (x, w1)" by (metis surj_pair)
  note e = debit_effect [OF t assms(3,4)]
  have w1: "ok w1" "cred w1 = cred w" "sent w1 = sent w" "credit_ready w1 ev n" using e assms(2) by (auto simp: credit_ready_def)
  show ?thesis
  proof (cases x)
    case (Inr y)
    then have c: "rs_Commit R (ev_MessageID ev) w1 = (r, w')" using assms(1) t by (simp add: settle_def)
    show ?thesis using res.commit_law [OF w1(1) c] e Inr w1 by auto
  next
    case (Inl y)
    obtain err cap where y: "y = (err, cap)" by (cases y)
    show ?thesis
    proof (cases "is_panic err")
      case True
      then have "r = Some err" "w' = w1" using assms(1) t Inl y by (simp_all add: settle_def)
      then show ?thesis using e w1 Inl y by auto
    next
      case False
      then have m: "refund_and_mark G R ev (\<lambda>refundErr. Wrapf ''commit debit: '' err (''; refund reservation: '' @ error_text refundErr))
          (error_text err) w1 = (r, w')"
        using assms(1) t Inl y by (simp add: settle_def)
      have "dbv w1 = dbv w \<or> \<not> clean_commits G dbv \<and> delivered_db ev b (dbv w) (dbv w1)" using e Inl y by simp
      then show ?thesis using refund_and_mark_effect [OF m w1(4)] w1 by fastforce
    qed
  qed
qed

lemma expired_same: "expired now ev w = (late, w') \<Longrightarrow> dbv w' = dbv w \<and> cred w' = cred w \<and> ok w' = ok w \<and> sent w' = sent w"
  by (auto simp: expired_def dest: now_same split: if_splits prod.splits)

lemma providerContext_same:
  "providerContext W now c ev w = (c', w') \<Longrightarrow> dbv w' = dbv w \<and> cred w' = cred w \<and> ok w' = ok w \<and> sent w' = sent w"
  by (auto simp: providerContext_def clamp_timeout_def WithTimeout_def Let_def dest!: now_same split: if_splits prod.splits)

lemma send_and_settle:
  assumes "(case send c' ev w of
      (Some err, w5) \<Rightarrow> if is_panic err then (Some err, w5) else refund_and_mark G R ev (\<lambda>e. e) (error_text err) w5
    | (None, w5) \<Rightarrow> settle G R now ev w5) = (r, w')"
    "credit_ready w ev n" "wallet_has (dbv w) (ev_WalletID ev) b" "db_money \<lparr>units = ev_CostUnits ev\<rparr>"
  shows "\<exists>l. ok w' \<and> sent w' = sent w @ l \<and> (l = [] \<or> l = [(c', ev)])
    \<and> (settled ev n b (l \<noteq> []) (\<not> clean_commits G dbv) (dbv w) (cred w) (dbv w') (cred w')
      \<or> r \<noteq> None \<and> unsettled ev n b (l \<noteq> []) (\<not> clean_commits G dbv) (dbv w) (cred w) (dbv w') (cred w'))"
proof -
  obtain ro w5 where s: "send c' ev w = (ro, w5)" by (metis surj_pair)
  have w5: "dbv w5 = dbv w" "cred w5 = cred w" "credit_ready w5 ev n" "ok w5" using send_law [OF s] assms(2) by (auto simp: credit_ready_def)
  obtain l where l: "sent w5 = sent w @ l" "l = [] \<or> l = [(c', ev)]" "ro = None \<longrightarrow> l \<noteq> []" using send_law [OF s] by auto
  show ?thesis
  proof (cases ro)
    case None
    then have "settle G R now ev w5 = (r, w')" using assms(1) s by simp
    from settle_effect [OF this w5(3), of b] assms(3,4) w5 l None show ?thesis
      unfolding settled_def unsettled_def by (intro exI [of _ l]) auto
  next
    case (Some err)
    show ?thesis
    proof (cases "is_panic err")
      case False
      then have "refund_and_mark G R ev (\<lambda>e. e) (error_text err) w5 = (r, w')" using assms(1) s Some by simp
      from refund_and_mark_effect [OF this w5(3)] w5 l show ?thesis
        unfolding settled_def unsettled_def by (intro exI [of _ l]) auto
    qed (use assms(1) s Some w5 l in \<open>auto simp: unsettled_def\<close>)
  qed
qed

lemma processReserved_outcome:
  assumes W: "wk_db W = G" "wk_sender W = send" and run: "processReserved W R now c ev w = (r, w')"
    and t: "\<not> terminal_in (dbv w) (ev_MessageID ev)" and cr: "credit_ready w ev n"
    and b: "wallet_has (dbv w) (ev_WalletID ev) b" "db_money \<lparr>units = ev_CostUnits ev\<rparr>"
  shows "\<exists>l. ok w' \<and> sent w' = sent w @ l \<and> (l = [] \<or> (\<exists>c'. l = [(c', ev)]) \<and> c_held (cred w) (ev_MessageID ev) \<noteq> None)
    \<and> (r \<noteq> None \<and> dbv w' = dbv w \<and> cred w' = cred w
      \<or> (\<exists>d1. begun ev (dbv w) d1 \<and> (settled ev n b (l \<noteq> []) (\<not> clean_commits G dbv) d1 (cred w) (dbv w') (cred w')
          \<or> r \<noteq> None \<and> unsettled ev n b (l \<noteq> []) (\<not> clean_commits G dbv) d1 (cred w) (dbv w') (cred w'))))"
proof -
  obtain tm err w1 where 1: "beginDelivery G ev w = ((tm, err), w1)" by (metis surj_pair)
  have e1: "cred w1 = cred w" "ok w1" "sent w1 = sent w" "\<not> tm" "dbv w1 = dbv w \<or> begun ev (dbv w) (dbv w1)"
    "err = None \<longrightarrow> begun ev (dbv w) (dbv w1)"
    using db.beginDelivery_effect [OF 1] t cr by (auto simp: credit_ready_def)
  show ?thesis
  proof (cases err)
    case (Some x)
    then show ?thesis using run 1 e1 W by (auto simp: processReserved_def unsettled_def)
  next
    case None
    obtain late w2 where 2: "expired now ev w1 = (late, w2)" by (metis surj_pair)
    obtain rb w3 where 3: "rs_IsReserved R (ev_MessageID ev) w2 = (rb, w3)" by (metis surj_pair)
    obtain c' w4 where 4: "providerContext W now c ev w3 = (c', w4)" by (metis surj_pair)
    have e2: "dbv w2 = dbv w1" "cred w2 = cred w" "ok w2" "sent w2 = sent w" using expired_same [OF 2] e1 by auto
    have e3: "dbv w3 = dbv w1" "cred w3 = cred w" "ok w3" "sent w3 = sent w"
      "\<forall>x. rb = Inr x \<longrightarrow> x = (c_held (cred w) (ev_MessageID ev) \<noteq> None)"
      using res.is_reserved_law [OF e2(3) 3] e2 by auto
    have e4: "dbv w4 = dbv w1" "cred w4 = cred w" "ok w4" "sent w4 = sent w" using providerContext_same [OF 4] e3 by auto
    have bg: "begun ev (dbv w) (dbv w1)" using e1 None by simp
    have cr': "credit_ready w2 ev n" "credit_ready w4 ev n" "wallet_has (dbv w4) (ev_WalletID ev) b"
      using cr e2 e4 b begun_wallets [OF bg] by (auto simp: credit_ready_def wallet_has_def)
    have P: "processReserved W R now c ev w = (if late then refund_and_mark G R ev (\<lambda>e. e) sla_expired w2
       else (case rb of Inl e \<Rightarrow> (Some e, w3)
        | Inr reserved \<Rightarrow> if \<not> reserved then markDelivery G (ev_MessageID ev) ''refunded'' ''credit reservation is missing'' None w3
          else (case send c' ev w4 of
             (Some err, w5) \<Rightarrow> if is_panic err then (Some err, w5) else refund_and_mark G R ev (\<lambda>e. e) (error_text err) w5
           | (None, w5) \<Rightarrow> settle G R now ev w5)))"
      using 1 2 3 4 W None e1(4) by (auto simp: processReserved_def split: sum.splits)
    consider "late" | e where "\<not> late" "rb = Inl e" | "\<not> late" "rb = Inr False" | "\<not> late" "rb = Inr True" by (cases rb) auto
    then show ?thesis
    proof cases
      case 1
      then have "refund_and_mark G R ev (\<lambda>e. e) sla_expired w2 = (r, w')" using run P by simp
      from refund_and_mark_effect [OF this cr'(1)] show ?thesis
        using e2 bg unfolding settled_def unsettled_def by (intro exI [of _ "[]"]) auto
    next
      case 2
      then show ?thesis using run P e3 bg unfolding unsettled_def by (intro exI [of _ "[]"]) auto
    next
      case 3
      then have m: "markDelivery G (ev_MessageID ev) ''refunded'' ''credit reservation is missing'' None w3 = (r, w')"
        using run P by simp
      have h: "c_held (cred w) (ev_MessageID ev) = None" using 3 e3(5) by blast
      from db.markDelivery_effect [OF m] show ?thesis
        using e3 bg h unfolding settled_def unsettled_def refunded_db_def by (intro exI [of _ "[]"]) (auto simp: refund_credit_def)
    next
      case 4
      then have "(case send c' ev w4 of
          (Some err, w5) \<Rightarrow> if is_panic err then (Some err, w5) else refund_and_mark G R ev (\<lambda>e. e) (error_text err) w5
        | (None, w5) \<Rightarrow> settle G R now ev w5) = (r, w')" using run P by simp
      from send_and_settle [OF this cr'(2,3) b(2)] 4 e3(5) e4 bg show ?thesis by metis
    qed
  qed
qed

lemma processReserved_terminal:
  assumes W: "wk_db W = G" and run: "processReserved W R now c ev w = (r, w')" and w: "ok w" "terminal_in (dbv w) (ev_MessageID ev)"
  shows "ok w' \<and> sent w' = sent w \<and> dbv w' = dbv w
    \<and> (cred w' = commit_credit (ev_MessageID ev) (cred w) \<or> r \<noteq> None \<and> cred w' = cred w)"
proof -
  obtain tm err w1 where 1: "beginDelivery G ev w = ((tm, err), w1)" by (metis surj_pair)
  have e1: "cred w1 = cred w" "ok w1" "sent w1 = sent w" "dbv w1 = dbv w" "err = None \<longrightarrow> tm"
    using db.beginDelivery_effect [OF 1] w by (auto simp: begun_def terminal_in_def)
  show ?thesis
  proof (cases tm)
    case True
    then have "rs_Commit R (ev_MessageID ev) w1 = (r, w')" using run 1 W by (simp add: processReserved_def)
    from res.commit_law [OF e1(2) this] e1 show ?thesis by auto
  qed (use run 1 W e1 in \<open>auto simp: processReserved_def\<close>)
qed

lemma processReserved_expired:
  assumes W: "wk_db W = G" and run: "processReserved W R now c ev w = (r, w')" and w: "credit_ready w ev n"
    and late: "ev_DeadlineAt ev \<noteq> 0" "\<And>v. ev_DeadlineAt ev < fst (now v)"
  shows "sent w' = sent w"
proof -
  obtain tm err w1 where 1: "beginDelivery G ev w = ((tm, err), w1)" by (metis surj_pair)
  have e1: "ok w1" "sent w1 = sent w" "cred w1 = cred w" using db.beginDelivery_effect [OF 1] w by (auto simp: credit_ready_def)
  obtain t w2 where n: "now w1 = (t, w2)" by (metis surj_pair)
  then have 2: "expired now ev w1 = (True, w2)" using late(1) late(2) [of w1] by (simp add: expired_def)
  have e2: "credit_ready w2 ev n" "sent w2 = sent w" using expired_same [OF 2] e1 w by (auto simp: credit_ready_def)
  consider "tm" | "\<not> tm" "err \<noteq> None" | "\<not> tm" "err = None" by blast
  then show ?thesis
  proof cases
    case 1
    then have "rs_Commit R (ev_MessageID ev) w1 = (r, w')" using run \<open>beginDelivery G ev w = ((tm, err), w1)\<close> W by (simp add: processReserved_def)
    from res.commit_law [OF e1(1) this] e1 show ?thesis by auto
  next
    case 3
    then have "refund_and_mark G R ev (\<lambda>e. e) sla_expired w2 = (r, w')"
      using run \<open>beginDelivery G ev w = ((tm, err), w1)\<close> W 2 by (simp add: processReserved_def)
    from refund_and_mark_effect [OF this e2(1)] e2 show ?thesis by auto
  qed (use run \<open>beginDelivery G ev w = ((tm, err), w1)\<close> W e1 in \<open>auto simp: processReserved_def\<close>)
qed

end

end
