(* ===== verification/LegacyFlow.thy ===== *)
theory LegacyFlow
  imports WorkerFlow PoolProperties
begin

text \<open>
  The legacy flow of the worker, whose whole work on a message is one transaction, for every
  database and sender that keep their contracts; and the pool of providers as such a sender.
\<close>

section \<open>Outcomes\<close>

text \<open>The cost paid back to balance \<open>b\<close>, with its ledger entry, and the message marked as refunded.\<close>

definition paid_back :: "DeliveryEvent \<Rightarrow> Money \<Rightarrow> string \<Rightarrow> db \<Rightarrow> db \<Rightarrow> bool" where
  "paid_back ev b reason d d' \<longleftrightarrow> (\<exists>d1.
    changed (ev_WalletID ev) \<lparr>units = units b + ev_CostUnits ev\<rparr> (Float64 \<lparr>units = ev_CostUnits ev\<rparr>) ''credit''
      (ev_MessageID ev) ''Refund for failed SMS delivery'' d d1
    \<and> refunded_db ev reason d1 d')"

definition marked_delivered :: "DeliveryEvent \<Rightarrow> db \<Rightarrow> db \<Rightarrow> bool" where
  "marked_delivered ev d d' \<longleftrightarrow> (\<exists>t. updated (ev_MessageID ev)
    \<lparr>up_status = ''delivered'', up_last_error = None, up_delivered_at = Some t\<rparr> d d')"

text \<open>What the transaction leaves behind if it succeeds; \<open>out\<close> tells whether the message was sent.\<close>

definition legacy_done :: "DeliveryEvent \<Rightarrow> Money \<Rightarrow> bool \<Rightarrow> db \<Rightarrow> db \<Rightarrow> bool" where
  "legacy_done ev b out d d' \<longleftrightarrow> (\<exists>d1. begun ev d d1 \<and> (if terminal_in d (ev_MessageID ev) then d' = d1
    else (\<exists>reason. paid_back ev b reason d1 d') \<or> out \<and> marked_delivered ev d1 d'))"

section \<open>The transaction\<close>

locale legacy_worker = db: gorm_db G dbv sent
  for G :: "'w gorm" and dbv :: "'w \<Rightarrow> db" and sent :: "'w \<Rightarrow> (ctx \<times> DeliveryEvent) list" +
  fixes send :: "ctx \<Rightarrow> DeliveryEvent \<Rightarrow> 'w \<Rightarrow> error option \<times> 'w" and now :: "'w \<Rightarrow> time \<times> 'w"
  assumes send_db: "send c ev w = (ro, w') \<Longrightarrow> dbv w' = dbv w \<and> (ro \<noteq> None \<and> sent w' = sent w \<or> sent w' = sent w @ [(c, ev)])"
    and now_db: "now w = (t, w') \<Longrightarrow> dbv w' = dbv w \<and> sent w' = sent w"
begin

lemma update_record_effect:
  assumes "update_record G rec u w = (r, w')" "dm_MessageID rec = mid"
  shows "sent w' = sent w \<and> (r = None \<longrightarrow> updated mid u (dbv w) (dbv w'))"
  using assms db.update_delivery [of mid u w r w'] db.frames(7) [of mid u w] by (auto simp: update_record_def updated_def split: if_splits)

lemma refund_effect:
  assumes "refund G rec ev reason w = (r, w')" "dm_MessageID rec = ev_MessageID ev"
    "wallet_has (dbv w) (ev_WalletID ev) b" "0 \<le> ev_CostUnits ev" "units b + ev_CostUnits ev < 10 ^ 15"
  shows "sent w' = sent w \<and> (r = None \<longrightarrow> paid_back ev b reason (dbv w) (dbv w'))"
proof -
  let ?m = "\<lparr>units = ev_CostUnits ev\<rparr>"
  have b: "0 \<le> units b" using assms(3) by (auto simp: wallet_has_def db_money_def)
  have m: "MoneyFromUnits (ev_CostUnits ev) = Inr ?m" "db_money ?m"
    "db_money (new_balance TransactionTypeCredit b ?m)"
    using assms(4,5) b by (simp_all add: MoneyFromUnits_def db_money_def new_balance_def)
  obtain r1 w1 where c: "CreditAndRecord G None (ev_WalletID ev) ?m (ev_MessageID ev) ''Refund for failed SMS delivery'' w = (r1, w1)"
    by (metis surj_pair)
  note e = db.record_effect [OF c [unfolded CreditAndRecord_def] assms(3) m(2)]
  show ?thesis
  proof (cases r1)
    case (Inr wal)
    then have "update_record G rec \<lparr>up_status = ''refunded'', up_last_error = Some reason, up_delivered_at = None\<rparr> w1 = (r, w')"
      using assms(1) m(1) c by (simp add: refund_def)
    from update_record_effect [OF this assms(2)] e Inr m(3) show ?thesis
      by (auto simp: paid_back_def refunded_db_def new_balance_def)
  next
    case (Inl x)
    then show ?thesis using assms(1) m c e by (auto simp: refund_def)
  qed
qed

lemma expired_db: "expired now ev w = (late, w') \<Longrightarrow> dbv w' = dbv w \<and> sent w' = sent w"
  by (auto simp: expired_def dest: now_db split: if_splits prod.splits)

lemma legacy_tx_effect:
  assumes W: "wk_db W = G" "wk_sender W = send" and run: "legacy_tx W now c ev w = (r, w')"
    and b: "wallet_has (dbv w) (ev_WalletID ev) b" "0 \<le> ev_CostUnits ev" "units b + ev_CostUnits ev < 10 ^ 15"
    and keyed: "\<And>mid d. sms_deliveries (dbv w) mid = Some d \<Longrightarrow> dm_MessageID d = mid"
  shows "\<exists>l. sent w' = sent w @ l \<and> (l = [] \<or> l = [(c, ev)] \<and> \<not> terminal_in (dbv w) (ev_MessageID ev))
    \<and> (\<forall>x. r = Inr x \<longrightarrow> legacy_done ev b (l \<noteq> []) (dbv w) (dbv w'))"
proof -
  obtain x w1 where load: "load_record G ev w = (x, w1)" by (metis surj_pair)
  note e1 = db.load_record_effect [OF load]
  show ?thesis
  proof (cases x)
    case (Inr rec)
    have bg: "begun ev (dbv w) (dbv w1)" "sent w1 = sent w" and tm: "is_terminal rec \<longleftrightarrow> terminal_in (dbv w) (ev_MessageID ev)"
      using e1 Inr by simp_all
    have id: "dm_MessageID rec = ev_MessageID ev"
      using e1 Inr keyed [of "ev_MessageID ev"] by (auto simp: begun_def set_delivery_def new_delivery_def split: if_splits)
    obtain late w2 where ex: "expired now ev w1 = (late, w2)" by (metis surj_pair)
    obtain ro w3 where sd: "send c ev w2 = (ro, w3)" by (metis surj_pair)
    obtain t w4 where nw: "now w3 = (t, w4)" by (metis surj_pair)
    have e: "dbv w2 = dbv w1" "dbv w3 = dbv w1" "dbv w4 = dbv w1" "sent w2 = sent w" "sent w4 = sent w3"
      using expired_db [OF ex] send_db [OF sd] now_db [OF nw] bg by simp_all
    obtain l where l: "sent w3 = sent w @ l" "l = [] \<or> l = [(c, ev)]" "ro = None \<longrightarrow> l \<noteq> []" using send_db [OF sd] e by auto
    have wal: "wallet_has (dbv w2) (ev_WalletID ev) b" "wallet_has (dbv w3) (ev_WalletID ev) b"
      using b(1) begun_wallets [OF bg(1)] e by (simp_all add: wallet_has_def)
    note run' = run [unfolded legacy_tx_def W load prod.case Inr sum.case ex sd nw]
    consider "is_terminal rec" | "\<not> is_terminal rec" "late" | err where "\<not> is_terminal rec" "\<not> late" "ro = Some err"
      | "\<not> is_terminal rec" "\<not> late" "ro = None" by (cases ro) auto
    then show ?thesis
    proof cases
      case 1
      then show ?thesis using run' bg tm by (auto simp: legacy_done_def)
    next
      case 2
      obtain q v where q: "refund G rec ev sla_expired w2 = (q, v)" by (metis surj_pair)
      show ?thesis using run' 2 q refund_effect [OF q id wal(1) b(2,3)] bg e tm
        by (intro exI [of _ "[]"]) (auto simp: as_closure_def legacy_done_def split: option.splits)
    next
      case 3
      obtain q v where q: "refund G rec ev (error_text err) w3 = (q, v)" by (metis surj_pair)
      show ?thesis using run' 3 q refund_effect [OF q id wal(2) b(2,3)] bg e tm l
        by (intro exI [of _ l]) (auto simp: as_closure_def legacy_done_def split: option.splits if_splits)
    next
      case 4
      obtain q v where q: "update_record G rec \<lparr>up_status = ''delivered'', up_last_error = None, up_delivered_at = Some t\<rparr> w4 = (q, v)"
        by (metis surj_pair)
      show ?thesis using run' 4 q update_record_effect [OF q id] bg e tm l
        by (intro exI [of _ l]) (auto simp: as_closure_def legacy_done_def marked_delivered_def split: option.splits)
    qed
  qed (use run load W e1 in \<open>auto simp: legacy_tx_def\<close>)
qed

lemma processLegacy_outcome:
  assumes W: "wk_db W = G" "wk_sender W = send" and run: "processLegacy W now c ev w = (r, w')"
    and b: "wallet_has (dbv w) (ev_WalletID ev) b" "0 \<le> ev_CostUnits ev" "units b + ev_CostUnits ev < 10 ^ 15"
    and keyed: "\<And>mid d. sms_deliveries (dbv w) mid = Some d \<Longrightarrow> dm_MessageID d = mid"
  shows "\<exists>l. sent w' = sent w @ l \<and> (l = [] \<or> l = [(c, ev)] \<and> \<not> terminal_in (dbv w) (ev_MessageID ev))
    \<and> (legacy_done ev b (l \<noteq> []) (dbv w) (dbv w') \<or> r \<noteq> None \<and> dbv w' = dbv w)"
proof -
  obtain x w1 where t: "Transaction G (legacy_tx W now c ev) w = (x, w1)" by (metis surj_pair)
  have r: "w' = w1" "r = None \<longleftrightarrow> (\<exists>y. x = Inr y)" using run t W by (auto simp: processLegacy_def split: sum.splits)
  from db.transaction_ok [OF t] show ?thesis
  proof (elim disjE exE conjE)
    fix v y v' assume a: "dbv v = dbv w" "sent v = sent w" "legacy_tx W now c ev v = (y, v')" "sent w1 = sent v'"
      and cs: "case y of Inl e \<Rightarrow> x = Inl (e, CNone) \<and> dbv w1 = dbv w
        | Inr a \<Rightarrow> x = Inr a \<and> dbv w1 = dbv v' \<or> (\<exists>e. x = Inl (e, a)) \<and> (dbv w1 = dbv w \<or> dbv w1 = dbv v')"
    from legacy_tx_effect [OF W a(3), of b] b keyed a(1,2) obtain l where l: "sent v' = sent w @ l"
      "l = [] \<or> l = [(c, ev)] \<and> \<not> terminal_in (dbv w) (ev_MessageID ev)" "\<forall>x. y = Inr x \<longrightarrow> legacy_done ev b (l \<noteq> []) (dbv w) (dbv v')"
      by auto
    then show ?thesis using cs r a(4) by (intro exI [of _ l]) (cases y; auto)
  qed (use r in auto)
qed

end

text \<open>A worker of the reservation flow can run the legacy flow as well.\<close>

sublocale worker_flow \<subseteq> legacy: legacy_worker G dbv sent send now
proof -
  have "gorm_db G dbv sent" using db.framed [of "\<lambda>(c, k, s). s"] by simp
  then show "legacy_worker G dbv sent send now"
    by (intro legacy_worker.intro legacy_worker_axioms.intro) (auto dest: send_law now_same)
qed

end
