(* ===== verification/WorkerProps.thy ===== *)
theory WorkerProps
  imports LegacyFlow
begin

text \<open>
  The promises of the delivery worker, over the Redis reservation store: every message is settled
  exactly once and the same way in both stores, a redelivered message is not sent again, an
  expired one is not sent at all, and the time a provider may take is bounded.
\<close>

section \<open>Contracts of the sender and the clock\<close>

text \<open>
  \<^verbatim>\<open>Sender\<close> is an interface of the worker. It leaves everything else that is observed alone and hands
  the event to at most one provider, to exactly one if it succeeds.
\<close>

definition sender_ok :: "('w \<Rightarrow> 'o) \<Rightarrow> ('w \<Rightarrow> (ctx \<times> DeliveryEvent) list) \<Rightarrow> (ctx \<Rightarrow> DeliveryEvent \<Rightarrow> 'w \<Rightarrow> error option \<times> 'w) \<Rightarrow> bool" where
  "sender_ok obs sent send \<longleftrightarrow> (\<forall>c ev w ro w'. send c ev w = (ro, w') \<longrightarrow>
    obs w' = obs w \<and> (ro \<noteq> None \<and> sent w' = sent w \<or> sent w' = sent w @ [(c, ev)]))"

definition clock_ok :: "('w \<Rightarrow> 'o) \<Rightarrow> ('w \<Rightarrow> time \<times> 'w) \<Rightarrow> bool" where
  "clock_ok obs now \<longleftrightarrow> (\<forall>w. obs (snd (now w)) = obs w)"

lemma redis_worker_flow:
  assumes "gorm_db G dbv (\<lambda>w. (red w, sent w))" "redis_client_ok eval red (\<lambda>w. (dbv w, sent w))"
    "sender_ok (\<lambda>w. (dbv w, red w)) sent send" "clock_ok (\<lambda>w. (dbv w, red w, sent w)) now"
  shows "worker_flow G (redis_reservations (Suc fuel) eval loader) dbv (\<lambda>w. redis_credit (red w)) (\<lambda>w. redis_credit_ok (red w)) sent send now"
proof (intro worker_flow.intro redis_credit_flow [OF assms(1,2)] worker_flow_axioms.intro)
  show "dbv w' = dbv w \<and> redis_credit (red w') = redis_credit (red w) \<and> redis_credit_ok (red w') = redis_credit_ok (red w)
      \<and> (ro \<noteq> None \<and> sent w' = sent w \<or> sent w' = sent w @ [(c, ev)])" if "send c ev w = (ro, w')" for c ev w ro w'
    using assms(3) that unfolding sender_ok_def by (metis prod.inject)
qed (use assms(4) in \<open>simp add: clock_ok_def\<close>)

section \<open>The pool as the sender\<close>

text \<open>The round robin pool over the in-process store, whose providers log what they are given.\<close>

lemma memory_pool_sender:
  assumes "providers s \<noteq> []" "length (providers s) < 2 ^ 64" "rrs_state s = memory_store now"
    "\<And>p c e m k v. p \<in> set (providers s) \<Longrightarrow> snd (snd (snd (Send p c e (m, k, v)))) = v @ [(c, e)]"
  shows "sender_ok (\<lambda>w. ()) (\<lambda>w. snd (snd w)) (rrs_Send s)"
  unfolding sender_ok_def
proof (intro allI impI, goal_cases)
  case (1 c ev w ro w')
  have "ro \<noteq> None \<and> (\<lambda>(s, k, v). v) w' = (\<lambda>(s, k, v). v) w \<or> (\<lambda>(s, k, v). v) w' = (\<lambda>(s, k, v). v) w @ [(c, ev)]"
    by (intro memory.send_effect [OF 1 assms(1-3), of "\<lambda>a b. b = a @ [(c, ev)]"], simp only: case_prod_beta)
      (metis assms(4) prod.collapse)
  then show ?case by (auto split: prod.splits)
qed

definition event_logger :: "string \<Rightarrow> (memoryProviderState \<times> time \<times> (ctx \<times> DeliveryEvent) list) Provider" where
  "event_logger nm = \<lparr>Name = nm, Send = \<lambda>c e w. case w of (m, k, v) \<Rightarrow> (None, (m, k, v @ [(c, e)]))\<rparr>"

text \<open>A world with the tables, Redis and the pool, and the worker's sender and clock in it.\<close>

type_synonym gateway = "db \<times> redis_state \<times> memoryProviderState \<times> time \<times> (ctx \<times> DeliveryEvent) list"

definition pool_send :: "(memoryProviderState \<times> time \<times> (ctx \<times> DeliveryEvent) list) RoundRobinSender \<Rightarrow>
    ctx \<Rightarrow> DeliveryEvent \<Rightarrow> gateway \<Rightarrow> error option \<times> gateway" where
  "pool_send s c ev w = (case w of (d, r, x) \<Rightarrow> case rrs_Send s c ev x of (ro, x') \<Rightarrow> (ro, (d, r, x')))"

definition ticking :: "gateway \<Rightarrow> time \<times> gateway" where
  "ticking w = (case w of (d, r, m, t, l) \<Rightarrow> (t, (d, r, m, t + 1, l)))"

abbreviation log_of :: "gateway \<Rightarrow> (ctx \<times> DeliveryEvent) list" where
  "log_of w \<equiv> snd (snd (snd (snd w)))"

definition pool_example :: "(memoryProviderState \<times> time \<times> (ctx \<times> DeliveryEvent) list) RoundRobinSender" where
  "pool_example = newRoundRobinSender [event_logger ''a'', event_logger ''b''] (memory_store (\<lambda>t. (t, t + 1)))"

lemma gateway_contracts:
  "gorm_db mem_gorm fst (\<lambda>w :: gateway. (fst (snd w), log_of w))"
  "redis_client_ok beside_client (\<lambda>w :: gateway. fst (snd w)) (\<lambda>w. (fst w, log_of w))"
  "sender_ok (\<lambda>w. (fst w, fst (snd w))) log_of (pool_send pool_example)"
  "clock_ok (\<lambda>w. (fst w, fst (snd w), log_of w)) ticking"
proof -
  show "gorm_db mem_gorm fst (\<lambda>w :: gateway. (fst (snd w), log_of w))"
    using mem_db.framed [of "\<lambda>x. (fst x, snd (snd (snd x)))"] by simp
  show "redis_client_ok beside_client (\<lambda>w :: gateway. fst (snd w)) (\<lambda>w. (fst w, log_of w))"
    using client_framed [OF beside_client_ok, of "\<lambda>(d, x). (d, snd (snd x))"] by simp
  have "sender_ok (\<lambda>w. ()) (\<lambda>w. snd (snd w)) (rrs_Send pool_example)"
    by (rule memory_pool_sender) (auto simp: pool_example_def newRoundRobinSender_def event_logger_def)
  then show "sender_ok (\<lambda>w. (fst w, fst (snd w))) log_of (pool_send pool_example)"
    unfolding sender_ok_def pool_send_def by (auto split: prod.splits)
  show "clock_ok (\<lambda>w. (fst w, fst (snd w), log_of w)) ticking"
    by (simp add: clock_ok_def ticking_def split: prod.splits)
qed

interpretation gateway: worker_flow mem_gorm "redis_reservations (Suc fuel) beside_client loader" fst
  "\<lambda>w. redis_credit (fst (snd w))" "\<lambda>w. redis_credit_ok (fst (snd w))" log_of "pool_send pool_example" ticking for fuel loader
  by (rule redis_worker_flow [OF gateway_contracts])

section \<open>The reservation flow\<close>

text \<open>
  C7: settlement of a message. Whatever fails on the way, a message that is not yet settled is
  handed to a provider at most once and only while its credit is reserved. If the worker
  acknowledges the message, then either it was sent, the wallet has been debited by exactly
  its cost together with the ledger entry and the status \<^verbatim>\<open>delivered\<close>, and the reservation is
  gone; or its status is \<^verbatim>\<open>refunded\<close> and the reserved credit is available again (with no debit,
  unless a commit that reported an error took effect). If the worker asks for redelivery, the
  tables show nothing but the begun record or the completed debit, and the credit is untouched
  or given back.
\<close>

theorem reserved_settlement:
  assumes "gorm_db G dbv (\<lambda>w. (red w, sent w))" "redis_client_ok eval red (\<lambda>w. (dbv w, sent w))"
    "sender_ok (\<lambda>w. (dbv w, red w)) sent (wk_sender W)" "clock_ok (\<lambda>w. (dbv w, red w, sent w)) now"
    "wk_db W = G" "processReserved W (redis_reservations (Suc fuel) eval loader) now c ev w = (r, w')"
    "\<not> terminal_in (dbv w) (ev_MessageID ev)" "redis_credit_ok (red w)" "available (red w) (ev_WalletID ev) = Some n"
    "\<forall>a. held (red w) (ev_MessageID ev) = Some a \<longrightarrow> n + a < 2 ^ 52"
    "wallet_has (dbv w) (ev_WalletID ev) b" "db_money \<lparr>units = ev_CostUnits ev\<rparr>"
  shows "\<exists>l. sent w' = sent w @ l \<and> (l = [] \<or> (\<exists>c'. l = [(c', ev)]) \<and> held (red w) (ev_MessageID ev) \<noteq> None)
    \<and> (r \<noteq> None \<and> dbv w' = dbv w \<and> redis_credit (red w') = redis_credit (red w)
      \<or> (\<exists>d1. begun ev (dbv w) d1
          \<and> (settled ev n b (l \<noteq> []) (\<not> clean_commits G dbv) d1 (redis_credit (red w)) (dbv w') (redis_credit (red w'))
            \<or> r \<noteq> None \<and> unsettled ev n b (l \<noteq> []) (\<not> clean_commits G dbv) d1 (redis_credit (red w)) (dbv w') (redis_credit (red w')))))"
proof -
  note flow = redis_worker_flow [OF assms(1-4), of fuel loader]
  have h: "c_held (redis_credit (red w)) m = held (red w) m" for m by (simp add: redis_credit_def)
  have "worker_flow.credit_ready (\<lambda>w. redis_credit (red w)) (\<lambda>w. redis_credit_ok (red w)) w ev n"
    using assms(8-10) unfolding worker_flow.credit_ready_def [OF flow] by (simp add: redis_credit_def)
  from worker_flow.processReserved_outcome [OF flow assms(5) refl assms(6,7) this assms(11,12)] show ?thesis
    unfolding h by blast
qed

text \<open>
  C20: redelivery is harmless. A message whose record is already \<^verbatim>\<open>delivered\<close> or \<^verbatim>\<open>refunded\<close> is never
  sent, debited or marked again; all that may still happen is that its reservation is removed.
\<close>

theorem redelivery_harmless:
  assumes "gorm_db G dbv (\<lambda>w. (red w, sent w))" "redis_client_ok eval red (\<lambda>w. (dbv w, sent w))"
    "sender_ok (\<lambda>w. (dbv w, red w)) sent (wk_sender W)" "clock_ok (\<lambda>w. (dbv w, red w, sent w)) now"
    "wk_db W = G" "processReserved W (redis_reservations (Suc fuel) eval loader) now c ev w = (r, w')"
    "terminal_in (dbv w) (ev_MessageID ev)" "redis_credit_ok (red w)"
  shows "sent w' = sent w \<and> dbv w' = dbv w
    \<and> (redis_credit (red w') = commit_credit (ev_MessageID ev) (redis_credit (red w)) \<or> r \<noteq> None \<and> redis_credit (red w') = redis_credit (red w))"
  using worker_flow.processReserved_terminal [OF redis_worker_flow [OF assms(1-4), of fuel loader] assms(5,6,8,7)] by blast

text \<open>
  C21: an expired express message is never sent. If the deadline has passed whenever the worker
  reads the clock, no provider gets the message, whatever else happens.
\<close>

theorem expired_not_sent:
  assumes "gorm_db G dbv (\<lambda>w. (red w, sent w))" "redis_client_ok eval red (\<lambda>w. (dbv w, sent w))"
    "sender_ok (\<lambda>w. (dbv w, red w)) sent (wk_sender W)" "clock_ok (\<lambda>w. (dbv w, red w, sent w)) now"
    "wk_db W = G" "processReserved W (redis_reservations (Suc fuel) eval loader) now c ev w = (r, w')"
    "redis_credit_ok (red w)" "available (red w) (ev_WalletID ev) = Some n"
    "\<forall>a. held (red w) (ev_MessageID ev) = Some a \<longrightarrow> n + a < 2 ^ 52"
    "ev_DeadlineAt ev \<noteq> 0" "\<forall>v. ev_DeadlineAt ev < fst (now v)"
  shows "sent w' = sent w"
proof -
  note flow = redis_worker_flow [OF assms(1-4), of fuel loader]
  have "worker_flow.credit_ready (\<lambda>w. redis_credit (red w)) (\<lambda>w. redis_credit_ok (red w)) w ev n"
    using assms(7-9) unfolding worker_flow.credit_ready_def [OF flow] by (simp add: redis_credit_def)
  from worker_flow.processReserved_expired [OF flow assms(5,6) this assms(10)] assms(11) show ?thesis by blast
qed

section \<open>The legacy flow\<close>

text \<open>
  C22: settlement in the legacy flow. All the work on a message is one transaction: a settled
  message is neither sent nor paid back again; any other one ends \<^verbatim>\<open>delivered\<close>, after it was
  sent, or \<^verbatim>\<open>refunded\<close> together with exactly its cost credited to the wallet and the ledger
  entry; and when the worker asks for redelivery without that, the tables are as before.
\<close>

theorem legacy_settlement:
  assumes "gorm_db G dbv sent" "sender_ok dbv sent (wk_sender W)" "clock_ok (\<lambda>w. (dbv w, sent w)) now"
    "wk_db W = G" "processLegacy W now c ev w = (r, w')" "wallet_has (dbv w) (ev_WalletID ev) b" "0 \<le> ev_CostUnits ev"
    "units b + ev_CostUnits ev < 10 ^ 15" "\<forall>mid d. sms_deliveries (dbv w) mid = Some d \<longrightarrow> dm_MessageID d = mid"
  shows "\<exists>l. sent w' = sent w @ l \<and> (l = [] \<or> l = [(c, ev)] \<and> \<not> terminal_in (dbv w) (ev_MessageID ev))
    \<and> (legacy_done ev b (l \<noteq> []) (dbv w) (dbv w') \<or> r \<noteq> None \<and> dbv w' = dbv w)"
proof -
  have "dbv w' = dbv w \<and> sent w' = sent w" if "now w = (t, w')" for w t w'
    using assms(3) that by (metis clock_ok_def prod.inject snd_conv)
  with assms(1,2) have "legacy_worker G dbv sent (wk_sender W) now"
    by (intro legacy_worker.intro legacy_worker_axioms.intro) (auto simp: sender_ok_def)
  from legacy_worker.processLegacy_outcome [OF this assms(4) refl assms(5-8)] assms(9) show ?thesis by blast
qed

section \<open>Time\<close>

text \<open>
  C23: the time of a provider call. Let \<open>t1\<close> and \<open>t2\<close> be what the clock shows at the two times it
  may be read. The context of the call ends at the latest \<^verbatim>\<open>providerTimeout\<close> after \<open>t2\<close>, at the
  latest \<open>t2 - t1\<close> after the deadline of the message, and never after the worker's own context.
  The exception is a message whose deadline is reached between the check and the call: its
  provider call gets the worker's context, with no time limit of its own.
\<close>

theorem provider_time_bounded:
  assumes "newWorker dial G url line prefetch concurrency send res timeout v = (Inr W, v')"
    "now w = (t1, w1)" "now w1 = (t2, w2)" "t1 \<le> t2" "providerContext W now c ev w = (c', w')"
  shows "if ev_DeadlineAt ev \<noteq> 0 \<and> ev_DeadlineAt ev \<le> t1 then c' = c
    else \<exists>dl. c' = Some dl \<and> dl \<le> t2 + timeout \<and> (ev_DeadlineAt ev \<noteq> 0 \<longrightarrow> dl \<le> ev_DeadlineAt ev + (t2 - t1))
      \<and> (\<forall>p. c = Some p \<longrightarrow> dl \<le> p)"
proof -
  have t: "wk_providerTimeout W = timeout" "0 < timeout"
    using assms(1) by (auto simp: newWorker_def split: if_splits option.splits prod.splits)
  show ?thesis
  proof (cases "ev_DeadlineAt ev = 0")
    case True
    then have "(c', w') = WithTimeout now c timeout w" using t assms(5) by (simp add: providerContext_def clamp_timeout_def)
    then show ?thesis using assms(2,4) True by (auto simp: WithTimeout_def split: option.splits)
  next
    case False
    define d where "d = min timeout (time_Sub (ev_DeadlineAt ev) t1)"
    have p: "(c', w') = (if d \<le> 0 then (c, w1) else WithTimeout now c d w1)"
      using t False assms(2,5) by (auto simp: providerContext_def clamp_timeout_def Let_def d_def min_def split: if_splits)
    have d: "d \<le> 0 \<longleftrightarrow> ev_DeadlineAt ev \<le> t1" "\<not> d \<le> 0 \<Longrightarrow> d \<le> ev_DeadlineAt ev - t1" "d \<le> timeout"
      using t(2) by (auto simp: d_def time_Sub_def min_def max_def split: if_splits)
    show ?thesis
    proof (cases "d \<le> 0")
      case False
      then show ?thesis using p d assms(3) \<open>ev_DeadlineAt ev \<noteq> 0\<close> by (auto simp: WithTimeout_def split: option.splits)
    qed (use p d False in auto)
  qed
qed

section \<open>Examples\<close>

definition worker_example :: "gateway Worker" where
  "worker_example = \<lparr>wk_db = mem_gorm, wk_line = ''express'', wk_prefetch = 4, wk_concurrency = 2, wk_sender = pool_send pool_example,
    wk_reservations = Some (redis_reservations 1 beside_client None), wk_providerTimeout = 10 * second_ns\<rparr>"

definition reserved_example :: redis_state where
  "reserved_example = \<lparr>keys = [balanceKey 7 \<mapsto> RStr (FormatInt 18000), reservationKey ''SMS-1'' \<mapsto> RStr (FormatInt 12000)], clock_us = 0\<rparr>"

definition gateway_example :: "time \<Rightarrow> gateway" where
  "gateway_example t = (db_example, reserved_example, newMemoryProviderState [event_logger ''a'', event_logger ''b''] 3 second_ns, t, [])"

lemma gateway_example_ready:
  "redis_credit_ok reserved_example" "available reserved_example 7 = Some 18000" "held reserved_example ''SMS-1'' = Some 12000"
proof -
  show "redis_credit_ok reserved_example" unfolding redis_credit_ok_def
  proof (intro conjI allI)
    show "money_key reserved_example (balanceKey i)" for i
      by (cases "i = 7") (auto simp: reserved_example_def money_key_def intro: exI [of _ 18000])
    show "money_key reserved_example (reservationKey m)" for m
      by (cases "m = ''SMS-1''") (auto simp: reserved_example_def money_key_def intro: exI [of _ 12000])
  qed
qed (simp_all add: reserved_example_def num_at_def in_int64_def)

lemmas worker_eval = processReserved_def worker_example_def gateway_example_def beginDelivery_def mem_gorm_def begin_tx_def load_record_def
  event_example_def db_example_def new_delivery_def is_terminal_def set_delivery_def Let_def expired_def ticking_def
  redis_reservations_def IsReserved_def beside_client_def reserved_example_def lua_defs providerContext_def clamp_timeout_def
  WithTimeout_def time_Sub_def second_ns_def pool_send_def rrs_Send_def pool_example_def newRoundRobinSender_def memory_store_def
  mps_next_def mps_acquire_def mps_complete_def newMemoryProviderState_def event_logger_def upt_rec cb_acquire_def cb_complete_def
  newCircuitBreaker_def settle_def debit_tx_def DeductAndRecord_def mutateAndRecord_def finish_def mutate_tx_def CanAfford_iff
  set_cache_def MoneyFromUnits_def set_balance_def add_transaction_def apply_updates_def Commit_def commitScript_def

lemma process_example:
  "\<exists>w'. processReserved worker_example (redis_reservations 1 beside_client None) ticking None event_example
      (gateway_example 63000000001000000000) = (None, w') \<and> map snd (log_of w') = [event_example]"
proof -
  have "db_money \<lparr>units = 30000\<rparr>" by (simp add: db_money_def)
  from toWallet_balance [OF this] show ?thesis by (simp add: worker_eval)
qed

lemma event_example_sel: "ev_MessageID event_example = ''SMS-1''" "ev_WalletID event_example = 7" "ev_CostUnits event_example = 12000"
  "ev_DeadlineAt event_example = 63000000005000000000"
  by (simp_all add: event_example_def)

lemma gateway_example_sel: "fst (gateway_example t) = db_example" "fst (snd (gateway_example t)) = reserved_example" "log_of (gateway_example t) = []"
  by (simp_all add: gateway_example_def)

lemma worker_example_ok:
  "wk_db worker_example = mem_gorm" "sender_ok (\<lambda>w. (fst w, fst (snd w))) log_of (wk_sender worker_example)"
  using gateway_contracts(3) by (simp_all add: worker_example_def)

theorem reserved_settlement_witness:
  "\<exists>w' d1. processReserved worker_example (redis_reservations (Suc 0) beside_client None) ticking None event_example
      (gateway_example 63000000001000000000) = (None, w')
    \<and> map snd (log_of w') = [event_example] \<and> begun event_example db_example d1
    \<and> settled event_example 18000 \<lparr>units = 30000\<rparr> True False d1 (redis_credit reserved_example) (fst w') (redis_credit (fst (snd w')))"
proof -
  obtain w' where w': "processReserved worker_example (redis_reservations (Suc 0) beside_client None) ticking None event_example
      (gateway_example 63000000001000000000) = (None, w')" "map snd (log_of w') = [event_example]"
    using process_example by auto
  have "\<not> terminal_in db_example ''SMS-1''" by (simp add: terminal_in_def db_example_def)
  moreover have "db_money \<lparr>units = 12000\<rparr>" by (simp add: db_money_def)
  moreover have "wallet_has db_example 7 \<lparr>units = 30000\<rparr>" by (rule db_example_wallet)
  ultimately show ?thesis
    using reserved_settlement [OF gateway_contracts(1,2) worker_example_ok(2) gateway_contracts(4) worker_example_ok(1) w'(1),
        of 18000 "\<lparr>units = 30000\<rparr>"] w' gateway_example_ready
    by (auto simp: gateway_example_sel event_example_sel)
qed

definition db_delivered_example :: db where
  "db_delivered_example = set_delivery ''SMS-1'' (Some ((new_delivery event_example)\<lparr>dm_Status := ''delivered''\<rparr>)) db_example"

theorem redelivery_harmless_witness:
  "\<exists>r w'. processReserved worker_example (redis_reservations (Suc 0) beside_client None) ticking None event_example
      (db_delivered_example, snd (gateway_example 0)) = (r, w')
    \<and> log_of w' = [] \<and> fst w' = db_delivered_example"
proof -
  obtain r w' where w': "processReserved worker_example (redis_reservations (Suc 0) beside_client None) ticking None event_example
      (db_delivered_example, snd (gateway_example 0)) = (r, w')" by (metis surj_pair)
  have "terminal_in db_delivered_example ''SMS-1''"
    by (simp add: terminal_in_def db_delivered_example_def set_delivery_def is_terminal_def)
  with redelivery_harmless [OF gateway_contracts(1,2) worker_example_ok(2) gateway_contracts(4) worker_example_ok(1) w'] w'
    gateway_example_ready gateway_example_sel [of 0] show ?thesis
    by (simp add: event_example_sel)
qed

definition late_clock :: "gateway \<Rightarrow> time \<times> gateway" where
  "late_clock w = (63000000005000000001, w)"

theorem expired_not_sent_witness:
  "\<exists>r w'. processReserved worker_example (redis_reservations (Suc 0) beside_client None) late_clock None event_example (gateway_example 0) = (r, w')
    \<and> log_of w' = []"
proof -
  obtain r w' where w': "processReserved worker_example (redis_reservations (Suc 0) beside_client None) late_clock None event_example
      (gateway_example 0) = (r, w')" by (metis surj_pair)
  have "clock_ok (\<lambda>w. (fst w, fst (snd w), log_of w)) late_clock" by (simp add: clock_ok_def late_clock_def)
  from expired_not_sent [OF gateway_contracts(1,2) worker_example_ok(2) this worker_example_ok(1) w', of 18000] w'
    gateway_example_ready gateway_example_sel [of 0] show ?thesis
    by (simp add: event_example_sel late_clock_def)
qed

theorem legacy_settlement_witness:
  "\<exists>r w' l. processLegacy worker_example ticking None event_example (gateway_example 0) = (r, w') \<and> log_of w' = l
    \<and> (legacy_done event_example \<lparr>units = 30000\<rparr> (l \<noteq> []) db_example (fst w') \<or> r \<noteq> None \<and> fst w' = db_example)"
proof -
  obtain r w' where w': "processLegacy worker_example ticking None event_example (gateway_example 0) = (r, w')" by (metis surj_pair)
  have g: "gorm_db mem_gorm fst log_of" using gorm_db.framed [OF gateway_contracts(1), of snd] by simp
  have s: "sender_ok fst log_of (wk_sender worker_example)" "clock_ok (\<lambda>w. (fst w, log_of w)) ticking"
    using worker_example_ok(2) gateway_contracts(4) by (auto simp: sender_ok_def clock_ok_def)
  from legacy_settlement [OF g s worker_example_ok(1) w', of "\<lparr>units = 30000\<rparr>"] w' db_example_wallet gateway_example_sel [of 0] show ?thesis
    by (auto simp: event_example_sel db_example_def)
qed

theorem provider_time_bounded_witness:
  "\<exists>W c' w' dl. newWorker (\<lambda>url w. (None, w)) mem_gorm ''amqp://'' ''express'' 4 2 (pool_send pool_example) None second_ns (gateway_example 5)
      = (Inr W, gateway_example 5)
    \<and> providerContext W ticking None event_example (gateway_example 5) = (c', w') \<and> c' = Some dl \<and> dl \<le> 6 + second_ns"
proof -
  obtain W where W: "newWorker (\<lambda>url w. (None, w)) mem_gorm ''amqp://'' ''express'' 4 2 (pool_send pool_example) None second_ns (gateway_example 5)
      = (Inr W, gateway_example 5)" by (simp add: newWorker_def second_ns_def)
  obtain c' w' where c: "providerContext W ticking None event_example (gateway_example 5) = (c', w')" by (metis surj_pair)
  have "ticking (gateway_example 5) = (5, gateway_example 6)" "ticking (gateway_example 6) = (6, gateway_example 7)"
    by (simp_all add: ticking_def gateway_example_def)
  from provider_time_bounded [OF W this _ c] obtain dl where "c' = Some dl" "dl \<le> 6 + second_ns" by (auto simp: event_example_sel)
  with W c show ?thesis by blast
qed

end
