(* ===== verification/DispatcherProps.thy ===== *)
theory DispatcherProps
  imports Dispatcher
begin

text \<open>
  The promises of the outbox dispatcher, for every database and broker that keep their contracts:
  a row is marked as published only after the broker has confirmed its message, and as long as
  nothing fails the outbox is drained.
\<close>

section \<open>The outbox\<close>

text \<open>Every row that is marked as published is in the broker's hands.\<close>

definition published_queued :: "db \<Rightarrow> (string \<times> publishing) set \<Rightarrow> bool" where
  "published_queued d Q \<longleftrightarrow>
    (\<forall>row \<in> set (sms_outbox d). om_PublishedAt row \<noteq> None \<longrightarrow> (om_RoutingKey row, publishing_of row) \<in> Q)"

text \<open>The rows without their publication time, and those of a line that wait.\<close>

definition unmarked :: "db \<Rightarrow> SMSOutboxModel list" where
  "unmarked d = map (\<lambda>row. row\<lparr>om_PublishedAt := None\<rparr>) (sms_outbox d)"

definition waiting :: "string \<Rightarrow> db \<Rightarrow> SMSOutboxModel list" where
  "waiting line d = filter (\<lambda>row. om_PublishedAt row = None \<and> om_RoutingKey row = line) (sms_outbox d)"

definition distinct_ids :: "db \<Rightarrow> bool" where
  "distinct_ids d \<longleftrightarrow> distinct (map om_ID (sms_outbox d))"

text \<open>Tables that differ at most in publication times.\<close>

definition same_rows :: "db \<Rightarrow> db \<Rightarrow> bool" where
  "same_rows d d' \<longleftrightarrow> unmarked d' = unmarked d \<and> (\<exists>rows. d' = d\<lparr>sms_outbox := rows\<rparr>)"

lemma same_rows_refl [simp]: "same_rows d d"
  by (auto simp: same_rows_def intro: exI [of _ "sms_outbox d"])

lemma same_rows_trans: "same_rows d d' \<Longrightarrow> same_rows d' d'' \<Longrightarrow> same_rows d d''"
  by (auto simp: same_rows_def)

lemma same_rows_published: "same_rows d (set_published i t d)"
  by (auto simp: same_rows_def unmarked_def set_published_def)

lemma unmarked_ids: "map om_ID (unmarked d) = map om_ID (sms_outbox d)"
  by (simp add: unmarked_def)

lemma distinct_ids_same: "same_rows d d' \<Longrightarrow> distinct_ids d' \<longleftrightarrow> distinct_ids d"
  by (metis distinct_ids_def same_rows_def unmarked_ids)

text \<open>A row that was read earlier is, but for the publication time, the row that is there now.\<close>

lemma same_rows_row:
  assumes "same_rows d d'" "distinct_ids d" "row \<in> set (sms_outbox d)" "row' \<in> set (sms_outbox d')" "om_ID row' = om_ID row"
  shows "row'\<lparr>om_PublishedAt := None\<rparr> = row\<lparr>om_PublishedAt := None\<rparr>"
proof -
  have "row'\<lparr>om_PublishedAt := None\<rparr> \<in> set (unmarked d')" "row\<lparr>om_PublishedAt := None\<rparr> \<in> set (unmarked d)"
    using assms(3,4) by (simp_all add: unmarked_def)
  moreover have "unmarked d' = unmarked d" using assms(1) by (simp add: same_rows_def)
  moreover have "distinct (map om_ID (unmarked d))" using assms(2) by (simp add: unmarked_ids distinct_ids_def)
  ultimately show ?thesis
    using assms(5) inj_onD [of om_ID "set (unmarked d)" "row'\<lparr>om_PublishedAt := None\<rparr>" "row\<lparr>om_PublishedAt := None\<rparr>"]
    by (simp add: distinct_map)
qed

lemma published_queued_step:
  assumes "published_queued d Q" "Q \<subseteq> Q'" "same_rows d0 d" "distinct_ids d0" "row \<in> set (sms_outbox d0)" "(om_RoutingKey row, publishing_of row) \<in> Q'"
  shows "published_queued (set_published (om_ID row) t d) Q'"
proof -
  have "(om_RoutingKey r, publishing_of r) \<in> Q'" if r: "r \<in> set (sms_outbox d)" "om_ID r = om_ID row" for r
  proof -
    have "r\<lparr>om_PublishedAt := None\<rparr> = row\<lparr>om_PublishedAt := None\<rparr>" by (rule same_rows_row [OF assms(3-5) r])
    then have "om_RoutingKey r = om_RoutingKey row" "publishing_of r = publishing_of row"
      by (cases r; cases row; simp add: publishing_of_def)+
    then show ?thesis using assms(6) by simp
  qed
  then show ?thesis using assms(1,2) by (auto simp: published_queued_def set_published_def publishing_of_def)
qed

lemma waiting_published:
  "waiting line (set_published i t d) = filter (\<lambda>row. om_ID row \<noteq> i) (waiting line d)"
proof -
  have "filter (\<lambda>row. om_PublishedAt row = None \<and> om_RoutingKey row = line)
      (map (\<lambda>row. if om_ID row = i \<and> om_PublishedAt row = None then row\<lparr>om_PublishedAt := Some t\<rparr> else row) rows)
    = filter (\<lambda>row. om_ID row \<noteq> i) (filter (\<lambda>row. om_PublishedAt row = None \<and> om_RoutingKey row = line) rows)" for rows
    by (induction rows) auto
  then show ?thesis by (simp add: waiting_def set_published_def)
qed

text \<open>Removing a selection of rows by a key that identifies them.\<close>

lemma mset_take: "mset (take n xs) \<subseteq># mset xs"
  by (metis append_take_drop_id mset_append mset_subset_eq_add_left)

lemma distinct_submset:
  assumes "distinct ys" "mset xs \<subseteq># mset ys"
  shows "distinct xs"
proof -
  obtain zs where "mset zs = mset ys - mset xs" using ex_mset by blast
  then have "mset (xs @ zs) = mset ys" using assms(2) by simp
  then show ?thesis using assms(1) mset_eq_imp_distinct_iff [of "xs @ zs" ys] by simp
qed

lemma removed_length:
  assumes "inj_on f (set ys)" "distinct ys" "mset xs \<subseteq># mset ys"
  shows "length (filter (\<lambda>y. f y \<notin> f ` set xs) ys) = length ys - length xs"
proof -
  have sub: "set xs \<subseteq> set ys" using mset_subset_eqD [OF assms(3)] by auto
  then have "set (filter (\<lambda>y. f y \<notin> f ` set xs) ys) = set ys - set xs" using assms(1) by (auto dest: inj_onD)
  then have "length (filter (\<lambda>y. f y \<notin> f ` set xs) ys) = card (set ys - set xs)"
    using assms(2) by (metis distinct_card distinct_filter)
  then show ?thesis using sub assms(2) distinct_submset [OF assms(2,3)] by (simp add: card_Diff_subset distinct_card)
qed

section \<open>The batch\<close>

locale outbox_dispatcher = db: gorm_db G dbv queued
  for G :: "'w gorm" and dbv :: "'w \<Rightarrow> db" and queued :: "'w \<Rightarrow> (string \<times> publishing) set" +
  fixes A :: "('w, 'c) amqp" and content :: "'c \<Rightarrow> string \<times> publishing" and now :: "'w \<Rightarrow> time \<times> 'w"
  assumes amqp: "amqp_ok A content dbv queued"
    and now_law: "dbv (snd (now w)) = dbv w \<and> queued (snd (now w)) = queued w"
begin

definition kept :: "'w \<Rightarrow> 'w \<Rightarrow> bool" where
  "kept w w' \<longleftrightarrow> dbv w' = dbv w \<and> queued w \<subseteq> queued w'"

lemma kept_trans: "kept w w' \<Longrightarrow> kept w' w'' \<Longrightarrow> kept w w''"
  by (auto simp: kept_def)

lemma broker_calls:
  "OpenChannel A w = (r1, w') \<Longrightarrow> kept w w'" "ExchangeDeclare A s t w = (r1, w') \<Longrightarrow> kept w w'"
  "QueueDeclare A s w = (r2, w') \<Longrightarrow> kept w w'" "QueueBind A s t u w = (r1, w') \<Longrightarrow> kept w w'"
  "ConfirmMode A w = (r1, w') \<Longrightarrow> kept w w'" "Publish A s t p w = (r3, w') \<Longrightarrow> kept w w'" "Wait A c w = (r4, w') \<Longrightarrow> kept w w'"
  using amqp unfolding amqp_ok_def kept_def by (metis insertCI snd_conv)+

lemma declare_lines_kept: "declare_lines A ls w = (r, w') \<Longrightarrow> kept w w'"
proof (induction ls arbitrary: w)
  case (Cons line ls)
  obtain x w1 where q: "QueueDeclare A (''sms.'' @ line) w = (x, w1)" by (metis surj_pair)
  show ?case
  proof (cases x)
    case (Inr nm)
    obtain y w2 where b: "QueueBind A nm line Exchange w1 = (y, w2)" by (metis surj_pair)
    show ?thesis using Cons q Inr b kept_trans [OF broker_calls(3) [OF q] broker_calls(4) [OF b]]
      by (cases y) (auto intro: kept_trans)
  qed (use Cons q broker_calls(3) [OF q] in simp)
qed (simp add: kept_def)

lemma Declare_kept:
  assumes "Declare A w = (r, w')"
  shows "kept w w'"
proof -
  obtain x w1 where e: "ExchangeDeclare A Exchange ''direct'' w = (x, w1)" by (metis surj_pair)
  show ?thesis using assms e broker_calls(2) [OF e] declare_lines_kept [of _ w1 r w']
    by (cases x) (auto simp: Declare_def intro: kept_trans simp del: declare_lines.simps)
qed

abbreviation carries :: "SMSOutboxModel \<Rightarrow> 'c option \<Rightarrow> bool" where
  "carries row dc \<equiv> (\<forall>c. dc = Some c \<longrightarrow> content c = (om_RoutingKey row, publishing_of row))"

lemma publish_rows_effect:
  "publish_rows A rows w = (r, w') \<Longrightarrow> kept w w' \<and> (\<forall>dcs. r = Inr dcs \<longrightarrow> list_all2 carries rows dcs)"
proof (induction rows arbitrary: w r w')
  case (Cons row rows)
  obtain x w1 where p: "Publish A Exchange (om_RoutingKey row) (publishing_of row) w = (x, w1)" by (metis surj_pair)
  have c: "content c = (om_RoutingKey row, publishing_of row)" if "x = Inr (Some c)" for c
    using amqp p that unfolding amqp_ok_def by (metis fst_conv)
  obtain y w2 where q: "publish_rows A rows w1 = (y, w2)" by (metis surj_pair)
  show ?case using Cons.prems Cons.IH [OF q] p q broker_calls(6) [OF p] c kept_trans [of w w1 w2]
    by (cases x; cases y) auto
qed (simp add: kept_def)

lemma confirmed_effect:
  assumes "confirmed A dc w = (ok, w')" "carries row dc"
  shows "kept w w' \<and> (ok \<longrightarrow> (om_RoutingKey row, publishing_of row) \<in> queued w')"
proof (cases dc)
  case (Some c)
  then have w: "Wait A c w = (ok, w')" using assms(1) by (simp add: confirmed_def)
  then have "ok \<longrightarrow> content c \<in> queued w'" using amqp unfolding amqp_ok_def by (metis fst_conv snd_conv)
  then show ?thesis using broker_calls(7) [OF w] assms(2) Some by simp
qed (use assms in \<open>simp add: confirmed_def kept_def\<close>)

lemma confirm_rows_effect:
  assumes d0: "distinct_ids d0"
  shows "confirm_rows G A now ps w = (r, w') \<Longrightarrow> \<forall>(row, dc) \<in> set ps. row \<in> set (sms_outbox d0) \<and> carries row dc \<Longrightarrow>
    same_rows d0 (dbv w) \<Longrightarrow> published_queued (dbv w) (queued w) \<Longrightarrow>
    same_rows d0 (dbv w') \<and> published_queued (dbv w') (queued w')
    \<and> (r = None \<longrightarrow> (\<forall>line. waiting line (dbv w') = filter (\<lambda>row. om_ID row \<notin> om_ID ` fst ` set ps) (waiting line (dbv w))))"
proof (induction ps arbitrary: w)
  case (Cons p ps)
  obtain row dc where p: "p = (row, dc)" by (cases p)
  obtain ok w1 where c: "confirmed A dc w = (ok, w1)" by (metis surj_pair)
  obtain t w2 where n: "now w1 = (t, w2)" by (metis surj_pair)
  obtain ro w3 where u: "UpdatePublished G (om_ID row) t w2 = (ro, w3)" by (metis surj_pair)
  have ce: "dbv w1 = dbv w" "queued w \<subseteq> queued w1" "ok \<longrightarrow> (om_RoutingKey row, publishing_of row) \<in> queued w1"
    using confirmed_effect [OF c, of row] Cons.prems(2) p by (auto simp: kept_def)
  have ne: "dbv w2 = dbv w" "queued w2 = queued w1" using now_law [of w1] n ce by auto
  have ue: "queued w3 = queued w1" "ro \<noteq> None \<and> dbv w3 = dbv w \<or> dbv w3 = set_published (om_ID row) t (dbv w)"
    using db.frames(9) [of "om_ID row" t w2] u db.update_published [OF u] ne by auto
  have row: "row \<in> set (sms_outbox d0)" using Cons.prems(2) p by simp
  have pq: "published_queued (dbv w) (queued w1)" using Cons.prems(4) ce(2) by (auto simp: published_queued_def)
  show ?case
  proof (cases ok)
    case False
    then show ?thesis using Cons.prems c p ce pq by auto
  next
    case True
    have s3: "same_rows d0 (dbv w3)" "published_queued (dbv w3) (queued w3)"
      using ue ce Cons.prems(3) pq same_rows_trans [OF Cons.prems(3) same_rows_published] True
        published_queued_step [OF Cons.prems(4) ce(2) Cons.prems(3) d0 row]
      by auto
    show ?thesis
    proof (cases ro)
      case None
      then have w3: "dbv w3 = set_published (om_ID row) t (dbv w)" using ue by simp
      have "confirm_rows G A now ps w3 = (r, w')" using Cons.prems(1) p c n u True None by simp
      from Cons.IH [OF this _ s3] Cons.prems(2) p show ?thesis by (auto simp: w3 waiting_published intro!: filter_cong)
    qed (use Cons.prems(1) p c n u True s3 in auto)
  qed
qed simp

lemma publish_batch_effect:
  assumes run: "publish_batch G A now rows w = (r, w')" and d: "distinct_ids (dbv w)" "published_queued (dbv w) (queued w)"
    and rows: "set rows \<subseteq> set (sms_outbox (dbv w))"
  shows "same_rows (dbv w) (dbv w') \<and> published_queued (dbv w') (queued w')
    \<and> (\<forall>n. r = Inr n \<longrightarrow> n = length rows
        \<and> (\<forall>line. waiting line (dbv w') = filter (\<lambda>row. om_ID row \<notin> om_ID ` set rows) (waiting line (dbv w))))"
proof -
  obtain x1 w1 where 1: "OpenChannel A w = (x1, w1)" by (metis surj_pair)
  obtain x2 w2 where 2: "Declare A w1 = (x2, w2)" by (metis surj_pair)
  obtain x3 w3 where 3: "ConfirmMode A w2 = (x3, w3)" by (metis surj_pair)
  obtain x4 w4 where 4: "publish_rows A rows w3 = (x4, w4)" by (metis surj_pair)
  note k = broker_calls(1) [OF 1] Declare_kept [OF 2] broker_calls(5) [OF 3] publish_rows_effect [OF 4, THEN conjunct1]
  have kk: "kept w w1" "kept w w2" "kept w w3" "kept w w4" using k kept_trans by blast+
  have stop: "same_rows (dbv w) (dbv v) \<and> published_queued (dbv v) (queued v)" if "kept w v" for v
    using that d by (auto simp: kept_def published_queued_def)
  show ?thesis
  proof (cases "x1 = None \<and> x2 = None \<and> x3 = None \<and> (\<exists>dcs. x4 = Inr dcs)")
    case False
    then have "w' \<in> {w1, w2, w3, w4}" "\<exists>e. r = Inl e"
      using run 1 2 3 4 by (auto simp: publish_batch_def split: option.splits sum.splits)
    then show ?thesis using kk stop by blast
  next
    case True
    then obtain dcs where dcs: "x4 = Inr dcs" by blast
    then have car: "list_all2 carries rows dcs" using publish_rows_effect [OF 4] by simp
    obtain x5 w5 where 5: "confirm_rows G A now (zip rows dcs) w4 = (x5, w5)" by (metis surj_pair)
    have "\<forall>(row, dc) \<in> set (zip rows dcs). row \<in> set (sms_outbox (dbv w)) \<and> carries row dc"
      using rows car by (auto simp: list_all2_iff dest: set_zip_leftD)
    from confirm_rows_effect [OF d(1) 5 this] stop [OF kk(4)] kk(4)
    have e: "same_rows (dbv w) (dbv w5)" "published_queued (dbv w5) (queued w5)"
      "x5 = None \<longrightarrow> (\<forall>line. waiting line (dbv w5) = filter (\<lambda>row. om_ID row \<notin> om_ID ` fst ` set (zip rows dcs)) (waiting line (dbv w)))"
      by (simp_all add: kept_def)
    have "fst ` set (zip rows dcs) = set rows" using list_all2_lengthD [OF car] by (metis list.set_map map_fst_zip)
    then show ?thesis using run 1 2 3 4 5 True dcs e by (auto simp: publish_batch_def split: option.splits)
  qed
qed

lemma publishLineBatch_effect:
  assumes run: "publishLineBatch G A now line limit w = (r, w')" and d: "distinct_ids (dbv w)" "published_queued (dbv w) (queued w)"
  shows "same_rows (dbv w) (dbv w') \<and> published_queued (dbv w') (queued w')
    \<and> (\<forall>n. r = Inr n \<longrightarrow> n = min limit (length (waiting line (dbv w))) \<and> length (waiting line (dbv w')) = length (waiting line (dbv w)) - n
        \<and> (\<forall>l. l \<noteq> line \<longrightarrow> waiting l (dbv w') = waiting l (dbv w)))"
proof -
  obtain x w1 where f: "FindOutbox G line (limit * 10) w = (x, w1)" by (metis surj_pair)
  have w1: "dbv w1 = dbv w" "queued w1 = queued w" using db.queries(3) [of line "limit * 10" w] db.frames(8) [of line "limit * 10" w] f by auto
  show ?thesis
  proof (cases x)
    case (Inr found)
    let ?W = "waiting line (dbv w)" and ?sel = "selectFairRows found limit"
    have fd: "found = take (limit * 10) (sort_key om_ID ?W)"
      using db.find_outbox [of line "limit * 10" w] f Inr by (simp add: waiting_def filter_sort)
    have sel: "length ?sel = min limit (length ?W)" "mset ?sel \<subseteq># mset ?W"
      using selectFairRows_batch [of found limit] mset_take [of "limit * 10" "sort_key om_ID ?W"] subset_mset.order_trans
      by (auto simp: fd min_def)
    have inj: "inj_on om_ID (set (sms_outbox (dbv w)))" "distinct (sms_outbox (dbv w))" using d(1) by (auto simp: distinct_ids_def distinct_map)
    have sub: "set ?sel \<subseteq> set ?W" "set ?W \<subseteq> set (sms_outbox (dbv w))" using mset_subset_eqD [OF sel(2)] by (auto simp: waiting_def)
    show ?thesis
    proof (cases "?sel = []")
      case True
      then have "r = Inr 0" "w' = w1" using run f Inr by (simp_all add: publishLineBatch_def)
      then show ?thesis using True sel(1) w1 d by auto
    next
      case False
      then have "publish_batch G A now ?sel w1 = (r, w')" using run f Inr by (simp add: publishLineBatch_def)
      note e = publish_batch_effect [OF this, unfolded w1, OF d subset_trans [OF sub]]
      have "inj_on om_ID (set ?W)" "distinct ?W" using inj sub(2) by (auto simp: waiting_def intro: inj_on_subset)
      then have n: "length (filter (\<lambda>row. om_ID row \<notin> om_ID ` set ?sel) ?W) = length ?W - length ?sel" using sel(2) by (rule removed_length)
      have o: "filter (\<lambda>row. om_ID row \<notin> om_ID ` set ?sel) (waiting l (dbv w)) = waiting l (dbv w)" if "l \<noteq> line" for l
      proof (rule filter_True, intro ballI notI)
        fix row assume a: "row \<in> set (waiting l (dbv w))" "om_ID row \<in> om_ID ` set ?sel"
        then have "row \<in> set ?sel" using sub inj(1) by (auto simp: waiting_def dest: inj_onD)
        then show False using sub(1) a(1) that by (auto simp: waiting_def)
      qed
      show ?thesis using e sel(1) n o by auto
    qed
  qed (use run f w1 d in \<open>auto simp: publishLineBatch_def\<close>)
qed

section \<open>The loop\<close>

abbreviation backlog :: "'w \<Rightarrow> nat" where
  "backlog w \<equiv> length (waiting ''express'' (dbv w)) + length (waiting ''normal'' (dbv w))"

lemma publishFairBatch_effect:
  assumes run: "publishFairBatch G A now w = ((n, err), w')" and d: "distinct_ids (dbv w)" "published_queued (dbv w) (queued w)"
  shows "same_rows (dbv w) (dbv w') \<and> published_queued (dbv w') (queued w')
    \<and> (err = None \<longrightarrow> n = min 100 (length (waiting ''express'' (dbv w))) + min 100 (length (waiting ''normal'' (dbv w)))
        \<and> backlog w' = backlog w - n)"
proof -
  obtain x1 w1 where 1: "publishLineBatch G A now ''express'' 100 w = (x1, w1)" by (metis surj_pair)
  obtain x2 w2 where 2: "publishLineBatch G A now ''normal'' 100 w1 = (x2, w2)" by (metis surj_pair)
  note e1 = publishLineBatch_effect [OF 1 d]
  have "distinct_ids (dbv w1)" using e1 d(1) distinct_ids_same by blast
  note e2 = publishLineBatch_effect [OF 2 this e1 [THEN conjunct2, THEN conjunct1]]
  have tr: "same_rows (dbv w) (dbv w2)" using same_rows_trans [of "dbv w" "dbv w1" "dbv w2"] e1 e2 by simp
  have eq: "publishFairBatch G A now w = (case x1 of Inl e \<Rightarrow> ((0, Some e), w1)
      | Inr n1 \<Rightarrow> (case x2 of Inl e \<Rightarrow> ((n1, Some e), w2) | Inr n2 \<Rightarrow> ((n1 + n2, None), w2)))"
    by (cases x1; cases x2) (simp_all add: publishFairBatch_def 1 2)
  show ?thesis
  proof (cases "\<exists>n1 n2. x1 = Inr n1 \<and> x2 = Inr n2")
    case False
    then show ?thesis using run [unfolded eq] e1 e2 tr by (cases x1; cases x2) auto
  next
    case True
    then obtain n1 n2 where x: "x1 = Inr n1" "x2 = Inr n2" by blast
    have w: "waiting ''express'' (dbv w2) = waiting ''express'' (dbv w1)" "waiting ''normal'' (dbv w1) = waiting ''normal'' (dbv w)"
      using e1 e2 x by auto
    have r: "n = n1 + n2" "w' = w2" using run [unfolded eq] x by auto
    have "n1 = min 100 (length (waiting ''express'' (dbv w)))" "n2 = min 100 (length (waiting ''normal'' (dbv w)))"
      "backlog w2 = (length (waiting ''express'' (dbv w)) - n1) + (length (waiting ''normal'' (dbv w)) - n2)"
      using e1 e2 x w by auto
    then show ?thesis using e2 e1 tr r by auto
  qed
qed

lemma Run_keeps:
  assumes wait: "\<And>w. dbv (snd (wait w)) = dbv w \<and> queued w \<subseteq> queued (snd (wait w))"
  shows "dispatcher_Run fuel G A now wait w = (r, w') \<Longrightarrow> distinct_ids (dbv w) \<Longrightarrow> published_queued (dbv w) (queued w) \<Longrightarrow>
    same_rows (dbv w) (dbv w') \<and> published_queued (dbv w') (queued w')"
proof (induction fuel arbitrary: w)
  case (Suc fuel)
  obtain n err w1 where p: "publishFairBatch G A now w = ((n, err), w1)" by (metis surj_pair)
  note e = publishFairBatch_effect [OF p Suc.prems(2,3)]
  obtain en w2 where wt: "wait w1 = (en, w2)" by (metis surj_pair)
  have w2: "dbv w2 = dbv w1" "published_queued (dbv w1) (queued w2)" using wait [of w1] wt e by (auto simp: published_queued_def)
  have d: "distinct_ids (dbv w1)" using e Suc.prems(2) distinct_ids_same by blast
  have step: "same_rows (dbv w) (dbv w') \<and> published_queued (dbv w') (queued w')"
    if "dispatcher_Run fuel G A now wait v = (r, w')" "dbv v = dbv w1" "published_queued (dbv v) (queued v)" for v
    using Suc.IH [OF that(1)] that d e same_rows_trans by auto
  show ?case using Suc.prems(1) p e wt w2 step by (cases err) (auto split: if_splits)
qed simp

lemma Run_drains:
  assumes ends: "\<And>w. fst (wait w) \<and> dbv (snd (wait w)) = dbv w" and ok: "\<And>w. snd (fst (publishFairBatch G A now w)) = None"
  shows "distinct_ids (dbv w) \<Longrightarrow> published_queued (dbv w) (queued w) \<Longrightarrow> backlog w < fuel \<Longrightarrow>
    \<exists>w'. dispatcher_Run fuel G A now wait w = (Some None, w') \<and> backlog w' = 0"
proof (induction fuel arbitrary: w)
  case (Suc fuel)
  obtain n err w1 where p: "publishFairBatch G A now w = ((n, err), w1)" by (metis surj_pair)
  have err: "err = None" using ok [of w] p by simp
  note e = publishFairBatch_effect [OF p Suc.prems(1,2)]
  show ?case
  proof (cases "n = 0")
    case True
    then have "backlog w1 = 0" using e err by (auto simp: min_def split: if_splits)
    then show ?thesis using p err True ends [of w1] by (cases "wait w1") auto
  next
    case False
    have "n \<le> backlog w" "backlog w1 = backlog w - n" using e err by auto
    then have "backlog w1 < fuel" using False Suc.prems(3) by linarith
    moreover have "distinct_ids (dbv w1)" using e Suc.prems(1) distinct_ids_same by blast
    ultimately show ?thesis using Suc.IH [of w1] e p err False by auto
  qed
qed simp

end

section \<open>A broker in memory\<close>

definition mem_amqp :: "(db \<times> (string \<times> publishing) list, string \<times> publishing) amqp" where
  "mem_amqp = \<lparr>OpenChannel = (\<lambda>w. (None, w)), ExchangeDeclare = (\<lambda>s t w. (None, w)), QueueDeclare = (\<lambda>s w. (Inr s, w)),
    QueueBind = (\<lambda>s t u w. (None, w)), ConfirmMode = (\<lambda>w. (None, w)),
    Publish = (\<lambda>s t p w. (Inr (Some (t, p)), (fst w, snd w @ [(t, p)]))), Wait = (\<lambda>c w. (c \<in> set (snd w), w))\<rparr>"

lemma mem_amqp_ok: "amqp_ok mem_amqp (\<lambda>c. c) fst (\<lambda>w. set (snd w))"
  by (auto simp: amqp_ok_def mem_amqp_def)

lemma mem_outbox_db: "gorm_db mem_gorm fst (\<lambda>w. set (snd w))"
  using mem_db.framed [of set] .

interpretation mem_outbox: outbox_dispatcher mem_gorm fst "\<lambda>w. set (snd w)" mem_amqp "\<lambda>c. c" "\<lambda>w. (0, w)"
  by (intro outbox_dispatcher.intro outbox_dispatcher_axioms.intro mem_outbox_db mem_amqp_ok) simp

section \<open>Properties\<close>

text \<open>
  C11: published means confirmed. Whatever fails and however long the dispatcher runs, every outbox
  row that is marked as published has been taken over by the broker, under its routing key and
  with its payload; the rows themselves, and all other tables, stay as they are.
\<close>

theorem published_means_confirmed:
  assumes "gorm_db G dbv queued" "amqp_ok A content dbv queued" "\<forall>w. dbv (snd (now w)) = dbv w \<and> queued (snd (now w)) = queued w"
    "\<forall>w. dbv (snd (wait w)) = dbv w \<and> queued w \<subseteq> queued (snd (wait w))"
    "distinct_ids (dbv w)" "published_queued (dbv w) (queued w)" "dispatcher_Run fuel G A now wait w = (r, w')"
  shows "published_queued (dbv w') (queued w') \<and> same_rows (dbv w) (dbv w')"
proof -
  have "outbox_dispatcher G dbv queued A content now"
    using assms(1-3) by (intro outbox_dispatcher.intro outbox_dispatcher_axioms.intro) auto
  from outbox_dispatcher.Run_keeps [OF this _ assms(7,5,6)] assms(4) show ?thesis by blast
qed

text \<open>
  C16: the outbox is drained. As long as no call fails, the loop of the dispatcher reaches its
  pause after at most as many rounds as rows were waiting, and then no row of either line
  waits: neither a hot channel nor a hot line keeps another message back for ever.
\<close>

theorem outbox_drained:
  assumes "gorm_db G dbv queued" "amqp_ok A content dbv queued" "\<forall>w. dbv (snd (now w)) = dbv w \<and> queued (snd (now w)) = queued w"
    "\<forall>w. fst (wait w) \<and> dbv (snd (wait w)) = dbv w" "\<forall>w. snd (fst (publishFairBatch G A now w)) = None"
    "distinct_ids (dbv w)" "published_queued (dbv w) (queued w)"
    "length (waiting ''express'' (dbv w)) + length (waiting ''normal'' (dbv w)) < fuel"
  shows "\<exists>w'. dispatcher_Run fuel G A now wait w = (Some None, w') \<and> waiting ''express'' (dbv w') = [] \<and> waiting ''normal'' (dbv w') = []"
proof -
  have "outbox_dispatcher G dbv queued A content now"
    using assms(1-3) by (intro outbox_dispatcher.intro outbox_dispatcher_axioms.intro) auto
  from outbox_dispatcher.Run_drains [OF this _ _ assms(6-8), of wait] assms(4,5) show ?thesis by auto
qed

definition outbox_example :: db where
  "outbox_example = \<lparr>wallets = Map.empty, wallet_transactions = [], channels = [], sms_costs = [],
    sms_outbox = [row_of 1 ''a'', row_of 2 ''a'', row_of 3 ''b''], sms_deliveries = Map.empty\<rparr>"

lemma outbox_example_ok: "distinct_ids outbox_example" "published_queued outbox_example Q"
  by (simp_all add: distinct_ids_def published_queued_def outbox_example_def row_of_def)

lemma outbox_example_waiting: "waiting ''express'' outbox_example = []" "length (waiting ''normal'' outbox_example) = 3"
  by (simp_all add: waiting_def outbox_example_def row_of_def)

theorem published_means_confirmed_witness:
  "\<exists>r w'. dispatcher_Run 2 mem_gorm mem_amqp (\<lambda>w. (0, w)) (\<lambda>w. (True, w)) (outbox_example, []) = (r, w')
    \<and> published_queued (fst w') (set (snd w')) \<and> same_rows outbox_example (fst w')"
proof -
  obtain r w' where r: "dispatcher_Run 2 mem_gorm mem_amqp (\<lambda>w. (0, w)) (\<lambda>w. (True, w)) (outbox_example, []) = (r, w')" by (metis surj_pair)
  show ?thesis using published_means_confirmed [OF mem_outbox_db mem_amqp_ok _ _ _ _ r] outbox_example_ok r by simp
qed

lemma mem_publish_rows:
  "publish_rows mem_amqp rows w = (Inr (map (\<lambda>row. Some (om_RoutingKey row, publishing_of row)) rows),
    (fst w, snd w @ map (\<lambda>row. (om_RoutingKey row, publishing_of row)) rows))"
  by (induction rows arbitrary: w) (simp_all add: mem_amqp_def)

lemma mem_confirm_rows:
  "\<forall>(row, dc) \<in> set ps. \<exists>c. dc = Some c \<and> c \<in> set (snd w) \<Longrightarrow> fst (confirm_rows mem_gorm mem_amqp (\<lambda>w. (0, w)) ps w) = None"
  by (induction ps arbitrary: w) (auto simp: confirmed_def mem_amqp_def mem_gorm_def)

lemma mem_calls:
  "OpenChannel mem_amqp w = (None, w)" "ExchangeDeclare mem_amqp x y w = (None, w)" "QueueDeclare mem_amqp x w = (Inr x, w)"
  "QueueBind mem_amqp x y z w = (None, w)" "ConfirmMode mem_amqp w = (None, w)"
  "FindOutbox mem_gorm line n w = (Inr (take n (filter (\<lambda>row. om_PublishedAt row = None \<and> om_RoutingKey row = line)
       (sort_key om_ID (sms_outbox (fst w))))), w)"
  by (simp_all add: mem_amqp_def mem_gorm_def)

lemma mem_publish_batch: "\<exists>n w'. publish_batch mem_gorm mem_amqp (\<lambda>w. (0, w)) rows w = (Inr n, w')"
proof -
  let ?dcs = "map (\<lambda>row. Some (om_RoutingKey row, publishing_of row)) rows"
  define v where "v = (fst w, snd w @ map (\<lambda>row. (om_RoutingKey row, publishing_of row)) rows)"
  obtain r w' where c: "confirm_rows mem_gorm mem_amqp (\<lambda>w. (0, w)) (zip rows ?dcs) v = (r, w')" by (metis surj_pair)
  have "\<forall>(row, dc) \<in> set (zip rows ?dcs). \<exists>c. dc = Some c \<and> c \<in> set (snd v)" by (auto simp: v_def set_zip)
  from mem_confirm_rows [OF this] c have "r = None" by simp
  moreover have "publish_rows mem_amqp rows w = (Inr ?dcs, v)" by (simp add: mem_publish_rows v_def)
  ultimately show ?thesis using c by (simp add: publish_batch_def Declare_def mem_calls)
qed

lemma mem_publishFairBatch: "snd (fst (publishFairBatch mem_gorm mem_amqp (\<lambda>w. (0, w)) w)) = None"
proof -
  have l: "\<exists>n v'. publishLineBatch mem_gorm mem_amqp (\<lambda>w. (0, w)) line limit v = (Inr n, v')" for line limit v
    using mem_publish_batch [of _ v] by (simp add: publishLineBatch_def Let_def mem_calls)
  obtain n v where 1: "publishLineBatch mem_gorm mem_amqp (\<lambda>w. (0, w)) ''express'' 100 w = (Inr n, v)" using l by blast
  obtain m u where 2: "publishLineBatch mem_gorm mem_amqp (\<lambda>w. (0, w)) ''normal'' 100 v = (Inr m, u)" using l by blast
  show ?thesis by (simp add: publishFairBatch_def 1 2)
qed

theorem outbox_drained_witness:
  "\<exists>w'. dispatcher_Run 4 mem_gorm mem_amqp (\<lambda>w. (0, w)) (\<lambda>w. (True, w)) (outbox_example, []) = (Some None, w')
    \<and> waiting ''normal'' (fst w') = []"
  using outbox_drained [OF mem_outbox_db mem_amqp_ok, of "\<lambda>w. (0, w)" "\<lambda>w. (True, w)" "(outbox_example, [])" 4]
    mem_publishFairBatch outbox_example_ok outbox_example_waiting by simp blast

end
