(* ===== verification/AdminService.thy ===== *)
theory AdminService
  imports Repositories
begin

text \<open>
  The administrative service (\<^verbatim>\<open>internal/application/admin\<close>): wallets, top-ups, channels and delivery
  reports, with the checks of the input, and the data transfer objects of its answers.
\<close>

section \<open>The repositories\<close>

record 'w WalletRepository =
  wr_GetByID :: "int \<Rightarrow> 'w \<Rightarrow> (error + Wallet) \<times> 'w"
  wr_Create :: "Wallet \<Rightarrow> 'w \<Rightarrow> (error + Wallet) \<times> 'w"
  wr_CreditAndRecord :: "int \<Rightarrow> Money \<Rightarrow> string \<Rightarrow> string \<Rightarrow> 'w \<Rightarrow> (error + Wallet) \<times> 'w"
  wr_DeductAndRecord :: "int \<Rightarrow> Money \<Rightarrow> string \<Rightarrow> string \<Rightarrow> 'w \<Rightarrow> (error + Wallet) \<times> 'w"
  wr_GetTransactionsByWalletID :: "int \<Rightarrow> 'w \<Rightarrow> (error + WalletTransaction list) \<times> 'w"

record 'w ChannelRepository =
  cr_GetByName :: "string \<Rightarrow> 'w \<Rightarrow> (error + Channel) \<times> 'w"
  cr_Create :: "Channel \<Rightarrow> 'w \<Rightarrow> (error + Channel) \<times> 'w"
  cr_List :: "'w \<Rightarrow> (error + Channel list) \<times> 'w"

record 'w SMSDeliveryRepository =
  dr_ListByWallet :: "int \<Rightarrow> int \<Rightarrow> 'w \<Rightarrow> (error + DeliveryReport list) \<times> 'w"
  dr_GetByMessageID :: "string \<Rightarrow> 'w \<Rightarrow> (error + DeliveryReport) \<times> 'w"

record 'w AdminService =
  walletRepo :: "'w WalletRepository"
  admin_channelRepo :: "'w ChannelRepository"
  deliveryRepo :: "'w SMSDeliveryRepository option"

definition NewAdminService :: "'w WalletRepository \<Rightarrow> 'w ChannelRepository \<Rightarrow> 'w SMSDeliveryRepository option \<Rightarrow> 'w AdminService" where
  "NewAdminService wr cr dr = \<lparr>walletRepo = wr, admin_channelRepo = cr, deliveryRepo = dr\<rparr>"

text \<open>The PostgreSQL repositories.\<close>

definition postgres_wallets :: "'w gorm \<Rightarrow> 'w cache \<Rightarrow> 'w WalletRepository" where
  "postgres_wallets G cache = \<lparr>wr_GetByID = GetByID G, wr_Create = Create G cache, wr_CreditAndRecord = CreditAndRecord G cache,
    wr_DeductAndRecord = DeductAndRecord G cache, wr_GetTransactionsByWalletID = GetTransactionsByWalletID G\<rparr>"

definition postgres_channels :: "'w gorm \<Rightarrow> 'w ChannelRepository" where
  "postgres_channels G = \<lparr>cr_GetByName = GetByName G, cr_Create = channel_Create G, cr_List = channel_List G\<rparr>"

definition postgres_deliveries :: "'w gorm \<Rightarrow> 'w SMSDeliveryRepository" where
  "postgres_deliveries G = \<lparr>dr_ListByWallet = ListByWallet G, dr_GetByMessageID = GetByMessageID G\<rparr>"

section \<open>The service\<close>

definition reports_not_configured :: error where
  "reports_not_configured = NewError ''SMS delivery reports are not configured''"

definition ListSMSReports :: "'w AdminService \<Rightarrow> int \<Rightarrow> int \<Rightarrow> 'w \<Rightarrow> (error + DeliveryReport list) \<times> 'w" where
  "ListSMSReports S walletID limit w = (case deliveryRepo S of
     None \<Rightarrow> (Inl reports_not_configured, w)
   | Some r \<Rightarrow> dr_ListByWallet r walletID limit w)"

definition GetSMSReport :: "'w AdminService \<Rightarrow> string \<Rightarrow> 'w \<Rightarrow> (error + DeliveryReport) \<times> 'w" where
  "GetSMSReport S messageID w = (case deliveryRepo S of
     None \<Rightarrow> (Inl reports_not_configured, w)
   | Some r \<Rightarrow> dr_GetByMessageID r (TrimSpace messageID) w)"

definition CreateWallet_admin :: "'w AdminService \<Rightarrow> float64 \<Rightarrow> 'w \<Rightarrow> (error + Wallet) \<times> 'w" where
  "CreateWallet_admin S initialBalance w = (case NewMoney initialBalance of
     Inl err \<Rightarrow> (Inl (Wrapf [] ErrInvalidInput '': balance''), w)
   | Inr m \<Rightarrow> (case wr_Create (walletRepo S) \<lparr>ID = 0, Balance = m, CreatedAt = zero_time, UpdatedAt = zero_time\<rparr> w of
       (Inl err, w1) \<Rightarrow> (Inl (Wrapf ''create wallet: '' err []), w1)
     | (Inr wal, w1) \<Rightarrow> (Inr wal, w1)))"

definition GetWallet :: "'w AdminService \<Rightarrow> int \<Rightarrow> 'w \<Rightarrow> (error + Wallet) \<times> 'w" where
  "GetWallet S i = wr_GetByID (walletRepo S) i"

definition invalid_amount :: error where
  "invalid_amount = Wrapf [] ErrInvalidInput '': amount must be positive''"

definition TopUpWallet :: "'w AdminService \<Rightarrow> int \<Rightarrow> float64 \<Rightarrow> string \<Rightarrow> 'w \<Rightarrow> (error + Wallet) \<times> 'w" where
  "TopUpWallet S walletID amount referenceID w = (case NewMoney amount of
     Inl err \<Rightarrow> (Inl invalid_amount, w)
   | Inr m \<Rightarrow>
       if \<not> IsPositive m then (Inl invalid_amount, w)
       else wr_CreditAndRecord (walletRepo S) walletID m (TrimSpace referenceID) ''Wallet top-up'' w)"

definition CreateChannel :: "'w AdminService \<Rightarrow> string \<Rightarrow> int \<Rightarrow> 'w \<Rightarrow> (error + Channel) \<times> 'w" where
  "CreateChannel S name walletID w =
    (let name = TrimSpace name in
     if name = [] \<or> 255 < length name \<or> walletID \<le> 0 then (Inl (Wrapf [] ErrInvalidInput '': invalid channel''), w)
     else (case cr_Create (admin_channelRepo S) \<lparr>ch_ID = 0, ch_Name = name, ch_WalletID = walletID, ch_IsActive = True,
         ch_CreatedAt = zero_time, ch_UpdatedAt = zero_time\<rparr> w of
       (Inl err, w1) \<Rightarrow> (Inl (Wrapf ''create channel: '' err []), w1)
     | (Inr ch, w1) \<Rightarrow> (Inr ch, w1)))"

definition ListChannels :: "'w AdminService \<Rightarrow> 'w \<Rightarrow> (error + Channel list) \<times> 'w" where
  "ListChannels S = cr_List (admin_channelRepo S)"

definition GetWalletTransactions :: "'w AdminService \<Rightarrow> int \<Rightarrow> 'w \<Rightarrow> (error + WalletTransaction list) \<times> 'w" where
  "GetWalletTransactions S walletID = wr_GetTransactionsByWalletID (walletRepo S) walletID"

section \<open>Answers\<close>

text \<open>\<^verbatim>\<open>t.UTC().Format(time.RFC3339)\<close>: like the JSON form of a time, without the fraction of the second.\<close>

definition RFC3339 :: "time \<Rightarrow> string" where
  "RFC3339 t = fmt_time (t - t mod 1000000000)"

record SMSDeliveryResponse =
  sd_MessageID :: string
  sd_WalletID :: int
  sd_Destination :: string
  sd_Message :: string
  sd_Line :: string
  sd_Channel :: string
  sd_Status :: string
  sd_Attempts :: int
  sd_LastError :: string
  sd_CreatedAt :: time
  sd_UpdatedAt :: time
  sd_DeliveredAt :: "time option"

record CreateWalletRequest =
  cw_Balance :: float64

record TopUpWalletRequest =
  tu_Amount :: float64
  tu_ReferenceID :: string

record CreateChannelRequest =
  cc_Name :: string
  cc_WalletID :: int

record WalletResponse =
  wrs_ID :: int
  wrs_Balance :: float64
  wrs_CreatedAt :: string
  wrs_UpdatedAt :: string

record ChannelResponse =
  crs_ID :: int
  crs_Name :: string
  crs_WalletID :: int
  crs_IsActive :: bool
  crs_CreatedAt :: string
  crs_UpdatedAt :: string

record TransactionResponse =
  trs_ID :: int
  trs_WalletID :: int
  trs_Amount :: float64
  trs_Type :: string
  trs_Description :: string
  trs_ReferenceID :: string
  trs_CreatedAt :: string

definition ToSMSDeliveryResponse :: "DeliveryReport \<Rightarrow> SMSDeliveryResponse" where
  "ToSMSDeliveryResponse r = \<lparr>sd_MessageID = rep_MessageID r, sd_WalletID = rep_WalletID r, sd_Destination = rep_Destination r,
    sd_Message = rep_Message r, sd_Line = rep_Line r, sd_Channel = rep_ChannelName r, sd_Status = rep_Status r, sd_Attempts = rep_Attempts r,
    sd_LastError = rep_LastError r, sd_CreatedAt = rep_CreatedAt r, sd_UpdatedAt = rep_UpdatedAt r, sd_DeliveredAt = rep_DeliveredAt r\<rparr>"

definition ToWalletResponse :: "Wallet \<Rightarrow> WalletResponse" where
  "ToWalletResponse w = \<lparr>wrs_ID = ID w, wrs_Balance = Float64 (Balance w), wrs_CreatedAt = RFC3339 (CreatedAt w), wrs_UpdatedAt = RFC3339 (UpdatedAt w)\<rparr>"

definition ToTransactionResponse :: "WalletTransaction \<Rightarrow> TransactionResponse" where
  "ToTransactionResponse t = \<lparr>trs_ID = wt_ID t, trs_WalletID = wt_WalletID t, trs_Amount = wt_Amount t, trs_Type = wt_Type t,
    trs_Description = wt_Description t, trs_ReferenceID = wt_ReferenceID t, trs_CreatedAt = RFC3339 (wt_CreatedAt t)\<rparr>"

definition ToChannelResponse :: "Channel \<Rightarrow> ChannelResponse" where
  "ToChannelResponse ch = \<lparr>crs_ID = ch_ID ch, crs_Name = ch_Name ch, crs_WalletID = ch_WalletID ch, crs_IsActive = ch_IsActive ch,
    crs_CreatedAt = RFC3339 (ch_CreatedAt ch), crs_UpdatedAt = RFC3339 (ch_UpdatedAt ch)\<rparr>"

end
