(* ===== verification/HttpApi.thy ===== *)
theory HttpApi
  imports AdminService SmsService
begin

text \<open>
  The HTTP interface (\<^verbatim>\<open>internal/interfaces/http\<close>): the handlers, the translation of service errors to
  status codes, and the routes with the API key that the administrative ones require. Gin, its
  validator and the page that shows the documentation are not part of the sources: binding a request body to a structure and
  the answers of that page are parameters, and so is the choice of the route by method and path.
\<close>

section \<open>Requests and responses\<close>

text \<open>What \<^verbatim>\<open>c.Param\<close>, \<^verbatim>\<open>c.Query\<close> and \<^verbatim>\<open>c.GetHeader\<close> return for a name (the empty string if there is no such input), and the body.\<close>

record 'b http_request =
  rq_param :: "string \<Rightarrow> string"
  rq_query :: "string \<Rightarrow> string"
  rq_header :: "string \<Rightarrow> string"
  rq_body :: 'b

record ErrorResponse =
  er_Error :: string
  er_Details :: string

text \<open>\<open>Page\<close> is what the documentation page writes.\<close>

datatype answer =
    NoBody
  | Page string
  | AnError ErrorResponse
  | AnSMS SendSMSResponse
  | AWallet WalletResponse
  | AChannel ChannelResponse
  | Channels "ChannelResponse list"
  | Transactions "TransactionResponse list"
  | AReport SMSDeliveryResponse
  | Reports "SMSDeliveryResponse list"

record http_response =
  rs_status :: int
  rs_retry_after :: "string option"
  rs_answer :: answer

definition json_answer :: "int \<Rightarrow> answer \<Rightarrow> http_response" where
  "json_answer st a = \<lparr>rs_status = st, rs_retry_after = None, rs_answer = a\<rparr>"

definition json_error :: "int \<Rightarrow> string \<Rightarrow> http_response" where
  "json_error st msg = json_answer st (AnError \<lparr>er_Error = msg, er_Details = []\<rparr>)"

text \<open>\<^verbatim>\<open>c.ShouldBindJSON\<close> for the request types, and the handler that \<^verbatim>\<open>ginSwagger.WrapHandler\<close> makes.\<close>

record 'b binding =
  bind_sms :: "'b \<Rightarrow> error + SendSMSRequest"
  bind_wallet :: "'b \<Rightarrow> error + CreateWalletRequest"
  bind_topup :: "'b \<Rightarrow> error + TopUpWalletRequest"
  bind_channel :: "'b \<Rightarrow> error + CreateChannelRequest"
  swagger_page :: "'b http_request \<Rightarrow> http_response"

text \<open>
  What the validator promises about a bound \<^verbatim>\<open>SendSMSRequest\<close>, from the tags of its fields:
  \<^verbatim>\<open>required\<close>, \<^verbatim>\<open>oneof=express normal\<close> and \<^verbatim>\<open>max=1600\<close> (characters).
\<close>

definition binding_ok :: "'b binding \<Rightarrow> bool" where
  "binding_ok B \<longleftrightarrow> (\<forall>b req. bind_sms B b = Inr req \<longrightarrow> req_Line req \<in> {''express'', ''normal''} \<and> req_Dest req \<noteq> []
    \<and> req_Channel req \<noteq> [] \<and> req_Message req \<noteq> [] \<and> rune_count (req_Message req) \<le> 1600)"

section \<open>Handlers\<close>

definition writeServiceError :: "error \<Rightarrow> http_response" where
  "writeServiceError err =
    (if errors_Is err ErrInvalidInput \<or> errors_Is err ErrInvalidAmount then json_error 400 ''invalid request''
     else if errors_Is err ErrInsufficientFunds then json_error 422 ''insufficient balance''
     else if errors_Is err ErrInsufficientCredit then json_error 422 ''insufficient balance''
     else if errors_Is err ErrLineOverloaded then (json_error 429 ''SMS line is at capacity'')\<lparr>rs_retry_after := Some ''1''\<rparr>
     else json_error 500 ''internal server error'')"

text \<open>A panic in a handler is caught by \<^verbatim>\<open>gin.Recovery\<close>, which answers with status 500.\<close>

definition fail_with :: "error \<Rightarrow> http_response" where
  "fail_with err = (if is_panic err then json_answer 500 NoBody else writeServiceError err)"

definition answer_with :: "('a \<Rightarrow> http_response) \<Rightarrow> (error + 'a) \<times> 'w \<Rightarrow> http_response \<times> 'w" where
  "answer_with f rw = (case rw of (Inl err, w) \<Rightarrow> (fail_with err, w) | (Inr x, w) \<Rightarrow> (f x, w))"

definition parseIDParam :: "string \<Rightarrow> string \<Rightarrow> http_response + int" where
  "parseIDParam param value = (case ParseInt value of
     Inl _ \<Rightarrow> Inl (json_error 400 (''invalid '' @ param))
   | Inr i \<Rightarrow> if i \<le> 0 then Inl (json_error 400 (''invalid '' @ param)) else Inr i)"

definition with_id :: "'b http_request \<Rightarrow> (int \<Rightarrow> 'w \<Rightarrow> http_response \<times> 'w) \<Rightarrow> 'w \<Rightarrow> http_response \<times> 'w" where
  "with_id rq f w = (case parseIDParam ''id'' (rq_param rq ''id'') of Inl r \<Rightarrow> (r, w) | Inr i \<Rightarrow> f i w)"

definition with_body :: "error + 'a \<Rightarrow> ('a \<Rightarrow> 'w \<Rightarrow> http_response \<times> 'w) \<Rightarrow> 'w \<Rightarrow> http_response \<times> 'w" where
  "with_body b f w = (case b of Inl err \<Rightarrow> (json_error 400 (error_text err), w) | Inr req \<Rightarrow> f req w)"

definition SendSMS ::
  "'w runtime \<Rightarrow> 'w Service \<Rightarrow> 'b binding \<Rightarrow> 'b http_request \<Rightarrow> slots \<Rightarrow> 'w \<Rightarrow> (http_response \<times> slots \<times> 'w) option" where
  "SendSMS rt S B rq sl w = (case bind_sms B (rq_body rq) of
     Inl err \<Rightarrow> Some (json_answer 400 (AnError \<lparr>er_Error = ''validation failed'', er_Details = error_text err\<rparr>), sl, w)
   | Inr req \<Rightarrow> (case Execute rt S (ToCommand req) sl w of
       None \<Rightarrow> None
     | Some (Inl err, sl1, w1) \<Rightarrow> Some (fail_with err, sl1, w1)
     | Some (Inr result, sl1, w1) \<Rightarrow> Some (json_answer 202 (AnSMS (ToResponse req result)), sl1, w1)))"

definition h_CreateWallet :: "'w AdminService \<Rightarrow> 'b binding \<Rightarrow> 'b http_request \<Rightarrow> 'w \<Rightarrow> http_response \<times> 'w" where
  "h_CreateWallet A B rq = with_body (bind_wallet B (rq_body rq)) (\<lambda>req w.
    answer_with (\<lambda>wal. json_answer 201 (AWallet (ToWalletResponse wal))) (CreateWallet_admin A (cw_Balance req) w))"

definition h_GetWallet :: "'w AdminService \<Rightarrow> 'b http_request \<Rightarrow> 'w \<Rightarrow> http_response \<times> 'w" where
  "h_GetWallet A rq = with_id rq (\<lambda>i w.
    answer_with (\<lambda>wal. json_answer 200 (AWallet (ToWalletResponse wal))) (GetWallet A i w))"

definition h_TopUpWallet :: "'w AdminService \<Rightarrow> 'b binding \<Rightarrow> 'b http_request \<Rightarrow> 'w \<Rightarrow> http_response \<times> 'w" where
  "h_TopUpWallet A B rq = with_id rq (\<lambda>i. with_body (bind_topup B (rq_body rq)) (\<lambda>req w.
    answer_with (\<lambda>wal. json_answer 200 (AWallet (ToWalletResponse wal))) (TopUpWallet A i (tu_Amount req) (tu_ReferenceID req) w)))"

definition h_CreateChannel :: "'w AdminService \<Rightarrow> 'b binding \<Rightarrow> 'b http_request \<Rightarrow> 'w \<Rightarrow> http_response \<times> 'w" where
  "h_CreateChannel A B rq = with_body (bind_channel B (rq_body rq)) (\<lambda>req w.
    answer_with (\<lambda>ch. json_answer 201 (AChannel (ToChannelResponse ch))) (CreateChannel A (cc_Name req) (cc_WalletID req) w))"

definition h_ListChannels :: "'w AdminService \<Rightarrow> 'w \<Rightarrow> http_response \<times> 'w" where
  "h_ListChannels A w = answer_with (\<lambda>chs. json_answer 200 (Channels (map ToChannelResponse chs))) (ListChannels A w)"

definition h_GetWalletTransactions :: "'w AdminService \<Rightarrow> 'b http_request \<Rightarrow> 'w \<Rightarrow> http_response \<times> 'w" where
  "h_GetWalletTransactions A rq = with_id rq (\<lambda>i w.
    answer_with (\<lambda>txs. json_answer 200 (Transactions (map ToTransactionResponse txs))) (GetWalletTransactions A i w))"

definition h_ListSMSReports :: "'w AdminService \<Rightarrow> 'b http_request \<Rightarrow> 'w \<Rightarrow> http_response \<times> 'w" where
  "h_ListSMSReports A rq = with_id rq (\<lambda>i w.
    let raw = rq_query rq ''limit'';
        limit = (if raw = [] then 100 else case ParseInt raw of Inr n \<Rightarrow> n | Inl _ \<Rightarrow> 100)
    in answer_with (\<lambda>rs. json_answer 200 (Reports (map ToSMSDeliveryResponse rs))) (ListSMSReports A i limit w))"

definition h_GetSMSReport :: "'w AdminService \<Rightarrow> 'b http_request \<Rightarrow> 'w \<Rightarrow> http_response \<times> 'w" where
  "h_GetSMSReport A rq w =
    (let messageID = TrimSpace (rq_param rq ''message_id'') in
     if messageID = [] then (json_error 400 ''message_id is required'', w)
     else answer_with (\<lambda>r. json_answer 200 (AReport (ToSMSDeliveryResponse r))) (GetSMSReport A messageID w))"

section \<open>Routes\<close>

datatype endpoint = EpSendSMS | EpCreateWallet | EpGetWallet | EpTopUpWallet | EpGetWalletTransactions | EpListSMSReports
  | EpCreateChannel | EpListChannels | EpGetSMSReport | EpSwagger

text \<open>Method, path and handler, and whether the route belongs to the group with the API key.\<close>

definition routes :: "(string \<times> string \<times> endpoint \<times> bool) list" where
  "routes = [(''POST'', ''/api/v1/sms'', EpSendSMS, False),
    (''POST'', ''/api/v1/wallets'', EpCreateWallet, True),
    (''GET'', ''/api/v1/wallets/:id'', EpGetWallet, True),
    (''POST'', ''/api/v1/wallets/:id/topup'', EpTopUpWallet, True),
    (''GET'', ''/api/v1/wallets/:id/transactions'', EpGetWalletTransactions, True),
    (''GET'', ''/api/v1/wallets/:id/sms'', EpListSMSReports, True),
    (''POST'', ''/api/v1/channels'', EpCreateChannel, True),
    (''GET'', ''/api/v1/channels'', EpListChannels, True),
    (''GET'', ''/api/v1/sms/:message_id'', EpGetSMSReport, True),
    (''GET'', ''/swagger/*any'', EpSwagger, False)]"

text \<open>\<^verbatim>\<open>subtle.ConstantTimeCompare\<close>: the disjunction of the differences of all bytes.\<close>

definition ConstantTimeCompare :: "string \<Rightarrow> string \<Rightarrow> int" where
  "ConstantTimeCompare x y = (if length x \<noteq> length y then 0
    else if fold (\<lambda>(a, b) v. or v (xor (of_char a) (of_char b))) (zip x y) (0 :: 8 word) = 0 then 1 else 0)"

definition requireAPIKey :: "string \<Rightarrow> string \<Rightarrow> bool" where
  "requireAPIKey expected provided \<longleftrightarrow> \<not> (length provided \<noteq> length expected \<or> ConstantTimeCompare provided expected \<noteq> 1)"

definition run_endpoint ::
  "'w runtime \<Rightarrow> 'w Service \<Rightarrow> 'w AdminService \<Rightarrow> 'b binding \<Rightarrow> endpoint \<Rightarrow> 'b http_request \<Rightarrow> slots \<Rightarrow> 'w \<Rightarrow> (http_response \<times> slots \<times> 'w) option" where
  "run_endpoint rt S A B ep rq sl w =
    (let admin = (\<lambda>(r, w1). Some (r, sl, w1)) in
     case ep of
       EpSendSMS \<Rightarrow> SendSMS rt S B rq sl w
     | EpCreateWallet \<Rightarrow> admin (h_CreateWallet A B rq w)
     | EpGetWallet \<Rightarrow> admin (h_GetWallet A rq w)
     | EpTopUpWallet \<Rightarrow> admin (h_TopUpWallet A B rq w)
     | EpGetWalletTransactions \<Rightarrow> admin (h_GetWalletTransactions A rq w)
     | EpListSMSReports \<Rightarrow> admin (h_ListSMSReports A rq w)
     | EpCreateChannel \<Rightarrow> admin (h_CreateChannel A B rq w)
     | EpListChannels \<Rightarrow> admin (h_ListChannels A w)
     | EpGetSMSReport \<Rightarrow> admin (h_GetSMSReport A rq w)
     | EpSwagger \<Rightarrow> Some (swagger_page B rq, sl, w))"

text \<open>A request that Gin has matched to a route.\<close>

definition serve ::
  "string \<Rightarrow> 'w runtime \<Rightarrow> 'w Service \<Rightarrow> 'w AdminService \<Rightarrow> 'b binding \<Rightarrow> string \<times> string \<times> endpoint \<times> bool \<Rightarrow>
   'b http_request \<Rightarrow> slots \<Rightarrow> 'w \<Rightarrow> (http_response \<times> slots \<times> 'w) option" where
  "serve adminAPIKey rt S A B route rq sl w = (case route of (_, _, ep, protected) \<Rightarrow>
    if protected \<and> \<not> requireAPIKey adminAPIKey (rq_header rq ''X-Admin-API-Key'') then Some (json_error 401 ''unauthorized'', sl, w)
    else run_endpoint rt S A B ep rq sl w)"

section \<open>The API key\<close>

lemma of_char_word_inj: "(of_char a :: 8 word) = of_char b \<longleftrightarrow> a = b"
proof
  assume "(of_char a :: 8 word) = of_char b"
  then have "(of_nat (of_char a) :: 8 word) = of_nat (of_char b)" by (simp add: of_nat_of_char)
  then have "unat (of_nat (of_char a) :: 8 word) = unat (of_nat (of_char b) :: 8 word)" by simp
  then have "(of_char a :: nat) = of_char b" by (simp only: unsigned_of_nat take_bit_eq_mod) simp
  then show "a = b" by simp
qed simp

lemma fold_differences:
  "fold (\<lambda>(a, b) v. or v (xor (of_char a) (of_char b))) ps (v :: 8 word) = 0 \<longleftrightarrow> v = 0 \<and> (\<forall>(a, b) \<in> set ps. a = b)"
proof (induction ps arbitrary: v)
  case (Cons p ps)
  obtain a b where p: "p = (a, b)" by (cases p)
  have "x = y" if "xor x y = 0" for x y :: "8 word"
  proof -
    have "x = xor (xor x y) y" by (simp add: xor.assoc)
    then show ?thesis using that by simp
  qed
  then have "xor (of_char a) (of_char b) = (0 :: 8 word) \<longleftrightarrow> a = b" using of_char_word_inj [of a b] by auto
  then show ?case using Cons [of "or v (xor (of_char a) (of_char b))"] by (auto simp: p or_eq_0_iff)
qed simp

lemma requireAPIKey_iff: "requireAPIKey expected provided \<longleftrightarrow> provided = expected"
proof (cases "length provided = length expected")
  case True
  have "(\<forall>(a, b) \<in> set (zip provided expected). a = b) \<longleftrightarrow> provided = expected"
    using True by (auto simp: set_zip list_eq_iff_nth_eq)
  then show ?thesis using True by (simp add: requireAPIKey_def ConstantTimeCompare_def fold_differences)
qed (auto simp: requireAPIKey_def)

end
