(* ===== verification/ApiProps.thy ===== *)
theory ApiProps
  imports HttpApi ServiceProps WalletProps
begin

text \<open>
  The promises of the HTTP interface and the administrative service: what a status code tells the
  caller, which routes need the API key, and that a top-up credits exactly what was asked for.
\<close>

section \<open>Sending\<close>

lemma status_json [simp]: "rs_status (json_answer st a) = st" "rs_status (json_error st msg) = st"
  by (simp_all add: json_answer_def json_error_def)

lemma fail_not_accepted [simp]: "rs_status (fail_with err) \<noteq> 202"
  by (simp add: fail_with_def writeServiceError_def)

lemma bound_valid:
  assumes "binding_ok B" "bind_sms B b = Inr req"
  shows "LineType_IsValid (cmd_Line (ToCommand req)) \<and> Destination_IsValid (cmd_Dest (ToCommand req)) \<and> IsMessageValid (cmd_Message (ToCommand req))"
proof -
  have "req_Line req \<in> {''express'', ''normal''}" "req_Dest req \<noteq> []" "req_Message req \<noteq> []" "rune_count (req_Message req) \<le> 1600"
    using assms unfolding binding_ok_def by blast+
  moreover have "0 < rune_count (req_Message req)" using \<open>req_Message req \<noteq> []\<close> rune_count_eq_0 [of "req_Message req"] by linarith
  ultimately show ?thesis
    by (auto simp: ToCommand_def LineType_IsValid_def LineTypeExpress_def LineTypeNormal_def Destination_IsValid_def IsMessageValid_def)
qed

lemma overloaded_answer:
  "fail_with (Wrapf [] ErrLineOverloaded t) = (json_error 429 ''SMS line is at capacity'')\<lparr>rs_retry_after := Some ''1''\<rparr>"
  by (simp add: fail_with_def writeServiceError_def)

text \<open>
  C25: what the caller of \<^verbatim>\<open>POST /sms\<close> learns. The answer is 202 exactly if the service accepted the
  message, and it carries the message identifier, price and balance the service returned. A
  body that does not pass the validation is answered with 400 and changes nothing. A line at
  capacity is answered with 429 and \<^verbatim>\<open>Retry-After\<close>, and changes nothing.
\<close>

theorem send_sms_status:
  assumes "binding_ok B" "SendSMS rt S B rq sl w = Some (rsp, sl', w')"
  shows "(rs_status rsp = 202 \<longleftrightarrow> (\<exists>req res. bind_sms B (rq_body rq) = Inr req
        \<and> Execute rt S (ToCommand req) sl w = Some (Inr res, sl', w') \<and> rs_answer rsp = AnSMS (ToResponse req res)))
    \<and> ((\<exists>e. bind_sms B (rq_body rq) = Inl e) \<longrightarrow> rs_status rsp = 400 \<and> sl' = sl \<and> w' = w)
    \<and> (\<forall>req. bind_sms B (rq_body rq) = Inr req \<longrightarrow> \<not> fst (svc_acquire S (req_Line req) sl)
        \<longrightarrow> rs_status rsp = 429 \<and> rs_retry_after rsp = Some ''1'' \<and> sl' = sl \<and> w' = w)"
proof (cases "bind_sms B (rq_body rq)")
  case (Inl e)
  then show ?thesis using assms(2) by (auto simp: SendSMS_def)
next
  case (Inr req)
  then obtain r sl1 w1 where x: "Execute rt S (ToCommand req) sl w = Some (r, sl1, w1)"
    using assms(2) by (auto simp: SendSMS_def split: option.splits)
  then have rsp: "sl' = sl1" "w' = w1" "rsp = (case r of Inl err \<Rightarrow> fail_with err | Inr res \<Rightarrow> json_answer 202 (AnSMS (ToResponse req res)))"
    using assms(2) Inr by (auto simp: SendSMS_def split: sum.splits)
  have full: "r = Inl (Wrapf [] ErrLineOverloaded ('': '' @ req_Line req)) \<and> sl1 = sl \<and> w1 = w"
    if "\<not> fst (svc_acquire S (req_Line req) sl)"
  proof -
    have "svc_acquire S (req_Line req) sl = (False, sl)"
      using that refused_slots [of S "req_Line req" sl] by (cases "svc_acquire S (req_Line req) sl") auto
    then show ?thesis using x bound_valid [OF assms(1) Inr] by (auto simp: Execute_def ToCommand_def)
  qed
  have "rs_status rsp = 202 \<longleftrightarrow> (\<exists>res. r = Inr res \<and> rs_answer rsp = AnSMS (ToResponse req res))"
    using rsp(3) by (cases r) (auto simp: json_answer_def)
  then show ?thesis using Inr x rsp full by (auto simp: overloaded_answer)
qed

definition binding_example :: "SendSMSRequest binding" where
  "binding_example = \<lparr>bind_sms = (\<lambda>req. if req_Line req \<in> {''express'', ''normal''} \<and> req_Dest req \<noteq> [] \<and> req_Channel req \<noteq> []
      \<and> req_Message req \<noteq> [] \<and> rune_count (req_Message req) \<le> 1600 then Inr req else Inl (NewError ''invalid'')),
    bind_wallet = (\<lambda>_. Inl (NewError ''invalid'')), bind_topup = (\<lambda>_. Inl (NewError ''invalid'')), bind_channel = (\<lambda>_. Inl (NewError ''invalid'')),
    swagger_page = (\<lambda>rq. json_answer 200 (Page (rq_param rq ''any'')))\<rparr>"

definition request_example :: "SendSMSRequest http_request" where
  "request_example = \<lparr>rq_param = (\<lambda>_. []), rq_query = (\<lambda>_. []), rq_header = (\<lambda>_. []),
    rq_body = \<lparr>req_Line = ''express'', req_Dest = ''+98'', req_Channel = ''web'', req_Message = ''hi''\<rparr>\<rparr>"

theorem send_sms_status_witness:
  "\<exists>rsp w' req res. SendSMS rt_example service_example binding_example request_example no_slots (db_channel_example, credit_example, ())
      = Some (rsp, no_slots, w') \<and> rs_status rsp = 202 \<and> rs_answer rsp = AnSMS (ToResponse req res)
    \<and> Execute rt_example service_example (ToCommand req) no_slots (db_channel_example, credit_example, ()) = Some (Inr res, no_slots, w')"
proof -
  let ?req = "rq_body request_example"
  have cmd: "ToCommand ?req = cmd_example" by (simp add: request_example_def ToCommand_def cmd_example_def)
  have b: "binding_ok binding_example" by (auto simp: binding_ok_def binding_example_def split: if_splits)
  have bound: "bind_sms binding_example ?req = Inr ?req"
    by (simp add: binding_example_def request_example_def rune_count.simps rune_width_def)
  obtain res w' where e: "Execute rt_example service_example cmd_example no_slots (db_channel_example, credit_example, ()) = Some (Inr res, no_slots, w')"
    using execute_example [of "()"] by blast
  then have s: "SendSMS rt_example service_example binding_example request_example no_slots (db_channel_example, credit_example, ())
      = Some (json_answer 202 (AnSMS (ToResponse ?req res)), no_slots, w')"
    using bound cmd by (simp add: SendSMS_def)
  have st: "rs_status (json_answer 202 (AnSMS (ToResponse ?req res))) = 202" by simp
  from send_sms_status [OF b s, THEN conjunct1, THEN iffD1, OF st] s st show ?thesis by blast
qed

section \<open>Administration\<close>

text \<open>
  C26: only \<^verbatim>\<open>POST /sms\<close> and the documentation page are open. On every other route a request without exactly the configured
  API key is answered with 401 and nothing else happens; with the key, and on the open routes,
  the handler runs, and the page changes nothing.
\<close>

theorem admin_routes_protected:
  assumes "route \<in> set routes"
  shows "serve adminAPIKey rt S A B route rq sl w =
    (if (fst route, fst (snd route)) \<notin> {(''POST'', ''/api/v1/sms''), (''GET'', ''/swagger/*any'')} \<and> rq_header rq ''X-Admin-API-Key'' \<noteq> adminAPIKey
     then Some (json_error 401 ''unauthorized'', sl, w)
     else if fst (snd route) = ''/swagger/*any'' then Some (swagger_page B rq, sl, w)
     else run_endpoint rt S A B (fst (snd (snd route))) rq sl w)"
  using assms by (auto simp: routes_def serve_def requireAPIKey_iff run_endpoint_def)

theorem admin_routes_protected_witness:
  "serve ''key'' rt_example service_example (NewAdminService (postgres_wallets mem_gorm None) (postgres_channels mem_gorm) None)
     binding_example (''POST'', ''/api/v1/wallets'', EpCreateWallet, True) request_example no_slots (db_channel_example, credit_example, ())
   = Some (json_error 401 ''unauthorized'', no_slots, (db_channel_example, credit_example, ()))"
proof -
  have "(''POST'', ''/api/v1/wallets'', EpCreateWallet, True) \<in> set routes" by (simp add: routes_def)
  from admin_routes_protected [OF this, of "''key''" rt_example service_example _ binding_example request_example] show ?thesis
    by (simp add: request_example_def)
qed

text \<open>
  C29: a top-up is exact. An amount that is not a number, infinite, negative, too large or less than
  half of the smallest unit is refused as invalid input and changes nothing. Otherwise the
  wallet is credited with exactly the amount, rounded to four decimals, together with a ledger
  entry under the trimmed reference, or nothing happens and the caller gets an error (unless a
  commit that reported an error took effect).
\<close>

theorem topup_exact:
  assumes "gorm_db G dbv frame" "wallet_has (dbv w) i b" "\<forall>f u v. cache = Some f \<longrightarrow> dbv (snd (f i u v)) = dbv v"
    "\<forall>m. NewMoney x = Inr m \<longrightarrow> units b + units m < 10 ^ 15"
    "TopUpWallet (NewAdminService (postgres_wallets G cache) cr dr) i x ref w = (r, w')"
  shows "case NewMoney x of
      Inl e \<Rightarrow> r = Inl invalid_amount \<and> w' = w
    | Inr m \<Rightarrow>
        if units m \<le> 0 then r = Inl invalid_amount \<and> w' = w
        else let credited = changed i \<lparr>units = units b + units m\<rparr> (Float64 m) ''credit'' (TrimSpace ref) ''Wallet top-up'' (dbv w) (dbv w')
          in (case r of Inr wal \<Rightarrow> Balance wal = \<lparr>units = units b + units m\<rparr> \<and> credited | Inl e \<Rightarrow> dbv w' = dbv w \<or> credited)"
proof (cases "NewMoney x")
  case (Inl e)
  then show ?thesis using assms(5) by (simp add: TopUpWallet_def)
next
  case m: (Inr m)
  show ?thesis
  proof (cases "units m \<le> 0")
    case True
    then show ?thesis using assms(5) m by (simp add: TopUpWallet_def IsPositive_def)
  next
    case False
    let ?nb = "new_balance TransactionTypeCredit b m"
    from assms(2) obtain row where row: "wallets (dbv w) i = Some row" "wm_Balance row = Float64 b" "db_money b" by (auto simp: wallet_has_def)
    have d: "db_money m" "db_money ?nb" using assms(4) m False row(3) by (auto simp: db_money_def new_balance_def)
    obtain q v where t: "Transaction G (mutate_tx G i m (TrimSpace ref) ''Wallet top-up'' TransactionTypeCredit) w = (q, v)" by (metis surj_pair)
    have run: "finish cache i (q, v) = (r, w')"
      using assms(5) m False t by (simp add: TopUpWallet_def IsPositive_def NewAdminService_def postgres_wallets_def CreditAndRecord_def mutateAndRecord_def)
    have "dbv w' = dbv v" "case q of Inl e \<Rightarrow> r = Inl (fst e) | Inr (CWallet wal) \<Rightarrow> r = Inr wal | Inr _ \<Rightarrow> True"
      using run assms(3) by (auto simp: finish_def set_cache_def split: sum.splits captured.splits option.splits)
    with gorm_db.mutate_effect [OF assms(1) row d(1) _ t] d(2) show ?thesis using m False
      by (cases q) (auto simp: new_balance_def Let_def)
  qed
qed

theorem topup_exact_witness:
  "\<exists>wal w'. TopUpWallet (NewAdminService (postgres_wallets mem_gorm None) (postgres_channels mem_gorm) None) 7 (Float64 \<lparr>units = 5000\<rparr>) ''r1''
      (db_example, ()) = (Inr wal, w') \<and> Balance wal = \<lparr>units = 35000\<rparr>"
proof -
  have m: "NewMoney (Float64 \<lparr>units = 5000\<rparr>) = Inr \<lparr>units = 5000\<rparr>" by (rule db_money_roundtrip) (simp add: db_money_def)
  have "db_money \<lparr>units = 30000\<rparr>" by (simp add: db_money_def)
  from toWallet_balance [OF this] m obtain wal w' where
    r: "TopUpWallet (NewAdminService (postgres_wallets mem_gorm None) (postgres_channels mem_gorm) None) 7 (Float64 \<lparr>units = 5000\<rparr>) ''r1''
      (db_example, ()) = (Inr wal, w')"
    by (simp add: TopUpWallet_def NewAdminService_def postgres_wallets_def CreditAndRecord_def IsPositive_def mutateAndRecord_def finish_def
        set_cache_def mem_gorm_def mutate_tx_def db_example_def Let_def)
  from topup_exact [OF mem_db_ok _ _ _ r, of "\<lparr>units = 30000\<rparr>"] db_example_wallet m have "Balance wal = \<lparr>units = 35000\<rparr>" by simp
  with r show ?thesis by blast
qed

end
