(* ===== verification/GatewayRuns.thy ===== *)
theory GatewayRuns
  imports WorkerProps ServiceProps DispatcherProps
begin

text \<open>
  The gateway as a whole: API replicas accept messages, the dispatcher publishes them and workers
  process and reprocess them, in any order. What the reservation flow is for holds in every state
  that can be reached: the credit that is still available to a wallet and the amounts held for its
  unfinished messages are covered by its balance in the database.

  A step is a whole operation of one process; the interleaving of the Redis scripts of operations
  that overlap is the subject of \<^verbatim>\<open>CreditRuns\<close>.
\<close>

section \<open>What is owed\<close>

fun payload_wallet :: "json \<Rightarrow> int" where
  "payload_wallet (JObj kvs) = (case map_of kvs ''wallet_id'' of Some (JInt i) \<Rightarrow> i | _ \<Rightarrow> 0)"
| "payload_wallet _ = 0"

lemma payload_wallet_event [simp]: "payload_wallet (json_event ev) = ev_WalletID ev"
  by (simp add: json_event_def)

lemma decoded:
  "json_Unmarshal (Some (json_event ev)) = Inr e \<Longrightarrow>
    ev_MessageID e = utf8_clean (ev_MessageID ev) \<and> ev_WalletID e = ev_WalletID ev \<and> ev_CostUnits e = ev_CostUnits ev"
  by (auto simp: json_event_def json_Unmarshal_def set_field_def event_fields_def set_string_def set_int_def set_time_def
      split: if_splits option.splits)

definition held_for :: "credit \<Rightarrow> string \<Rightarrow> int" where
  "held_for cr mid = (case c_held cr mid of None \<Rightarrow> 0 | Some a \<Rightarrow> a)"

text \<open>What is held for the message of a row, if wallet \<open>i\<close> pays for it and it is not finished.\<close>

definition due :: "db \<Rightarrow> credit \<Rightarrow> int \<Rightarrow> SMSOutboxModel \<Rightarrow> int" where
  "due d cr i row = (if payload_wallet (om_Payload row) = i \<and> \<not> terminal_in d (om_MessageID row) then held_for cr (om_MessageID row) else 0)"

definition owed :: "db \<Rightarrow> credit \<Rightarrow> int \<Rightarrow> int" where
  "owed d cr i = sum_list (map (due d cr i) (sms_outbox d))"

lemma sum_list_one_changes:
  fixes f g :: "'a \<Rightarrow> int"
  assumes "distinct (map k xs)" "x \<in> set xs" "\<And>y. y \<in> set xs \<Longrightarrow> k y \<noteq> k x \<Longrightarrow> g y = f y"
  shows "sum_list (map g xs) = sum_list (map f xs) + (g x - f x)"
  using assms
proof (induction xs)
  case (Cons y xs)
  show ?case
  proof (cases "x = y")
    case True
    have "k z \<noteq> k x" if "z \<in> set xs" for z using Cons.prems(1) imageI [OF that, of k] True by auto
    then have "map g xs = map f xs" using Cons.prems(3) by (intro map_cong) auto
    then show ?thesis using True by (simp del: map_eq_conv)
  next
    case False
    then have x: "x \<in> set xs" using Cons.prems(2) by simp
    then have "k y \<noteq> k x" using Cons.prems(1) by (metis distinct.simps(2) image_eqI image_set list.simps(9))
    then have "g y = f y" using Cons.prems(3) [of y] by simp
    then show ?thesis using Cons.IH [OF _ x] Cons.prems(1,3) by simp
  qed
qed simp

section \<open>Coherent stores\<close>

text \<open>
  The outbox row of an event: a worker that decodes the payload finds this message, wallet and cost,
  and what is held for the message, if anything, is its cost.
\<close>

definition names :: "SMSOutboxModel \<Rightarrow> DeliveryEvent \<Rightarrow> bool" where
  "names row ev \<longleftrightarrow> om_MessageID row = ev_MessageID ev \<and> payload_wallet (om_Payload row) = ev_WalletID ev
    \<and> (\<forall>e. json_Unmarshal (Some (om_Payload row)) = Inr e \<longrightarrow> ev_MessageID e = ev_MessageID ev \<and> ev_WalletID e = ev_WalletID ev
         \<and> ev_CostUnits e = ev_CostUnits ev)"

definition row_for :: "credit \<Rightarrow> SMSOutboxModel \<Rightarrow> DeliveryEvent \<Rightarrow> bool" where
  "row_for cr row ev \<longleftrightarrow> names row ev \<and> c_avail cr (ev_WalletID ev) \<noteq> None \<and> db_money \<lparr>units = ev_CostUnits ev\<rparr>
    \<and> (\<forall>a. c_held cr (ev_MessageID ev) = Some a \<longrightarrow> a = ev_CostUnits ev)"

lemma row_forD:
  assumes "row_for cr row ev"
  shows "om_MessageID row = ev_MessageID ev" "payload_wallet (om_Payload row) = ev_WalletID ev"
  using assms unfolding row_for_def names_def by blast+

lemma names_outbox_row: "valid_utf8 (ev_MessageID ev) \<Longrightarrow> names ((outbox_row ev (json_event ev))\<lparr>om_ID := k, om_CreatedAt := t\<rparr>) ev"
  unfolding names_def valid_utf8_def by (simp add: outbox_row_def) (metis decoded)

lemma row_for_decoded:
  assumes "row_for cr row ev" "json_Unmarshal (Some (om_Payload row)) = Inr e"
  shows "row_for cr row e"
proof -
  have "names row ev" using assms(1) unfolding row_for_def by (rule conjunct1)
  then have "\<forall>e. json_Unmarshal (Some (om_Payload row)) = Inr e \<longrightarrow> ev_MessageID e = ev_MessageID ev \<and> ev_WalletID e = ev_WalletID ev
      \<and> ev_CostUnits e = ev_CostUnits ev" unfolding names_def by (elim conjE)
  with assms(2) have e: "ev_MessageID e = ev_MessageID ev" "ev_WalletID e = ev_WalletID ev" "ev_CostUnits e = ev_CostUnits ev" by simp_all
  then have "names row e" using row_forD [OF assms(1)] assms(2) by (simp add: names_def)
  then show ?thesis using assms(1) e by (simp add: row_for_def)
qed

definition covered :: "db \<Rightarrow> credit \<Rightarrow> bool" where
  "covered d cr \<longleftrightarrow> (\<forall>i n. c_avail cr i = Some n \<longrightarrow> (\<exists>b. wallet_has d i b \<and> n + owed d cr i \<le> units b))"

text \<open>Every channel's wallet has its credit loaded, and prices are amounts.\<close>

definition stocked :: "db \<Rightarrow> credit \<Rightarrow> bool" where
  "stocked d cr \<longleftrightarrow> (\<forall>c \<in> set (channels d). c_avail cr (cm_WalletID c) \<noteq> None)
    \<and> (\<forall>co \<in> set (sms_costs d). \<exists>m. db_money m \<and> sm_Cost co = Float64 m)"

definition coherent :: "db \<Rightarrow> credit \<Rightarrow> bool" where
  "coherent d cr \<longleftrightarrow> distinct (map om_MessageID (sms_outbox d)) \<and> (\<forall>row \<in> set (sms_outbox d). \<exists>ev. row_for cr row ev)
    \<and> dom (sms_deliveries d) \<subseteq> om_MessageID ` set (sms_outbox d) \<and> stocked d cr \<and> covered d cr"

lemma coherentD:
  assumes "coherent d cr"
  shows "distinct (map om_MessageID (sms_outbox d))" "row \<in> set (sms_outbox d) \<Longrightarrow> \<exists>ev. row_for cr row ev"
    "sms_deliveries d mid = Some record \<Longrightarrow> mid \<in> om_MessageID ` set (sms_outbox d)"
    "c_avail cr i = Some n \<Longrightarrow> \<exists>b. wallet_has d i b \<and> n + owed d cr i \<le> units b"
    "stocked d cr"
  using assms by (simp_all add: coherent_def covered_def domI subset_iff)

lemma due_nonneg:
  assumes "coherent d cr" "row \<in> set (sms_outbox d)"
  shows "0 \<le> due d cr i row"
proof -
  obtain ev where ev: "row_for cr row ev" using coherentD(2) [OF assms] ..
  then show ?thesis using row_forD [OF ev] by (auto simp: due_def held_for_def row_for_def db_money_def split: option.splits)
qed

lemma due_le_owed:
  assumes "coherent d cr" "row \<in> set (sms_outbox d)"
  shows "due d cr i row \<le> owed d cr i"
proof -
  have "\<forall>x \<in> set (map (due d cr i) (sms_outbox d)). 0 \<le> x" using due_nonneg [OF assms(1)] by auto
  moreover have "due d cr i row \<in> set (map (due d cr i) (sms_outbox d))" using assms(2) by simp
  ultimately show ?thesis unfolding owed_def by (metis member_le_sum_list)
qed

text \<open>The changes that the settlement of one message may make.\<close>

lemma coherent_message:
  assumes c: "coherent d cr" and row: "row \<in> set (sms_outbox d)" "row_for cr row ev"
    and same: "sms_outbox d' = sms_outbox d" "\<And>m. m \<noteq> ev_MessageID ev \<Longrightarrow> sms_deliveries d' m = sms_deliveries d m"
      "\<And>m. m \<noteq> ev_MessageID ev \<Longrightarrow> c_held cr' m = c_held cr m" "\<And>i. i \<noteq> ev_WalletID ev \<Longrightarrow> c_avail cr' i = c_avail cr i"
      "\<And>i b. i \<noteq> ev_WalletID ev \<Longrightarrow> wallet_has d i b \<Longrightarrow> wallet_has d' i b"
    and shop: "channels d' = channels d" "sms_costs d' = sms_costs d"
    and held: "c_held cr' (ev_MessageID ev) = None \<or> c_held cr' (ev_MessageID ev) = c_held cr (ev_MessageID ev)"
    and n: "c_avail cr (ev_WalletID ev) = Some n" "c_avail cr' (ev_WalletID ev) = Some n'"
    and b: "\<And>b. wallet_has d (ev_WalletID ev) b \<Longrightarrow> n + owed d cr (ev_WalletID ev) \<le> units b \<Longrightarrow> \<exists>b'. wallet_has d' (ev_WalletID ev) b' \<and>
      n' + due d' cr' (ev_WalletID ev) row - units b' \<le> n + due d cr (ev_WalletID ev) row - units b"
  shows "coherent d' cr'"
proof -
  let ?i = "ev_WalletID ev" and ?m = "ev_MessageID ev"
  have dist: "distinct (map om_MessageID (sms_outbox d))" using c by (simp add: coherent_def)
  note mid = row_forD [OF row(2)]
  have avail: "c_avail cr i \<noteq> None \<Longrightarrow> c_avail cr' i \<noteq> None" for i using same(4) [of i] n by (cases "i = ?i") auto
  have rows: "\<exists>e. row_for cr' r e" if r: "r \<in> set (sms_outbox d)" for r
  proof -
    obtain e where e: "row_for cr r e" using coherentD(2) [OF c r] ..
    have "c_held cr' (ev_MessageID e) = None \<or> c_held cr' (ev_MessageID e) = c_held cr (ev_MessageID e)"
      using held same(3) by metis
    then show ?thesis using e avail [of "ev_WalletID e"] by (intro exI [of _ e]) (auto simp: row_for_def)
  qed
  have other: "due d' cr' i r = due d cr i r" if "om_MessageID r \<noteq> om_MessageID row" for r i
    using that mid same(2) [of "om_MessageID r"] same(3) [of "om_MessageID r"] by (auto simp: due_def terminal_in_def held_for_def)
  have owed: "owed d' cr' i = owed d cr i + (due d' cr' i row - due d cr i row)" for i
    unfolding owed_def same(1) by (rule sum_list_one_changes [OF dist row(1)]) (rule other)
  have "dom (sms_deliveries d') \<subseteq> om_MessageID ` set (sms_outbox d)"
  proof
    fix m assume "m \<in> dom (sms_deliveries d')"
    then show "m \<in> om_MessageID ` set (sms_outbox d)" using c same(2) [of m] row(1) mid
      by (cases "m = ?m") (auto simp: coherent_def dom_def intro: rev_image_eqI)
  qed
  moreover have "covered d' cr'" unfolding covered_def
  proof (intro allI impI)
    fix i k assume k: "c_avail cr' i = Some k"
    show "\<exists>b. wallet_has d' i b \<and> k + owed d' cr' i \<le> units b"
    proof (cases "i = ?i")
      case True
      obtain b0 where "wallet_has d ?i b0" "n + owed d cr ?i \<le> units b0" using coherentD(4) [OF c n(1)] by blast
      with b [of b0] show ?thesis using True k n(2) owed [of ?i] by fastforce
    next
      case False
      then have "c_avail cr i = Some k" using k same(4) by simp
      then obtain b0 where "wallet_has d i b0" "k + owed d cr i \<le> units b0" using coherentD(4) [OF c] by blast
      moreover have "due d' cr' i row = 0" "due d cr i row = 0" using False mid by (auto simp: due_def)
      ultimately show ?thesis using same(5) [OF False] owed [of i] by fastforce
    qed
  qed
  moreover have "stocked d' cr'" using coherentD(5) [OF c] avail shop by (auto simp: stocked_def)
  ultimately show ?thesis using rows dist same(1) by (simp add: coherent_def)
qed


lemma wallet_has_unique: "wallet_has d i b \<Longrightarrow> wallet_has d i b' \<Longrightarrow> b' = b"
  by (metis db_money_roundtrip old.sum.inject(2) option.inject wallet_has_def)

lemma coherent_begun:
  assumes "coherent d cr" "row \<in> set (sms_outbox d)" "row_for cr row ev" "begun ev d d1"
  shows "coherent d1 cr"
proof -
  obtain n where n: "c_avail cr (ev_WalletID ev) = Some n" using assms(3) by (auto simp: row_for_def)
  have "sms_outbox d1 = sms_outbox d" "wallets d1 = wallets d" "channels d1 = channels d" "sms_costs d1 = sms_costs d" "\<And>m. m \<noteq> ev_MessageID ev \<Longrightarrow> sms_deliveries d1 m = sms_deliveries d m"
    using assms(4) by (auto simp: begun_def set_delivery_def split: if_splits)
  moreover have "due d1 cr (ev_WalletID ev) row = due d cr (ev_WalletID ev) row"
    using begun_terminal [OF assms(4)] row_forD [OF assms(3)] by (simp add: due_def)
  ultimately show ?thesis by (intro coherent_message [OF assms(1-3) _ _ _ _ _ _ _ _ n n]) (auto simp: wallet_has_def)
qed

lemma coherent_refunded:
  assumes "coherent d cr" "row \<in> set (sms_outbox d)" "row_for cr row ev" "\<not> terminal_in d (ev_MessageID ev)"
    "c_avail cr (ev_WalletID ev) = Some n" "d' = d \<or> refunded_db ev reason d d'"
  shows "coherent d' (refunded_credit ev n cr)"
proof -
  note mid = row_forD [OF assms(3)]
  have d': "sms_outbox d' = sms_outbox d" "wallets d' = wallets d" "channels d' = channels d" "sms_costs d' = sms_costs d" "\<And>m. m \<noteq> ev_MessageID ev \<Longrightarrow> sms_deliveries d' m = sms_deliveries d m"
    using assms(6) by (auto simp: refunded_db_def updated_def set_delivery_def)
  have cr': "c_avail (refunded_credit ev n cr) (ev_WalletID ev) = Some (n + held_for cr (ev_MessageID ev))"
    "c_held (refunded_credit ev n cr) (ev_MessageID ev) = None"
    "\<And>m. m \<noteq> ev_MessageID ev \<Longrightarrow> c_held (refunded_credit ev n cr) m = c_held cr m"
    "\<And>i. i \<noteq> ev_WalletID ev \<Longrightarrow> c_avail (refunded_credit ev n cr) i = c_avail cr i"
    using assms(5) by (auto simp: refund_credit_def held_for_def split: option.splits)
  have "due d' (refunded_credit ev n cr) (ev_WalletID ev) row = 0" "due d cr (ev_WalletID ev) row = held_for cr (ev_MessageID ev)"
    using mid assms(4) cr'(2) by (auto simp: due_def held_for_def)
  with d' cr' show ?thesis
    by (intro coherent_message [OF assms(1-3) _ _ _ _ _ _ _ _ assms(5) cr'(1)]) (auto simp: wallet_has_def)
qed

lemma coherent_delivered:
  assumes "coherent d cr" "row \<in> set (sms_outbox d)" "row_for cr row ev" "\<not> terminal_in d (ev_MessageID ev)" "c_held cr (ev_MessageID ev) \<noteq> None"
    "sms_deliveries d (ev_MessageID ev) \<noteq> None" "delivered_db ev b d d'" "wallet_has d (ev_WalletID ev) b"
    "cr' = cr \<or> cr' = commit_credit (ev_MessageID ev) cr"
  shows "coherent d' cr'"
proof -
  note mid = row_forD [OF assms(3)]
  have held: "held_for cr (ev_MessageID ev) = ev_CostUnits ev" using assms(3,5) by (auto simp: row_for_def held_for_def)
  obtain n where n: "c_avail cr (ev_WalletID ev) = Some n" using assms(3) by (auto simp: row_for_def)
  have n': "c_avail cr' (ev_WalletID ev) = Some n" using assms(9) n by (auto simp: commit_credit_def)
  have cost: "0 \<le> ev_CostUnits ev" "ev_CostUnits ev \<le> units b" using assms(3,7) by (auto simp: row_for_def db_money_def delivered_db_def)
  then have m: "db_money \<lparr>units = units b - ev_CostUnits ev\<rparr>" using assms(8) by (auto simp: wallet_has_def db_money_def)
  have d': "sms_outbox d' = sms_outbox d" "\<And>m. m \<noteq> ev_MessageID ev \<Longrightarrow> sms_deliveries d' m = sms_deliveries d m"
    "\<And>i. i \<noteq> ev_WalletID ev \<Longrightarrow> wallets d' i = wallets d i" "terminal_in d' (ev_MessageID ev)"
    "wallet_has d' (ev_WalletID ev) \<lparr>units = units b - ev_CostUnits ev\<rparr>" "channels d' = channels d" "sms_costs d' = sms_costs d"
    using assms(6-8) m by (auto simp: delivered_db_def changed_def updated_def set_delivery_def add_transaction_def set_balance_def
        terminal_in_def is_terminal_def apply_updates_def wallet_has_def)
  have "due d' cr' (ev_WalletID ev) row = 0" "due d cr (ev_WalletID ev) row = ev_CostUnits ev"
    using mid assms(4) d'(4) held by (auto simp: due_def)
  with d' show ?thesis using assms(9) wallet_has_unique [OF assms(8)]
    by (intro coherent_message [OF assms(1-3) _ _ _ _ _ _ _ _ n n']) (auto simp: wallet_has_def commit_credit_def intro!: exI [of _ "\<lparr>units = units b - ev_CostUnits ev\<rparr>"])
qed

text \<open>The changes that an accepted or failed request may make.\<close>

lemma coherent_accepted:
  assumes c: "coherent d cr" and fresh: "ev_MessageID ev \<notin> om_MessageID ` set (sms_outbox d)" and n: "c_avail cr (ev_WalletID ev) = Some n"
    and ev: "valid_utf8 (ev_MessageID ev)" "db_money \<lparr>units = ev_CostUnits ev\<rparr>"
    and d': "d' = d \<or> c_held cr (ev_MessageID ev) = None \<and> d' = add_outbox (outbox_row ev (json_event ev)) k t d"
    and cr': "cr' = cr \<or> cr' = reserve_credit (ev_WalletID ev) (ev_MessageID ev) n (ev_CostUnits ev) cr"
  shows "coherent d' cr'"
proof -
  let ?i = "ev_WalletID ev" and ?m = "ev_MessageID ev" and ?row = "(outbox_row ev (json_event ev))\<lparr>om_ID := k, om_CreatedAt := t\<rparr>"
  have same: "wallets d' = wallets d" "sms_deliveries d' = sms_deliveries d" "terminal_in d' = terminal_in d" "channels d' = channels d" "sms_costs d' = sms_costs d"
    using d' by (auto simp: add_outbox_def terminal_in_def fun_eq_iff)
  have others: "c_held cr' x = c_held cr x" if "x \<noteq> ?m" for x using cr' that by (auto simp: reserve_credit_def)
  have avail: "c_avail cr' j = None \<longleftrightarrow> c_avail cr j = None" for j using cr' n by (auto simp: reserve_credit_def split: if_splits)
  have rows: "\<exists>e. row_for cr' r e" if r: "r \<in> set (sms_outbox d)" for r
  proof -
    obtain e where e: "row_for cr r e" using coherentD(2) [OF c r] ..
    have "ev_MessageID e \<noteq> ?m" using fresh imageI [OF r, of om_MessageID] row_forD [OF e] by auto
    then show ?thesis using e others avail by (intro exI [of _ e]) (simp add: row_for_def)
  qed
  have old: "due d' cr' j r = due d cr j r" if "r \<in> set (sms_outbox d)" for j r
  proof -
    have "om_MessageID r \<noteq> ?m" using fresh imageI [OF that, of om_MessageID] by auto
    then show ?thesis using same(3) others by (auto simp: due_def held_for_def)
  qed
  then have sums: "sum_list (map (due d' cr' j) (sms_outbox d)) = owed d cr j" for j
    unfolding owed_def by (metis map_eq_conv)
  have "sms_deliveries d ?m = None" using coherentD(3) [OF c] fresh by (cases "sms_deliveries d ?m") blast+
  then have nt: "\<not> terminal_in d ?m" by (simp add: terminal_in_def)
  have shop: "stocked d' cr'" using coherentD(5) [OF c] avail same(4,5) by (auto simp: stocked_def)
  have slack: "\<exists>b. wallet_has d' j b \<and> x + owed d cr j + (if j = ?i \<and> cr' \<noteq> cr then ev_CostUnits ev else 0) \<le> units b"
    if x: "c_avail cr' j = Some x" for j x
  proof -
    have "c_avail cr j = Some (if j = ?i \<and> cr' \<noteq> cr then x + ev_CostUnits ev else x)" using x cr' n by (auto simp: reserve_credit_def split: if_splits)
    from coherentD(4) [OF c this] same(1) show ?thesis by (auto simp: wallet_has_def split: if_splits)
  qed
  show ?thesis
  proof (cases "d' = d")
    case True
    have "covered d cr'" unfolding covered_def
    proof (intro allI impI)
      fix j x assume "c_avail cr' j = Some x"
      from slack [OF this] obtain b where "wallet_has d j b" "x + owed d cr j + (if j = ?i \<and> cr' \<noteq> cr then ev_CostUnits ev else 0) \<le> units b"
        using True by auto
      then show "\<exists>b. wallet_has d j b \<and> x + owed d cr' j \<le> units b" using sums [of j] True ev(2)
        by (auto simp: owed_def db_money_def split: if_splits)
    qed
    then show ?thesis using c rows True shop by (simp add: coherent_def)
  next
    case False
    then have st: "c_held cr ?m = None" "sms_outbox d' = sms_outbox d @ [?row]" using d' by (auto simp: add_outbox_def)
    have held: "c_held cr' ?m = (if cr' = cr then None else Some (ev_CostUnits ev))" using cr' st(1) by (auto simp: reserve_credit_def)
    have new: "due d' cr' j ?row = (if j = ?i \<and> cr' \<noteq> cr then ev_CostUnits ev else 0)" for j
      using nt same(3) held by (auto simp: due_def outbox_row_def held_for_def)
    have "covered d' cr'" unfolding covered_def
      using slack sums new by (simp add: owed_def [of d'] st(2) add.assoc)
    moreover have "row_for cr' ?row ev" using ev held n avail [of ?i] names_outbox_row [of ev t k] by (simp add: row_for_def split: if_splits)
    moreover have "dom (sms_deliveries d') \<subseteq> om_MessageID ` set (sms_outbox d')"
      using c same(2) st(2) by (auto simp: coherent_def)
    moreover have "distinct (map om_MessageID (sms_outbox d'))" using coherentD(1) [OF c] fresh st(2) by (simp add: outbox_row_def)
    ultimately show ?thesis using rows st(2) shop unfolding coherent_def by auto
  qed
qed

section \<open>The steps\<close>

lemma begun_record: "begun ev d d1 \<Longrightarrow> sms_deliveries d1 (ev_MessageID ev) \<noteq> None"
  by (auto simp: begun_def set_delivery_def split: if_splits)

lemma begun_kept: "begun ev d d1 \<Longrightarrow> sms_outbox d1 = sms_outbox d \<and> wallets d1 = wallets d"
  by (auto simp: begun_def set_delivery_def split: if_splits)

text \<open>A message that was processed while the commits were clean leaves coherent stores behind.\<close>

lemma coherent_processed:
  assumes c: "coherent d cr" and row: "row \<in> set (sms_outbox d)" "row_for cr row ev"
    and t: "\<not> terminal_in d (ev_MessageID ev)" and n: "c_avail cr (ev_WalletID ev) = Some n" and b: "wallet_has d (ev_WalletID ev) b"
    and out: "out \<longrightarrow> c_held cr (ev_MessageID ev) \<noteq> None" and bg: "begun ev d d1"
    and r: "settled ev n b out False d1 cr d' cr' \<or> unsettled ev n b out False d1 cr d' cr'"
  shows "coherent d' cr'"
proof -
  have c1: "coherent d1 cr" by (rule coherent_begun [OF c row bg])
  have 1: "row \<in> set (sms_outbox d1)" "\<not> terminal_in d1 (ev_MessageID ev)" "sms_deliveries d1 (ev_MessageID ev) \<noteq> None" "wallet_has d1 (ev_WalletID ev) b"
    using begun_kept [OF bg] begun_terminal [OF bg] begun_record [OF bg] row(1) t b by (auto simp: wallet_has_def)
  from r consider "out" "delivered_db ev b d1 d'" "cr' = cr \<or> cr' = commit_credit (ev_MessageID ev) cr"
    | reason where "d' = d1 \<or> refunded_db ev reason d1 d'" "cr' = refunded_credit ev n cr" | "d' = d1" "cr' = cr"
    by (auto simp: settled_def unsettled_def)
  then show ?thesis
  proof cases
    case 1
    then show ?thesis using coherent_delivered [OF c1 \<open>row \<in> set (sms_outbox d1)\<close> row(2)] \<open>\<not> terminal_in d1 _\<close>
        \<open>sms_deliveries d1 _ \<noteq> None\<close> \<open>wallet_has d1 _ b\<close> out by blast
  next
    case 2
    then show ?thesis using coherent_refunded [OF c1 1(1) row(2) 1(2) n] by blast
  qed (use c1 in simp)
qed

lemma coherent_committed:
  assumes "coherent d cr" "row \<in> set (sms_outbox d)" "row_for cr row ev"
  shows "coherent d (commit_credit (ev_MessageID ev) cr)"
proof -
  obtain n where n: "c_avail cr (ev_WalletID ev) = Some n" using assms(3) by (auto simp: row_for_def)
  have "c_avail (commit_credit (ev_MessageID ev) cr) (ev_WalletID ev) = Some n" using n by (simp add: commit_credit_def)
  moreover have "due d (commit_credit (ev_MessageID ev) cr) (ev_WalletID ev) row \<le> due d cr (ev_WalletID ev) row"
    using row_forD [OF assms(3)] due_nonneg [OF assms(1,2), of "ev_WalletID ev"] by (auto simp: due_def held_for_def commit_credit_def)
  ultimately show ?thesis
    by (intro coherent_message [OF assms _ _ _ _ _ _ _ _ n]) (auto simp: commit_credit_def)
qed

text \<open>Records only ever become final, and that of a settled message is.\<close>

lemma processed_records:
  assumes bg: "begun ev d d1" and r: "settled ev n b out False d1 cr d' cr' \<or> unsettled ev n b out False d1 cr d' cr'"
  shows "sms_outbox d' = sms_outbox d" "terminal_in d m \<Longrightarrow> terminal_in d' m"
    "settled ev n b out False d1 cr d' cr' \<Longrightarrow> terminal_in d' (ev_MessageID ev)"
proof -
  have t: "terminal_in d2 (ev_MessageID ev)" "sms_outbox d2 = sms_outbox d" "terminal_in d m \<Longrightarrow> terminal_in d2 m"
    if "delivered_db ev b d1 d2 \<or> refunded_db ev reason d1 d2" for d2 reason m
    using that begun_record [OF bg] bg
    by (auto simp: delivered_db_def refunded_db_def changed_def updated_def begun_def set_delivery_def add_transaction_def set_balance_def
        terminal_in_def is_terminal_def apply_updates_def split: if_splits)
  have k: "sms_outbox d1 = sms_outbox d" "terminal_in d m \<Longrightarrow> terminal_in d1 m" for m
    using bg by (auto simp: begun_def set_delivery_def terminal_in_def split: if_splits)
  have "d' = d1 \<or> (\<exists>reason. delivered_db ev b d1 d' \<or> refunded_db ev reason d1 d')"
    using r by (auto simp: settled_def unsettled_def)
  then show "sms_outbox d' = sms_outbox d" "terminal_in d m \<Longrightarrow> terminal_in d' m" using t(2,3) k by blast+
  show "settled ev n b out False d1 cr d' cr' \<Longrightarrow> terminal_in d' (ev_MessageID ev)" using t(1) by (auto simp: settled_def)
qed

context worker_flow
begin

lemma process_coherent:
  assumes W: "wk_db W = G" "wk_sender W = send" "wk_reservations W = Some R" and clean: "clean_commits G dbv"
    and w: "ok w" "coherent (dbv w) (cred w)" and row: "row \<in> set (sms_outbox (dbv w))"
    and run: "process W now c (Some (om_Payload row)) w = (r, w')"
  shows "ok w' \<and> coherent (dbv w') (cred w') \<and> sms_outbox (dbv w') = sms_outbox (dbv w) \<and> (\<forall>m. terminal_in (dbv w) m \<longrightarrow> terminal_in (dbv w') m)
    \<and> (r = None \<longrightarrow> (\<forall>ev. json_Unmarshal (Some (om_Payload row)) = Inr ev \<longrightarrow> terminal_in (dbv w') (ev_MessageID ev)))"
proof (cases "json_Unmarshal (Some (om_Payload row))")
  case (Inr ev)
  obtain e0 where "row_for (cred w) row e0" using coherentD(2) [OF w(2) row] ..
  note rf = row_for_decoded [OF this Inr]
  have run: "processReserved W R now c ev w = (r, w')" using run W Inr by (simp add: process_def)
  obtain n where n: "c_avail (cred w) (ev_WalletID ev) = Some n" using rf by (auto simp: row_for_def)
  obtain b where b: "wallet_has (dbv w) (ev_WalletID ev) b" "n + owed (dbv w) (cred w) (ev_WalletID ev) \<le> units b"
    using coherentD(4) [OF w(2) n] by blast
  show ?thesis
  proof (cases "terminal_in (dbv w) (ev_MessageID ev)")
    case True
    then show ?thesis using processReserved_terminal [OF W(1) run w(1)] coherent_committed [OF w(2) row rf] w(2) Inr by auto
  next
    case False
    then have "due (dbv w) (cred w) (ev_WalletID ev) row = held_for (cred w) (ev_MessageID ev)" using row_forD [OF rf] by (simp add: due_def)
    then have "n + held_for (cred w) (ev_MessageID ev) \<le> units b" using due_le_owed [OF w(2) row, of "ev_WalletID ev"] b(2) by linarith
    moreover have "units b < 2 ^ 52" using b(1) by (simp add: wallet_has_def db_money_def)
    ultimately have cr: "credit_ready w ev n" using w(1) n by (auto simp: credit_ready_def held_for_def)
    have "db_money \<lparr>units = ev_CostUnits ev\<rparr>" using rf by (simp add: row_for_def)
    note out = processReserved_outcome [OF W(1,2) run False cr b(1) this]
    have "(\<not> clean_commits G dbv) = False" using clean by simp
    note out = out [unfolded this]
    show ?thesis
    proof (rule exE [OF out], goal_cases)
      case (1 l)
      note fin = coherent_processed [OF w(2) row rf False n b(1), of "l \<noteq> []"]
      from 1 have ok: "ok w'" and h: "l \<noteq> [] \<longrightarrow> c_held (cred w) (ev_MessageID ev) \<noteq> None" by auto
      from 1 consider "dbv w' = dbv w" "cred w' = cred w" "r \<noteq> None" | d1 where "begun ev (dbv w) d1"
        "settled ev n b (l \<noteq> []) False d1 (cred w) (dbv w') (cred w') \<or> r \<noteq> None \<and> unsettled ev n b (l \<noteq> []) False d1 (cred w) (dbv w') (cred w')"
        by (elim conjE disjE exE) simp_all
      then show ?case
      proof cases
        case (2 d1)
        then have u: "settled ev n b (l \<noteq> []) False d1 (cred w) (dbv w') (cred w') \<or> unsettled ev n b (l \<noteq> []) False d1 (cred w) (dbv w') (cred w')" by blast
        show ?thesis using processed_records [OF 2(1) u] fin [OF h 2(1) u] ok 2(2) Inr by auto
      qed (use ok w(2) in auto)
    qed
  qed
qed (use run w in \<open>simp add: process_def\<close>)

end

lemma digits_ascii: "list_all is_digit s \<Longrightarrow> list_all (\<lambda>c. (of_char c :: nat) < 128) s"
  by (auto simp: list_all_iff is_digit_def)

lemma generated_valid: "valid_utf8 (fst (generateMessageID rt v))"
  by (rule ascii_valid_utf8)
    (simp add: generateMessageID_def FormatInt_def digits_ascii show_nat_digits split: prod.splits)

lemma event_of_request:
  "ev_MessageID (new_event S cmd ch m mid now) = mid" "ev_WalletID (new_event S cmd ch m mid now) = ch_WalletID ch"
  "ev_CostUnits (new_event S cmd ch m mid now) = units m"
  by (simp_all add: new_event_def Let_def)

lemma coherent_request:
  assumes c: "coherent d cr" and fresh: "mid \<notin> om_MessageID ` set (sms_outbox d)" "valid_utf8 mid"
    and m: "db_money m" and n: "c_avail cr (cm_WalletID c) = Some n" and a: "accepted S cmd c m n mid now r d cr d' cr'"
  shows "coherent d' cr'"
proof -
  let ?ev = "new_event S cmd (toChannelModel c) m mid now"
  note ev = event_of_request [of S cmd "toChannelModel c" m mid now]
  have wal: "ch_WalletID (toChannelModel c) = cm_WalletID c" by (simp add: toChannelModel_def)
  obtain i t where d': "d' = d \<or> c_held cr mid = None \<and> d' = add_outbox (outbox_row ?ev (json_event ?ev)) i t d"
    using a by (auto simp: accepted_def Let_def split: sum.splits)
  have cr': "cr' = cr \<or> cr' = reserve_credit (cm_WalletID c) mid n (units m) cr"
    using a by (auto simp: accepted_def Let_def split: sum.splits)
  show ?thesis
    by (rule coherent_accepted [OF assms(1), of ?ev n d' i t]) (use fresh m n d' cr' in \<open>simp_all add: ev wal db_money_def\<close>)
qed

section \<open>Runs\<close>

text \<open>
  The runs of the gateway from a start: a request to an API replica, the processing of a stored
  message by a worker, possibly again, and the work of the dispatcher, which changes nothing but
  publication times. A message identifier is made from the time in milliseconds and a random
  number; that it is new is a condition of a request.
\<close>

inductive gateway_run ::
  "'w gorm \<Rightarrow> ('w \<Rightarrow> db) \<Rightarrow> ('w \<Rightarrow> redis_state) \<Rightarrow> ('w \<Rightarrow> (ctx \<times> DeliveryEvent) list) \<Rightarrow> 'w redis_client \<Rightarrow> 'w \<Rightarrow> 'w \<Rightarrow> bool"
  for G dbv red sent eval w0 where
  start: "gateway_run G dbv red sent eval w0 w0"
| request: "gateway_run G dbv red sent eval w0 w \<Longrightarrow>
    NewServiceWithReservation (GetByName G) deduct (Enqueue G) (GetByLineType G) (redis_reservations (Suc fuel) eval loader) sla el nl = Inr S \<Longrightarrow>
    runtime_ok rt (\<lambda>w. (dbv w, red w, sent w)) \<Longrightarrow> in_flight S sl L \<Longrightarrow>
    \<forall>v. fst (generateMessageID rt v) \<notin> om_MessageID ` set (sms_outbox (dbv w)) \<Longrightarrow>
    Execute rt S cmd sl w = Some (r, sl', w') \<Longrightarrow> gateway_run G dbv red sent eval w0 w'"
| message: "gateway_run G dbv red sent eval w0 w \<Longrightarrow> row \<in> set (sms_outbox (dbv w)) \<Longrightarrow>
    wk_db W = G \<Longrightarrow> wk_reservations W = Some (redis_reservations (Suc fuel) eval loader) \<Longrightarrow>
    sender_ok (\<lambda>w. (dbv w, red w)) sent (wk_sender W) \<Longrightarrow> clock_ok (\<lambda>w. (dbv w, red w, sent w)) now \<Longrightarrow>
    process W now c (Some (pb_Body (publishing_of row))) w = (ro, w') \<Longrightarrow> gateway_run G dbv red sent eval w0 w'"
| dispatch: "gateway_run G dbv red sent eval w0 w \<Longrightarrow> same_rows (dbv w) (dbv w') \<Longrightarrow> red w' = red w \<Longrightarrow> gateway_run G dbv red sent eval w0 w'"

lemma coherent_dispatched:
  assumes "coherent d cr" "same_rows d d'"
  shows "coherent d' cr"
proof -
  let ?u = "map (\<lambda>row. row\<lparr>om_PublishedAt := None\<rparr>)"
  obtain rows where d': "d' = d\<lparr>sms_outbox := rows\<rparr>" and u: "?u rows = ?u (sms_outbox d)"
    using assms(2) by (auto simp: same_rows_def unmarked_def)
  have same: "map f rows = map f (sms_outbox d)" if "\<And>row. f (row\<lparr>om_PublishedAt := None\<rparr>) = f row" for f :: "SMSOutboxModel \<Rightarrow> 'x"
    using arg_cong [OF u, of "map f"] that by (simp add: comp_def)
  have ids: "map om_MessageID rows = map om_MessageID (sms_outbox d)" by (rule same) simp
  have "due d' cr = due d cr" by (simp add: d' due_def terminal_in_def fun_eq_iff)
  moreover have "map (due d cr i) rows = map (due d cr i) (sms_outbox d)" for i by (rule same) (simp add: due_def)
  ultimately have "owed d' cr i = owed d cr i" for i by (simp add: owed_def d' del: map_eq_conv)
  then have "covered d' cr" using assms(1) by (simp add: coherent_def covered_def wallet_has_def d')
  moreover have "\<exists>ev. row_for cr row ev" if "row \<in> set rows" for row
  proof -
    have "set (map (\<lambda>row. \<exists>ev. row_for cr row ev) rows) \<subseteq> {True}"
      using same [of "\<lambda>row. \<exists>ev. row_for cr row ev"] coherentD(2) [OF assms(1)] by (auto simp: row_for_def names_def)
    then show ?thesis using that by auto
  qed
  moreover have "om_MessageID ` set rows = om_MessageID ` set (sms_outbox d)" using ids by (metis image_set)
  ultimately show ?thesis using assms(1) ids by (simp add: coherent_def d' stocked_def)
qed

lemma run_coherent:
  assumes laws: "gorm_db G dbv (\<lambda>w. (red w, sent w))" "redis_client_ok eval red (\<lambda>w. (dbv w, sent w))" "clean_commits G dbv"
    and run: "gateway_run G dbv red sent eval w0 w" and w0: "redis_credit_ok (red w0)" "coherent (dbv w0) (redis_credit (red w0))"
  shows "redis_credit_ok (red w) \<and> coherent (dbv w) (redis_credit (red w))"
  using run
proof induction
  case start
  then show ?case using w0 by simp
next
  case (request w deduct fuel loader sla el nl S rt sl L cmd r sl' w')
  then have ok: "redis_credit_ok (red w)" and c: "coherent (dbv w) (redis_credit (red w))" by simp_all
  have st: "\<forall>c \<in> set (channels (dbv w)). available (red w) (cm_WalletID c) \<noteq> None"
    "\<forall>co \<in> set (sms_costs (dbv w)). \<exists>m. db_money m \<and> sm_Cost co = Float64 m"
    using coherentD(5) [OF c] by (simp_all add: stocked_def redis_credit_def)
  from Execute_outcome [OF laws(1,2) request.hyps(2-4) ok st, of cmd] request.hyps(6)
  consider "redis_credit_ok (red w')" "dbv w' = dbv w" "redis_credit (red w') = redis_credit (red w)"
    | c m n mid now where "redis_credit_ok (red w')" "db_money m" "available (red w) (cm_WalletID c) = Some n" "\<exists>v. mid = fst (generateMessageID rt v)"
      "accepted S cmd c m n mid now r (dbv w) (redis_credit (red w)) (dbv w') (redis_credit (red w'))"
    by (elim exE conjE disjE bexE) (clarsimp; blast)+
  then show ?case
  proof cases
    case (2 ch m n mid now)
    have "mid \<notin> om_MessageID ` set (sms_outbox (dbv w))" "valid_utf8 mid" using 2(4) request.hyps(5) generated_valid by auto
    from coherent_request [OF c this 2(2) _ 2(5)] 2(1,3) show ?thesis by (simp add: redis_credit_def)
  qed (use c in simp)
next
  case (message w row W fuel loader now c r w')
  then have ok: "redis_credit_ok (red w)" and co: "coherent (dbv w) (redis_credit (red w))" by simp_all
  have p: "process W now c (Some (om_Payload row)) w = (r, w')" using message.hyps(7) by (simp add: publishing_of_def)
  from worker_flow.process_coherent [OF redis_worker_flow [OF laws(1,2) message.hyps(5,6)] message.hyps(3) refl message.hyps(4) laws(3) ok co message.hyps(2) p]
  show ?case by blast
next
  case (dispatch w w')
  then show ?case using coherent_dispatched [of "dbv w" _ "dbv w'"] by simp
qed

section \<open>The property\<close>

text \<open>The gateway at the start: no messages, prices and credit loaded, no more credit than money.\<close>

definition fresh_stores :: "db \<Rightarrow> redis_state \<Rightarrow> bool" where
  "fresh_stores d r \<longleftrightarrow> sms_outbox d = [] \<and> sms_deliveries d = Map.empty \<and> redis_credit_ok r
    \<and> (\<forall>c \<in> set (channels d). available r (cm_WalletID c) \<noteq> None) \<and> (\<forall>co \<in> set (sms_costs d). \<exists>m. db_money m \<and> sm_Cost co = Float64 m)
    \<and> (\<forall>i n. available r i = Some n \<longrightarrow> (\<exists>b. wallet_has d i b \<and> n \<le> units b))"

lemma fresh_coherent: "fresh_stores d r \<Longrightarrow> redis_credit_ok r \<and> coherent d (redis_credit r)"
  by (simp add: fresh_stores_def coherent_def covered_def stocked_def owed_def redis_credit_def)

lemma owed_nonneg: "coherent d cr \<Longrightarrow> 0 \<le> owed d cr i"
  unfolding owed_def by (rule sum_list_nonneg) (auto intro: due_nonneg)

text \<open>
  C2: credit is covered by money. However requests, deliveries, redeliveries and the dispatcher take
  turns, and whatever fails without effect or, in Redis, with an effect that is not reported, the
  credit that is still available to a wallet and all that is held for its unfinished messages
  together never exceed its balance in the database. So a message whose reservation is found when
  it is about to be sent can be paid for: its cost is within the balance.
\<close>

theorem credit_covered_by_money:
  assumes "gorm_db G dbv (\<lambda>w. (red w, sent w))" "redis_client_ok eval red (\<lambda>w. (dbv w, sent w))" "clean_commits G dbv"
    "fresh_stores (dbv w0) (red w0)" "gateway_run G dbv red sent eval w0 w"
  shows "(\<forall>i n. available (red w) i = Some n \<longrightarrow>
        0 \<le> n \<and> 0 \<le> owed (dbv w) (redis_credit (red w)) i
        \<and> (\<exists>b. wallet_has (dbv w) i b \<and> n + owed (dbv w) (redis_credit (red w)) i \<le> units b))
    \<and> (\<forall>row \<in> set (sms_outbox (dbv w)). \<forall>ev. json_Unmarshal (Some (om_Payload row)) = Inr ev \<and> \<not> terminal_in (dbv w) (ev_MessageID ev)
          \<and> held (red w) (ev_MessageID ev) \<noteq> None \<longrightarrow>
        held (red w) (ev_MessageID ev) = Some (ev_CostUnits ev) \<and> (\<exists>b. wallet_has (dbv w) (ev_WalletID ev) b \<and> ev_CostUnits ev \<le> units b))"
proof (intro conjI allI impI ballI)
  note inv = run_coherent [OF assms(1-3,5) fresh_coherent [OF assms(4), THEN conjunct1] fresh_coherent [OF assms(4), THEN conjunct2]]
  then have c: "coherent (dbv w) (redis_credit (red w))" and ok: "redis_credit_ok (red w)" by simp_all
  have avail: "c_avail (redis_credit (red w)) i = available (red w) i" and held: "c_held (redis_credit (red w)) m = held (red w) m" for i m
    by (simp_all add: redis_credit_def)
  have pos: "0 \<le> n" if "available (red w) i = Some n" for i n
    using ok that money_key_bounds [of "red w" "balanceKey i" n] by (simp add: redis_credit_ok_def)
  {
    fix i n assume n: "available (red w) i = Some n"
    show "0 \<le> n" "0 \<le> owed (dbv w) (redis_credit (red w)) i" by (rule pos [OF n], rule owed_nonneg [OF c])
    show "\<exists>b. wallet_has (dbv w) i b \<and> n + owed (dbv w) (redis_credit (red w)) i \<le> units b"
      by (rule coherentD(4) [OF c]) (simp add: avail n)
  next
    fix row ev assume row: "row \<in> set (sms_outbox (dbv w))" and ev: "json_Unmarshal (Some (om_Payload row)) = Inr ev
      \<and> \<not> terminal_in (dbv w) (ev_MessageID ev) \<and> held (red w) (ev_MessageID ev) \<noteq> None"
    obtain e where "row_for (redis_credit (red w)) row e" using coherentD(2) [OF c row] ..
    then have rf: "row_for (redis_credit (red w)) row ev" using ev by (blast intro: row_for_decoded)
    then show h: "held (red w) (ev_MessageID ev) = Some (ev_CostUnits ev)" using ev by (auto simp: row_for_def held)
    obtain n where n: "available (red w) (ev_WalletID ev) = Some n" using rf by (auto simp: row_for_def avail)
    have "due (dbv w) (redis_credit (red w)) (ev_WalletID ev) row = ev_CostUnits ev"
      using row_forD [OF rf] ev h by (simp add: due_def held_for_def held)
    then have "ev_CostUnits ev \<le> owed (dbv w) (redis_credit (red w)) (ev_WalletID ev)" using due_le_owed [OF c row, of "ev_WalletID ev"] by simp
    then show "\<exists>b. wallet_has (dbv w) (ev_WalletID ev) b \<and> ev_CostUnits ev \<le> units b"
      using coherentD(4) [OF c, unfolded avail, OF n] pos [OF n] by (auto intro: order_trans)
  }
qed

definition opening_example :: gateway where
  "opening_example = (db_channel_example, credit_example, newMemoryProviderState [event_logger ''a'', event_logger ''b''] 3 second_ns, 0, [])"

lemma opening_example_ok: "fresh_stores (fst opening_example) (fst (snd opening_example))"
proof -
  have "\<exists>b. wallet_has db_channel_example i b \<and> n \<le> units b" if "available credit_example i = Some n" for i n
    using that by (cases "i = 7") (auto simp: credit_example_def num_at_def in_int64_def db_channel_example_def wallet_has_def db_money_def
        intro!: exI [of _ "\<lparr>units = 30000\<rparr>"])
  then show ?thesis using credit_example_ok db_channel_example_ok
    by (simp add: fresh_stores_def opening_example_def) (simp add: db_channel_example_def)
qed

definition accepted_example :: gateway where
  "accepted_example = (accepted_db_example, accepted_credit_example, snd (snd opening_example))"

lemma accepted_example_sel:
  "length (sms_outbox (fst accepted_example)) = 1" "available (fst (snd accepted_example)) 7 = Some 18000"
  by (simp_all add: accepted_example_def accepted_db_example_def accepted_credit_example_def add_outbox_def db_channel_example_def num_at_def in_int64_def)

lemma accepted_run: "gateway_run mem_gorm fst (\<lambda>w. fst (snd w)) log_of beside_client opening_example accepted_example"
proof -
  obtain res where e: "Execute rt_example service_example cmd_example no_slots opening_example = Some (Inr res, no_slots, accepted_example)"
    using execute_example [of "snd (snd opening_example)"] by (auto simp: opening_example_def accepted_example_def)
  have "\<forall>v. fst (generateMessageID rt_example v) \<notin> om_MessageID ` set (sms_outbox (fst opening_example))"
    using opening_example_ok by (simp add: fresh_stores_def)
  then show ?thesis
    by (intro gateway_run.request [OF gateway_run.start service_example_new rt_example_ok in_flight.idle _ e])
qed

theorem credit_covered_by_money_witness:
  "\<exists>b. length (sms_outbox (fst accepted_example)) = 1 \<and> available (fst (snd accepted_example)) 7 = Some 18000
    \<and> wallet_has (fst accepted_example) 7 b \<and> 18000 + owed (fst accepted_example) (redis_credit (fst (snd accepted_example))) 7 \<le> units b"
  using credit_covered_by_money [OF gateway_contracts(1,2) mem_clean_commits opening_example_ok accepted_run, THEN conjunct1] accepted_example_sel
  by blast

end
