(* ===== verification/Steps.thy ===== *)
theory Steps
  imports Worker SmsService
begin

text \<open>
  The operations of the reservation flow cut at their calls. A request and a delivery that are under way
  are values, a stage each, and a step makes the next call to the database, to Redis or to a provider. Run without interruption,
  the steps are the operations of \<^verbatim>\<open>SmsService\<close> and \<^verbatim>\<open>Worker\<close>; what the calls of
  different requests and deliveries do in between each other is the subject of \<^verbatim>\<open>Interleaving\<close>.
\<close>

section \<open>A delivery\<close>

text \<open>\<open>Refunding\<close> carries the error of a debit that failed, if one did, and the reason for the record.\<close>

datatype stage =
    Beginning
  | Deciding
  | Checking
  | Sending
  | Debiting
  | Refunding "error option" string
  | Marking string
  | Committing
  | Returned "error option"

definition refund_error :: "error option \<Rightarrow> error \<Rightarrow> error" where
  "refund_error debitErr refundErr = (case debitErr of None \<Rightarrow> refundErr
     | Some err \<Rightarrow> Wrapf ''commit debit: '' err (''; refund reservation: '' @ error_text refundErr))"

fun worker_step :: "'w Worker \<Rightarrow> 'w ReservationStore \<Rightarrow> ('w \<Rightarrow> time \<times> 'w) \<Rightarrow> ctx \<Rightarrow> DeliveryEvent \<Rightarrow> stage \<Rightarrow> 'w \<Rightarrow> stage \<times> 'w" where
  "worker_step W R now c event Beginning w = (case beginDelivery (wk_db W) event w of ((terminal, err), w1) \<Rightarrow>
     (if terminal then Committing else case err of Some e \<Rightarrow> Returned (Some e) | None \<Rightarrow> Deciding, w1))"
| "worker_step W R now c event Deciding w = (case expired now event w of (late, w1) \<Rightarrow>
     (if late then Refunding None sla_expired else Checking, w1))"
| "worker_step W R now c event Checking w = (case rs_IsReserved R (ev_MessageID event) w of
     (Inl err, w1) \<Rightarrow> (Returned (Some err), w1)
   | (Inr reserved, w1) \<Rightarrow> (if reserved then Sending else Marking ''credit reservation is missing'', w1))"
| "worker_step W R now c event Sending w = (case providerContext W now c event w of (sendCtx, w1) \<Rightarrow>
     (case wk_sender W sendCtx event w1 of
        (Some err, w2) \<Rightarrow> (if is_panic err then Returned (Some err) else Refunding None (error_text err), w2)
      | (None, w2) \<Rightarrow> (Debiting, w2)))"
| "worker_step W R now c event Debiting w = (case Transaction (wk_db W) (debit_tx (wk_db W) now event) w of
     (Inl (err, _), w1) \<Rightarrow> (if is_panic err then Returned (Some err) else Refunding (Some err) (error_text err), w1)
   | (Inr _, w1) \<Rightarrow> (Committing, w1))"
| "worker_step W R now c event (Refunding debitErr reason) w = (case rs_Refund R (ev_WalletID event) (ev_MessageID event) w of
     (Some refundErr, w1) \<Rightarrow> (Returned (Some (refund_error debitErr refundErr)), w1)
   | (None, w1) \<Rightarrow> (Marking reason, w1))"
| "worker_step W R now c event (Marking reason) w = (case markDelivery (wk_db W) (ev_MessageID event) ''refunded'' reason None w of
     (r, w1) \<Rightarrow> (Returned r, w1))"
| "worker_step W R now c event Committing w = (case rs_Commit R (ev_MessageID event) w of (r, w1) \<Rightarrow> (Returned r, w1))"
| "worker_step W R now c event (Returned r) w = (Returned r, w)"

fun worker_steps :: "nat \<Rightarrow> 'w Worker \<Rightarrow> 'w ReservationStore \<Rightarrow> ('w \<Rightarrow> time \<times> 'w) \<Rightarrow> ctx \<Rightarrow> DeliveryEvent \<Rightarrow> stage \<Rightarrow> 'w \<Rightarrow> stage \<times> 'w" where
  "worker_steps 0 W R now c event st w = (st, w)"
| "worker_steps (Suc k) W R now c event st w = (case worker_step W R now c event st w of (st1, w1) \<Rightarrow> worker_steps k W R now c event st1 w1)"

lemma worker_steps_Returned [simp]: "worker_steps k W R now c ev (Returned r) w = (Returned r, w)"
  by (induction k) simp_all

lemma worker_steps_Suc: "0 < k \<Longrightarrow> worker_steps k W R now c ev st w = (case worker_step W R now c ev st w of (st1, w1) \<Rightarrow> worker_steps (k - 1) W R now c ev st1 w1)"
  by (cases k) simp_all

lemma steps_mark: "1 \<le> k \<Longrightarrow> worker_steps k W R now c ev (Marking reason) w =
    (case markDelivery (wk_db W) (ev_MessageID ev) ''refunded'' reason None w of (r, w1) \<Rightarrow> (Returned r, w1))"
  by (simp add: worker_steps_Suc split: prod.splits)

lemma steps_commit: "1 \<le> k \<Longrightarrow> worker_steps k W R now c ev Committing w = (case rs_Commit R (ev_MessageID ev) w of (r, w1) \<Rightarrow> (Returned r, w1))"
  by (simp add: worker_steps_Suc split: prod.splits)

lemma refund_error_eq [simp]: "refund_error None = (\<lambda>e. e)"
  "refund_error (Some err) = (\<lambda>refundErr. Wrapf ''commit debit: '' err (''; refund reservation: '' @ error_text refundErr))"
  by (simp_all add: refund_error_def fun_eq_iff)

lemma steps_refund: "2 \<le> k \<Longrightarrow> worker_steps k W R now c ev (Refunding e reason) w =
    (case refund_and_mark (wk_db W) R ev (refund_error e) reason w of (r, w1) \<Rightarrow> (Returned r, w1))"
  by (subst worker_steps_Suc) (auto simp: steps_mark refund_and_mark_def split: prod.splits option.splits)

lemma steps_debit: "3 \<le> k \<Longrightarrow> worker_steps k W R now c ev Debiting w = (case settle (wk_db W) R now ev w of (r, w1) \<Rightarrow> (Returned r, w1))"
  by (subst worker_steps_Suc) (auto simp: steps_refund steps_commit settle_def split: prod.splits sum.splits)

lemma steps_send: "4 \<le> k \<Longrightarrow> worker_steps k W R now c ev Sending w =
    (case providerContext W now c ev w of (sendCtx, w1) \<Rightarrow> (case wk_sender W sendCtx ev w1 of
       (Some err, w2) \<Rightarrow> if is_panic err then (Returned (Some err), w2)
         else (case refund_and_mark (wk_db W) R ev (\<lambda>e. e) (error_text err) w2 of (r, w3) \<Rightarrow> (Returned r, w3))
     | (None, w2) \<Rightarrow> (case settle (wk_db W) R now ev w2 of (r, w3) \<Rightarrow> (Returned r, w3))))"
  by (subst worker_steps_Suc) (auto simp: steps_refund steps_debit split: prod.splits option.splits)

lemma steps_check: "5 \<le> k \<Longrightarrow> worker_steps k W R now c ev Checking w = (case rs_IsReserved R (ev_MessageID ev) w of
       (Inl err, w1) \<Rightarrow> (Returned (Some err), w1)
     | (Inr reserved, w1) \<Rightarrow> if reserved then worker_steps 4 W R now c ev Sending w1
         else (case markDelivery (wk_db W) (ev_MessageID ev) ''refunded'' ''credit reservation is missing'' None w1 of (r, w2) \<Rightarrow> (Returned r, w2)))"
  by (subst worker_steps_Suc) (auto simp: steps_mark steps_send split: prod.splits sum.splits)

lemma steps_decide: "6 \<le> k \<Longrightarrow> worker_steps k W R now c ev Deciding w = (case expired now ev w of (late, w1) \<Rightarrow>
     if late then (case refund_and_mark (wk_db W) R ev (\<lambda>e. e) sla_expired w1 of (r, w2) \<Rightarrow> (Returned r, w2))
     else worker_steps 5 W R now c ev Checking w1)"
  by (subst worker_steps_Suc) (auto simp: steps_refund steps_check split: prod.splits)

lemma steps_begin: "7 \<le> k \<Longrightarrow> worker_steps k W R now c ev Beginning w = (case beginDelivery (wk_db W) ev w of ((terminal, err), w1) \<Rightarrow>
     if terminal then (case rs_Commit R (ev_MessageID ev) w1 of (r, w2) \<Rightarrow> (Returned r, w2))
     else case err of Some e \<Rightarrow> (Returned (Some e), w1) | None \<Rightarrow> worker_steps 6 W R now c ev Deciding w1)"
  by (subst worker_steps_Suc) (auto simp: steps_commit steps_decide split: prod.splits option.splits)

text \<open>
  Seven steps without interruption from the beginning are \<^verbatim>\<open>processReserved\<close>: the same
  result and the same effect, on every path.
\<close>

lemma steps_processReserved:
  "worker_steps 7 W R now c ev Beginning w = (Returned (fst (processReserved W R now c ev w)), snd (processReserved W R now c ev w))"
proof -
  obtain tm err w1 where 1: "beginDelivery (wk_db W) ev w = ((tm, err), w1)" by (metis surj_pair)
  obtain late w2 where 2: "expired now ev w1 = (late, w2)" by (metis surj_pair)
  obtain rb w3 where 3: "rs_IsReserved R (ev_MessageID ev) w2 = (rb, w3)" by (metis surj_pair)
  obtain c' w4 where 4: "providerContext W now c ev w3 = (c', w4)" by (metis surj_pair)
  obtain ro w5 where 5: "wk_sender W c' ev w4 = (ro, w5)" by (metis surj_pair)
  note calls = 1 2 3 4 5
  show ?thesis
    by (cases tm; cases err; cases late; cases rb; cases ro)
      (simp_all add: steps_begin steps_decide steps_check steps_send processReserved_def calls split: prod.splits)
qed

section \<open>A request\<close>

text \<open>What a request has found out before it reserves credit, and the part of \<^verbatim>\<open>Execute\<close> that finds it.\<close>

record request =
  rq_channel :: Channel
  rq_cost :: Money
  rq_event :: DeliveryEvent
  rq_description :: string

definition prepare :: "'w runtime \<Rightarrow> 'w Service \<Rightarrow> SendSMSCommand \<Rightarrow> 'w \<Rightarrow> (error + request) \<times> 'w" where
  "prepare rt S cmd w = (case channelRepo S (cmd_ChannelName cmd) w of
     (Inl err, w1) \<Rightarrow> (Inl (Wrapf ''channel not found: '' err []), w1)
   | (Inr ch, w1) \<Rightarrow>
     if \<not> ch_IsActive ch then (Inl (NewError (''channel '' @ [CHR 0x27] @ cmd_ChannelName cmd @ [CHR 0x27] @ '' is inactive'')), w1)
     else (case costRepo S (cmd_Line cmd) w1 of
       (Inl err, w2) \<Rightarrow> (Inl (Wrapf (''cost not found for line type '' @ [CHR 0x27] @ cmd_Line cmd @ [CHR 0x27] @ '': '') err []), w2)
     | (Inr costRecord, w2) \<Rightarrow> (case NewMoney (cost_Cost costRecord) of
         Inl err \<Rightarrow> (Inl (NewError ''invalid configured cost''), w2)
       | Inr cost \<Rightarrow>
         if \<not> IsPositive cost then (Inl (NewError ''invalid configured cost''), w2)
         else case generateMessageID rt w2 of (messageID, w3) \<Rightarrow> (case Now rt w3 of (now, w4) \<Rightarrow>
           (Inr \<lparr>rq_channel = ch, rq_cost = cost, rq_event = new_event S cmd ch cost messageID now,
              rq_description = ''SMS via '' @ cmd_ChannelName cmd @ '' ('' @ cmd_Line cmd @ '') to '' @ cmd_Dest cmd\<rparr>, w4)))))"

text \<open>\<open>GivingBack\<close> carries the error that is going to be answered.\<close>

datatype request_stage =
    Reserving
  | Enqueueing int
  | GivingBack error
  | Answered "error + SendSMSResult"

fun request_step :: "'w Service \<Rightarrow> 'w ReservationStore \<Rightarrow> request \<Rightarrow> request_stage \<Rightarrow> 'w \<Rightarrow> (request_stage \<times> 'w) option" where
  "request_step S R q Reserving w = (case rs_Reserve R (ch_WalletID (rq_channel q)) (units (rq_cost q)) (ev_MessageID (rq_event q)) w of
     None \<Rightarrow> None
   | Some (Inl err, w1) \<Rightarrow> Some (Answered (Inl (wrap_panic ''reserve SMS credit: '' err)), w1)
   | Some (Inr remaining, w1) \<Rightarrow> Some (Enqueueing remaining, w1))"
| "request_step S R q (Enqueueing remaining) w = (case acceptor_Enqueue S of
     None \<Rightarrow> Some (GivingBack (NewError ''SMS acceptor does not support reservation enqueue''), w)
   | Some enqueue \<Rightarrow> (case enqueue (rq_event q) (rq_description q) w of
       (Some err, w1) \<Rightarrow> Some (GivingBack (Wrapf ''enqueue SMS: '' err []), w1)
     | (None, w1) \<Rightarrow> Some (Answered (Inr \<lparr>res_MessageID = ev_MessageID (rq_event q), res_Cost = Float64 (rq_cost q),
         res_RemainingBal = fdiv_pos (float64_of_int remaining) 10000\<rparr>), w1)))"
| "request_step S R q (GivingBack err) w = (case rs_Refund R (ch_WalletID (rq_channel q)) (ev_MessageID (rq_event q)) w of
     (_, w1) \<Rightarrow> Some (Answered (Inl err), w1))"
| "request_step S R q (Answered r) w = Some (Answered r, w)"

fun request_steps :: "nat \<Rightarrow> 'w Service \<Rightarrow> 'w ReservationStore \<Rightarrow> request \<Rightarrow> request_stage \<Rightarrow> 'w \<Rightarrow> (request_stage \<times> 'w) option" where
  "request_steps 0 S R q st w = Some (st, w)"
| "request_steps (Suc k) S R q st w = (case request_step S R q st w of None \<Rightarrow> None | Some (st1, w1) \<Rightarrow> request_steps k S R q st1 w1)"

text \<open>Three steps of a prepared request, without interruption, are the rest of the operation.\<close>

lemma steps_are_accept:
  assumes "reservations S = Some R"
  shows "accept rt S cmd w = (case prepare rt S cmd w of
     (Inl err, w1) \<Rightarrow> Some (Inl err, w1)
   | (Inr q, w1) \<Rightarrow> map_option (\<lambda>(st, w2). (case st of Answered r \<Rightarrow> r | _ \<Rightarrow> Inl nil_deref, w2)) (request_steps 3 S R q Reserving w1))"
proof -
  have e: "accept_reserved S R ch cost ev desc w1 = map_option (\<lambda>(st, w2). (case st of Answered r \<Rightarrow> r | _ \<Rightarrow> Inl nil_deref, w2))
      (request_steps 3 S R \<lparr>rq_channel = ch, rq_cost = cost, rq_event = ev, rq_description = desc\<rparr> Reserving w1)" for ch cost ev desc w1
  proof (cases "rs_Reserve R (ch_WalletID ch) (units cost) (ev_MessageID ev) w1")
    case (Some p)
    then obtain x w2 where r: "rs_Reserve R (ch_WalletID ch) (units cost) (ev_MessageID ev) w1 = Some (x, w2)" by (cases p) simp
    show ?thesis
    proof (cases "acceptor_Enqueue S")
      case None
      then show ?thesis by (cases x) (simp_all add: accept_reserved_def numeral_3_eq_3 r split: prod.splits)
    next
      case (Some enqueue)
      obtain y w3 where "enqueue ev desc w2 = (y, w3)" by (metis surj_pair)
      then show ?thesis using Some by (cases x; cases y) (simp_all add: accept_reserved_def numeral_3_eq_3 r split: prod.splits)
    qed
  qed (simp add: accept_reserved_def numeral_3_eq_3)
  show ?thesis by (simp add: accept_def prepare_def assms e Let_def split: prod.splits sum.splits)
qed

end
