(* ===== verification/WorkerRun.thy ===== *)
theory WorkerRun
  imports Steps Dispatcher
begin

text \<open>
  \<^verbatim>\<open>Worker.Run\<close> and \<^verbatim>\<open>consume\<close>: the consumers of a worker process are goroutines that share one channel of
  deliveries. A schedule says which consumer takes the next turn: one that waits in its \<^verbatim>\<open>select\<close> gets what the schedule gives it, one
  that is processing a delivery makes its next call, so the deliveries of different consumers overlap.
\<close>

datatype turn =
    Incoming "json option"
  | ChannelClosed
  | ContextDone
  | Continue

text \<open>
  What a consumer is doing: waiting, or processing an event, in single steps if the worker has a reservation store and in one transaction
  otherwise.
\<close>

datatype activity =
    Waiting
  | Delivering "json option" DeliveryEvent stage
  | Legacy "json option" DeliveryEvent

text \<open>
  The consumers that have not returned, what they are doing, the errors in \<^verbatim>\<open>errCh\<close>, and what the broker was told about each
  delivery. The errors of \<^verbatim>\<open>Ack\<close> and \<^verbatim>\<open>Nack\<close> are ignored by the code.
\<close>

record crew =
  cw_live :: "nat list"
  cw_doing :: "nat \<Rightarrow> activity"
  cw_errors :: "error list"
  cw_log :: "(json option \<times> disposition) list"
  cw_crashed :: bool

definition channel_closed :: error where
  "channel_closed = NewError ''delivery channel closed''"

text \<open>The end of \<^verbatim>\<open>process\<close> in consumer \<open>i\<close>: the delivery is acknowledged or given back, and the consumer waits again.\<close>

definition answer_delivery :: "nat \<Rightarrow> json option \<Rightarrow> error option \<Rightarrow> crew \<Rightarrow> crew" where
  "answer_delivery i body r cr = cr\<lparr>cw_doing := (cw_doing cr)(i := Waiting), cw_log := cw_log cr @ [(body, dispose r)],
    cw_crashed := (dispose r = Crash)\<rparr>"

text \<open>The beginning of \<^verbatim>\<open>process\<close>.\<close>

definition start_delivery :: "'w Worker \<Rightarrow> nat \<Rightarrow> json option \<Rightarrow> crew \<Rightarrow> crew" where
  "start_delivery W i body cr = (case json_Unmarshal body of
     Inl err \<Rightarrow> answer_delivery i body (Some (Wrapf ''decode event: '' err [])) cr
   | Inr event \<Rightarrow> cr\<lparr>cw_doing := (cw_doing cr)(i := (case wk_reservations W of
       None \<Rightarrow> Legacy body event | Some R \<Rightarrow> Delivering body event Beginning))\<rparr>)"

text \<open>
  One turn of consumer \<open>i\<close>. A closed channel ends the consumer; the send to \<^verbatim>\<open>errCh\<close> is skipped if the channel is
  full. A turn that does not fit what the consumer is doing changes nothing.
\<close>

fun consume :: "'w Worker \<Rightarrow> ('w \<Rightarrow> time \<times> 'w) \<Rightarrow> ctx \<Rightarrow> nat \<times> turn \<Rightarrow> crew \<times> 'w \<Rightarrow> crew \<times> 'w" where
  "consume W now c (i, a) (cr, w) =
    (if i \<notin> set (cw_live cr) \<or> cw_crashed cr then (cr, w)
     else case (cw_doing cr i, a) of
       (Waiting, ContextDone) \<Rightarrow> (cr\<lparr>cw_live := remove1 i (cw_live cr)\<rparr>, w)
     | (Waiting, ChannelClosed) \<Rightarrow> (cr\<lparr>cw_live := remove1 i (cw_live cr),
         cw_errors := (if int (length (cw_errors cr)) < wk_concurrency W then cw_errors cr @ [channel_closed] else cw_errors cr)\<rparr>, w)
     | (Waiting, Incoming body) \<Rightarrow> (start_delivery W i body cr, w)
     | (Legacy body event, Continue) \<Rightarrow> (case processLegacy W now c event w of (r, w1) \<Rightarrow> (answer_delivery i body r cr, w1))
     | (Delivering body event st, Continue) \<Rightarrow> (case wk_reservations W of
         None \<Rightarrow> (cr, w)
       | Some R \<Rightarrow> (case worker_step W R now c event st w of
           (Returned r, w1) \<Rightarrow> (answer_delivery i body r cr, w1)
         | (st1, w1) \<Rightarrow> (cr\<lparr>cw_doing := (cw_doing cr)(i := Delivering body event st1)\<rparr>, w1)))
     | _ \<Rightarrow> (cr, w))"

definition new_crew :: "int \<Rightarrow> crew" where
  "new_crew n = \<lparr>cw_live = [0..<nat n], cw_doing = (\<lambda>i. Waiting), cw_errors = [], cw_log = [], cw_crashed = False\<rparr>"

text \<open>
  \<^verbatim>\<open>Run\<close>: the calls that set up the channel, then the consumers. The result is \<open>None\<close> while \<^verbatim>\<open>Run\<close> still waits;
  \<open>cancelled\<close> says that its \<^verbatim>\<open>select\<close> takes the context. \<open>qos\<close> and \<open>subscribe\<close> are \<^verbatim>\<open>ch.Qos\<close> and \<^verbatim>\<open>ch.Consume\<close>.
\<close>

definition worker_Run ::
  "('w, 'c) amqp \<Rightarrow> (int \<Rightarrow> 'w \<Rightarrow> error option \<times> 'w) \<Rightarrow> (string \<Rightarrow> 'w \<Rightarrow> error option \<times> 'w) \<Rightarrow> 'w Worker \<Rightarrow>
   ('w \<Rightarrow> time \<times> 'w) \<Rightarrow> ctx \<Rightarrow> (nat \<times> turn) list \<Rightarrow> bool \<Rightarrow> 'w \<Rightarrow> (error option option \<times> crew) \<times> 'w" where
  "worker_Run A qos subscribe W now c schedule cancelled w =
    (let idle = new_crew 0 in case OpenChannel A w of
       (Some err, w1) \<Rightarrow> ((Some (Some err), idle), w1)
     | (None, w1) \<Rightarrow> (case Declare A w1 of
       (Some err, w2) \<Rightarrow> ((Some (Some err), idle), w2)
     | (None, w2) \<Rightarrow> (case qos (wk_prefetch W) w2 of
       (Some err, w3) \<Rightarrow> ((Some (Some err), idle), w3)
     | (None, w3) \<Rightarrow> (case subscribe (''sms.'' @ wk_line W) w3 of
       (Some err, w4) \<Rightarrow> ((Some (Some err), idle), w4)
     | (None, w4) \<Rightarrow> (case fold (consume W now c) schedule (new_crew (wk_concurrency W), w4) of (cr, w5) \<Rightarrow>
         ((if cancelled then Some None else case cw_errors cr of [] \<Rightarrow> None | e # _ \<Rightarrow> Some (Some e), cr), w5))))))"

section \<open>The consumers\<close>

text \<open>Every consumer that found the channel closed has its place in \<^verbatim>\<open>errCh\<close>; no report is lost.\<close>

definition crew_ok :: "'w Worker \<Rightarrow> crew \<Rightarrow> bool" where
  "crew_ok W cr \<longleftrightarrow> int (length (cw_errors cr) + length (cw_live cr)) \<le> max 0 (wk_concurrency W) \<and> distinct (cw_live cr)
    \<and> set (cw_errors cr) \<subseteq> {channel_closed}"

lemma new_crew_ok: "crew_ok W (new_crew (wk_concurrency W))"
  by (simp add: crew_ok_def new_crew_def)

lemma consume_crew_ok:
  assumes "crew_ok W cr" "consume W now c (i, a) (cr, w) = (cr', w')"
  shows "crew_ok W cr'"
  using assms by (auto simp: crew_ok_def length_remove1 answer_delivery_def start_delivery_def
      split: if_splits turn.splits activity.splits stage.splits prod.splits option.splits sum.splits)

lemma closed_reported:
  assumes "crew_ok W cr" "i \<in> set (cw_live cr)" "\<not> cw_crashed cr" "cw_doing cr i = Waiting"
  shows "cw_errors (fst (consume W now c (i, ChannelClosed) (cr, w))) = cw_errors cr @ [channel_closed]"
proof -
  have "0 < int (length (cw_live cr))" using assms(2) by (cases "cw_live cr") auto
  then have "int (length (cw_errors cr)) < wk_concurrency W" using assms(1) by (simp only: crew_ok_def of_nat_add) linarith
  then show ?thesis using assms by simp
qed

text \<open>A consumer that is not interrupted does what \<^verbatim>\<open>process\<close> does: seven turns are enough.\<close>

lemma consume_idle: "cw_doing cr i = Waiting \<Longrightarrow> (consume W now c (i, Continue) ^^ m) (cr, w) = (cr, w)"
  by (induction m) simp_all

lemma answer_delivery_doing [simp]:
  "cw_doing (answer_delivery i body r cr) i = Waiting" "answer_delivery i body r (cr\<lparr>cw_doing := (cw_doing cr)(i := a)\<rparr>) = answer_delivery i body r cr"
  by (simp_all add: answer_delivery_def)

lemma consume_delivering:
  assumes "i \<in> set (cw_live cr)" "\<not> cw_crashed cr" "cw_doing cr i = Delivering body ev st" "\<forall>r. st \<noteq> Returned r" "wk_reservations W = Some R"
    "worker_steps n W R now c ev st w = (Returned r, w')"
  shows "(consume W now c (i, Continue) ^^ n) (cr, w) = (answer_delivery i body r cr, w')"
  using assms
proof (induction n arbitrary: st cr w)
  case (Suc n)
  obtain st1 w1 where 1: "worker_step W R now c ev st w = (st1, w1)" by (metis surj_pair)
  show ?case
  proof (cases "\<exists>x. st1 = Returned x")
    case True
    then obtain x where x: "st1 = Returned x" by blast
    have "consume W now c (i, Continue) (cr, w) = (answer_delivery i body x cr, w1)" using Suc.prems 1 x by (simp del: worker_step.simps)
    moreover have "x = r" "w1 = w'" using Suc.prems(6) 1 x by (simp_all del: worker_step.simps)
    ultimately show ?thesis by (simp add: funpow_Suc_right consume_idle del: funpow.simps consume.simps)
  next
    case False
    let ?cr = "cr\<lparr>cw_doing := (cw_doing cr)(i := Delivering body ev st1)\<rparr>"
    have "consume W now c (i, Continue) (cr, w) = (?cr, w1)"
      using Suc.prems 1 False by (cases st1) (simp_all del: worker_step.simps)
    moreover have "(consume W now c (i, Continue) ^^ n) (?cr, w1) = (answer_delivery i body r cr, w')"
      using Suc.IH [of ?cr st1 w1] Suc.prems 1 False by (simp del: worker_step.simps consume.simps)
    ultimately show ?thesis by (simp add: funpow_Suc_right del: funpow.simps consume.simps)
  qed
qed simp

lemma consume_process:
  assumes "i \<in> set (cw_live cr)" "\<not> cw_crashed cr" "cw_doing cr i = Waiting" "process W now c body w = (r, w')"
  shows "(consume W now c (i, Continue) ^^ 7) (consume W now c (i, Incoming body) (cr, w)) = (answer_delivery i body r cr, w')"
proof (cases "json_Unmarshal body")
  case (Inl e)
  then have "consume W now c (i, Incoming body) (cr, w) = (answer_delivery i body r cr, w')"
    using assms by (simp add: process_def start_delivery_def)
  then show ?thesis by (simp add: consume_idle del: consume.simps funpow.simps)
next
  case ev: (Inr ev)
  show ?thesis
  proof (cases "wk_reservations W")
    case None
    let ?cr = "cr\<lparr>cw_doing := (cw_doing cr)(i := Legacy body ev)\<rparr>"
    have "processLegacy W now c ev w = (r, w')" using assms(4) ev None by (simp add: process_def)
    then have "consume W now c (i, Continue) (?cr, w) = (answer_delivery i body r cr, w')" using assms(1-3) by simp
    moreover have "consume W now c (i, Incoming body) (cr, w) = (?cr, w)" using assms(1-3) ev None by (simp add: start_delivery_def)
    moreover have "(7 :: nat) = Suc 6" by simp
    ultimately show ?thesis by (simp only: funpow_Suc_right comp_apply consume_idle [OF answer_delivery_doing(1)])
  next
    case (Some R)
    let ?cr = "cr\<lparr>cw_doing := (cw_doing cr)(i := Delivering body ev Beginning)\<rparr>"
    have "processReserved W R now c ev w = (r, w')" using assms(4) ev Some by (simp add: process_def)
    then have "worker_steps 7 W R now c ev Beginning w = (Returned r, w')" by (simp add: steps_processReserved)
    from consume_delivering [OF _ _ _ _ Some this, of i ?cr body] assms(1-3)
    have "(consume W now c (i, Continue) ^^ 7) (?cr, w) = (answer_delivery i body r cr, w')" by (simp del: consume.simps)
    moreover have "consume W now c (i, Incoming body) (cr, w) = (?cr, w)" using assms(1-3) ev Some by (simp add: start_delivery_def)
    ultimately show ?thesis by (simp del: consume.simps)
  qed
qed

end
