(* ===== verification/RunProps.thy ===== *)
theory RunProps
  imports GatewayRuns WorkerRun
begin

text \<open>
  A worker process: however the calls of its consumers interleave, a message that is acknowledged is settled.
\<close>

text \<open>The calls that set up the channel have nothing to do with the stores.\<close>

definition consumer_ok :: "('w, 'c) amqp \<Rightarrow> (int \<Rightarrow> 'w \<Rightarrow> error option \<times> 'w) \<Rightarrow> (string \<Rightarrow> 'w \<Rightarrow> error option \<times> 'w) \<Rightarrow> ('w \<Rightarrow> 'o) \<Rightarrow> bool" where
  "consumer_ok A qos subscribe obs \<longleftrightarrow> (\<forall>w s t u n. \<forall>w' \<in> {snd (OpenChannel A w), snd (ExchangeDeclare A s t w), snd (QueueDeclare A s w),
    snd (QueueBind A s t u w), snd (qos n w), snd (subscribe s w)}. obs w' = obs w)"

lemma consumer_calls:
  assumes "consumer_ok A qos subscribe obs"
  shows "OpenChannel A w = (r, w') \<Longrightarrow> obs w' = obs w" "ExchangeDeclare A s t w = (r, w') \<Longrightarrow> obs w' = obs w"
    "QueueDeclare A s w = (rq, w') \<Longrightarrow> obs w' = obs w" "QueueBind A s t u w = (r, w') \<Longrightarrow> obs w' = obs w"
    "qos n w = (r, w') \<Longrightarrow> obs w' = obs w" "subscribe s w = (r, w') \<Longrightarrow> obs w' = obs w"
  using assms unfolding consumer_ok_def by (metis insertCI snd_conv)+

lemma declare_lines_obs: "consumer_ok A qos subscribe obs \<Longrightarrow> declare_lines A ls w = (r, w') \<Longrightarrow> obs w' = obs w"
proof (induction ls arbitrary: w)
  case (Cons l ls)
  then show ?case by (auto split: prod.splits sum.splits option.splits dest: consumer_calls(3,4) simp: consumer_calls(3,4) [OF Cons.prems(1)])
qed simp

lemma Declare_obs:
  assumes "consumer_ok A qos subscribe obs" "Declare A w = (r, w')"
  shows "obs w' = obs w"
proof -
  obtain x w1 where e: "ExchangeDeclare A Exchange ''direct'' w = (x, w1)" by (metis surj_pair)
  show ?thesis using assms(2) e consumer_calls(2) [OF assms(1) e] declare_lines_obs [OF assms(1), of _ w1 r w']
    by (cases x) (auto simp: Declare_def simp del: declare_lines.simps)
qed

section \<open>What no step undoes\<close>

text \<open>Records do not disappear, a final status stays, and a wallet with a proper balance keeps one.\<close>

definition keeps :: "db \<Rightarrow> db \<Rightarrow> bool" where
  "keeps d d' \<longleftrightarrow> (\<forall>m. (sms_deliveries d m \<noteq> None \<longrightarrow> sms_deliveries d' m \<noteq> None) \<and> (terminal_in d m \<longrightarrow> terminal_in d' m))
    \<and> (\<forall>i b. wallet_has d i b \<longrightarrow> (\<exists>b'. wallet_has d' i b'))"

lemma keeps_refl [simp]: "keeps d d"
  by (auto simp: keeps_def)

lemma keeps_begun: "begun ev d d' \<Longrightarrow> keeps d d'"
  by (auto simp: keeps_def begun_def set_delivery_def terminal_in_def wallet_has_def split: if_splits)

lemma keeps_refunded: "refunded_db ev reason d d' \<Longrightarrow> keeps d d'"
  by (auto simp: keeps_def refunded_db_def updated_def set_delivery_def terminal_in_def wallet_has_def is_terminal_def apply_updates_def)

lemma keeps_delivered:
  assumes "delivered_db ev b d d'" "wallet_has d (ev_WalletID ev) b" "db_money \<lparr>units = ev_CostUnits ev\<rparr>"
  shows "keeps d d'"
proof -
  have "db_money \<lparr>units = units b - ev_CostUnits ev\<rparr>" using assms by (auto simp: delivered_db_def wallet_has_def db_money_def)
  then show ?thesis using assms
    by (auto simp: keeps_def delivered_db_def changed_def updated_def set_delivery_def set_balance_def add_transaction_def terminal_in_def wallet_has_def
        is_terminal_def apply_updates_def split: if_splits)
qed

text \<open>The store's calls have nothing to do with the tables.\<close>

lemma reservations_frame:
  assumes "redis_client_ok eval red frame"
  shows "rs_IsReserved (redis_reservations fuel eval loader) m w = (rb, w') \<Longrightarrow> frame w' = frame w"
    "rs_Commit (redis_reservations fuel eval loader) m w = (ro, w') \<Longrightarrow> frame w' = frame w"
    "rs_Refund (redis_reservations fuel eval loader) i m w = (ro, w') \<Longrightarrow> frame w' = frame w"
proof -
  have e: "frame v' = frame v" if "eval f v = (x, v')" for f v x v' using assms that unfolding redis_client_ok_def by blast
  show "rs_IsReserved (redis_reservations fuel eval loader) m w = (rb, w') \<Longrightarrow> frame w' = frame w"
    by (auto simp: redis_reservations_def IsReserved_def dest!: e split: prod.splits sum.splits reply.splits)
  show "rs_Commit (redis_reservations fuel eval loader) m w = (ro, w') \<Longrightarrow> frame w' = frame w"
    by (auto simp: redis_reservations_def Commit_def dest!: e split: prod.splits sum.splits reply.splits)
  show "rs_Refund (redis_reservations fuel eval loader) i m w = (ro, w') \<Longrightarrow> frame w' = frame w"
    by (auto simp: redis_reservations_def Refund_def dest!: e split: prod.splits sum.splits reply.splits)
qed

text \<open>What a delivery has achieved at its stage, whatever the others do.\<close>

fun reached :: "db \<Rightarrow> DeliveryEvent \<Rightarrow> stage \<Rightarrow> bool" where
  "reached d ev Beginning \<longleftrightarrow> True"
| "reached d ev Committing \<longleftrightarrow> terminal_in d (ev_MessageID ev)"
| "reached d ev (Returned r) \<longleftrightarrow> (r = None \<longrightarrow> terminal_in d (ev_MessageID ev))"
| "reached d ev st \<longleftrightarrow> sms_deliveries d (ev_MessageID ev) \<noteq> None"

lemma reached_keeps: "reached d ev st \<Longrightarrow> keeps d d' \<Longrightarrow> reached d' ev st"
  by (cases st) (auto simp: keeps_def)

definition payable :: "db \<Rightarrow> DeliveryEvent \<Rightarrow> bool" where
  "payable d ev \<longleftrightarrow> (\<exists>b. wallet_has d (ev_WalletID ev) b) \<and> db_money \<lparr>units = ev_CostUnits ev\<rparr>"

lemma payable_keeps: "payable d ev \<Longrightarrow> keeps d d' \<Longrightarrow> payable d' ev"
  by (auto simp: payable_def keeps_def)

lemma step_reached:
  assumes laws: "gorm_db G dbv (\<lambda>w. (red w, sent w))" "redis_client_ok eval red (\<lambda>w. (dbv w, sent w))"
      "sender_ok (\<lambda>w. (dbv w, red w)) sent (wk_sender W)" "clock_ok (\<lambda>w. (dbv w, red w, sent w)) now"
    and W: "wk_db W = G" and p: "payable (dbv w) ev" and st: "reached (dbv w) ev st"
    and step: "worker_step W (redis_reservations (Suc fuel) eval loader) now c ev st w = (st', w')"
  shows "keeps (dbv w) (dbv w') \<and> reached (dbv w') ev st'"
proof -
  let ?R = "redis_reservations (Suc fuel) eval loader"
  note flow = redis_worker_flow [OF laws, of fuel loader]
  note res = reservations_frame [OF laws(2), of "Suc fuel" loader]
  have db: "gorm_db G dbv (\<lambda>w. (redis_credit (red w), redis_credit_ok (red w), sent w))"
    using flow by (simp add: worker_flow_def credit_flow_def)
  show ?thesis
  proof (cases st)
    case Beginning
    obtain tm err w1 where 1: "beginDelivery G ev w = ((tm, err), w1)" by (metis surj_pair)
    note e = gorm_db.beginDelivery_effect [OF db 1]
    have k: "keeps (dbv w) (dbv w1)" using e keeps_begun by auto
    have "w' = w1" "st' = (if tm then Committing else case err of Some e \<Rightarrow> Returned (Some e) | None \<Rightarrow> Deciding)" using step Beginning W 1 by auto
    then show ?thesis using e k begun_record [of ev "dbv w" "dbv w1"] by (cases tm; cases err) (auto simp: keeps_def)
  next
    case Deciding
    obtain late w1 where 1: "expired now ev w = (late, w1)" by (metis surj_pair)
    then show ?thesis using worker_flow.expired_same [OF flow 1] step st Deciding by (auto split: if_splits)
  next
    case Checking
    obtain rb w1 where 1: "rs_IsReserved ?R (ev_MessageID ev) w = (rb, w1)" by (metis surj_pair)
    then show ?thesis using res(1) [OF 1] step st Checking by (auto split: sum.splits if_splits)
  next
    case Sending
    obtain c' w1 where 1: "providerContext W now c ev w = (c', w1)" by (metis surj_pair)
    obtain ro w2 where 2: "wk_sender W c' ev w1 = (ro, w2)" by (metis surj_pair)
    show ?thesis using worker_flow.providerContext_same [OF flow 1] worker_flow.send_law [OF flow 2] step st Sending 1 2 by (auto split: option.splits if_splits)
  next
    case Debiting
    obtain x w1 where 1: "Transaction G (debit_tx G now ev) w = (x, w1)" by (metis surj_pair)
    obtain b where b: "wallet_has (dbv w) (ev_WalletID ev) b" "db_money \<lparr>units = ev_CostUnits ev\<rparr>" using p by (auto simp: payable_def)
    note e = worker_flow.debit_effect [OF flow 1 b]
    have k: "keeps (dbv w) (dbv w1)" using e keeps_delivered [OF _ b] by (cases x) auto
    have d: "delivered_db ev b (dbv w) (dbv w1) \<Longrightarrow> terminal_in (dbv w1) (ev_MessageID ev)"
      using st Debiting by (auto simp: delivered_db_def changed_def updated_def set_delivery_def terminal_in_def is_terminal_def apply_updates_def
          set_balance_def add_transaction_def)
    show ?thesis using step Debiting W 1 e k d reached_keeps [OF st k] by (cases x) (auto split: if_splits)
  next
    case (Refunding de reason)
    obtain ro w1 where 1: "rs_Refund ?R (ev_WalletID ev) (ev_MessageID ev) w = (ro, w1)" by (metis surj_pair)
    then show ?thesis using res(3) [OF 1] step st Refunding by (auto split: option.splits)
  next
    case (Marking reason)
    obtain r w1 where 1: "markDelivery G (ev_MessageID ev) ''refunded'' reason None w = (r, w1)" by (metis surj_pair)
    have e: "refunded_db ev reason (dbv w) (dbv w1) \<or> r \<noteq> None \<and> dbv w1 = dbv w"
      using gorm_db.markDelivery_effect [OF db 1] by (auto simp: refunded_db_def)
    have "refunded_db ev reason (dbv w) (dbv w1) \<Longrightarrow> terminal_in (dbv w1) (ev_MessageID ev)"
      using st Marking by (auto simp: refunded_db_def updated_def set_delivery_def terminal_in_def is_terminal_def apply_updates_def)
    then show ?thesis using step Marking W 1 e keeps_refunded by auto
  next
    case Committing
    obtain ro w1 where 1: "rs_Commit ?R (ev_MessageID ev) w = (ro, w1)" by (metis surj_pair)
    then show ?thesis using res(2) [OF 1] step st Committing by auto
  next
    case (Returned r)
    then show ?thesis using step st by auto
  qed
qed

section \<open>The consumers\<close>

text \<open>What holds of the consumers and of what they told the broker.\<close>

definition crew_settled :: "'w Worker \<Rightarrow> db \<Rightarrow> crew \<Rightarrow> bool" where
  "crew_settled W d cr \<longleftrightarrow> (\<forall>body ev. (body, Ack) \<in> set (cw_log cr) \<and> json_Unmarshal body = Inr ev \<longrightarrow> terminal_in d (ev_MessageID ev))
    \<and> (\<forall>i body ev st. cw_doing cr i = Delivering body ev st \<longrightarrow> json_Unmarshal body = Inr ev \<and> payable d ev \<and> reached d ev st)
    \<and> (\<forall>i body ev. cw_doing cr i \<noteq> Legacy body ev)"

lemma crew_settled_keeps:
  assumes "crew_settled W d cr" "keeps d d'"
  shows "crew_settled W d' cr"
proof -
  have "terminal_in d m \<Longrightarrow> terminal_in d' m" for m using assms(2) by (simp add: keeps_def)
  moreover have "payable d ev \<and> reached d ev st \<Longrightarrow> payable d' ev \<and> reached d' ev st" for ev st
    using payable_keeps reached_keeps assms(2) by blast
  ultimately show ?thesis using assms(1) unfolding crew_settled_def by blast
qed

lemma crew_settled_answer:
  assumes "crew_settled W d cr" "\<And>ev. json_Unmarshal body = Inr ev \<Longrightarrow> r = None \<Longrightarrow> terminal_in d (ev_MessageID ev)"
  shows "crew_settled W d (answer_delivery i body r cr)"
  using assms by (auto simp: crew_settled_def answer_delivery_def dispose_def split: option.splits if_splits)

lemma consume_settled:
  assumes laws: "gorm_db G dbv (\<lambda>w. (red w, sent w))" "redis_client_ok eval red (\<lambda>w. (dbv w, sent w))"
      "sender_ok (\<lambda>w. (dbv w, red w)) sent (wk_sender W)" "clock_ok (\<lambda>w. (dbv w, red w, sent w)) now"
    and W: "wk_db W = G" "wk_reservations W = Some (redis_reservations (Suc fuel) eval loader)"
    and cr: "crew_settled W (dbv w) cr" and p: "\<forall>body ev. a = Incoming body \<and> json_Unmarshal body = Inr ev \<longrightarrow> payable (dbv w) ev"
    and step: "consume W now c (i, a) (cr, w) = (cr', w')"
  shows "crew_settled W (dbv w') cr' \<and> keeps (dbv w) (dbv w')"
proof (cases "i \<in> set (cw_live cr) \<and> \<not> cw_crashed cr")
  case live: True
  show ?thesis
  proof (cases "cw_doing cr i")
    case Waiting
    then show ?thesis using live step cr p W(2)
      by (cases a) (auto simp: start_delivery_def crew_settled_def answer_delivery_def dispose_def split: sum.splits if_splits)
  next
    case (Delivering body ev st)
    then have j: "json_Unmarshal body = Inr ev" "payable (dbv w) ev" "reached (dbv w) ev st" using cr by (auto simp: crew_settled_def)
    show ?thesis
    proof (cases "a = Continue")
      case True
      obtain st1 w1 where 1: "worker_step W (redis_reservations (Suc fuel) eval loader) now c ev st w = (st1, w1)" by (metis surj_pair)
      note s = step_reached [OF laws W(1) j(2,3) 1]
      have cr1: "crew_settled W (dbv w1) cr" using crew_settled_keeps [OF cr] s by blast
      show ?thesis
      proof (cases "\<exists>r. st1 = Returned r")
        case True
        then obtain r where r: "st1 = Returned r" by blast
        have "w' = w1" "cr' = answer_delivery i body r cr" using step live Delivering \<open>a = Continue\<close> W(2) 1 r by (simp_all del: worker_step.simps)
        moreover have "crew_settled W (dbv w1) (answer_delivery i body r cr)"
          by (rule crew_settled_answer [OF cr1]) (use j(1) s r in auto)
        ultimately show ?thesis using s by simp
      next
        case False
        have "w' = w1" "cr' = cr\<lparr>cw_doing := (cw_doing cr)(i := Delivering body ev st1)\<rparr>"
          using step live Delivering \<open>a = Continue\<close> W(2) 1 False by (cases st1; simp del: worker_step.simps)+
        then show ?thesis using cr1 s j(1) payable_keeps [OF j(2)] by (auto simp: crew_settled_def)
      qed
    qed (use step live Delivering cr in \<open>cases a; simp\<close>)
  qed (use cr in \<open>auto simp: crew_settled_def\<close>)
qed (use step cr in \<open>auto split: if_splits\<close>)

lemma consumers_settled:
  assumes laws: "gorm_db G dbv (\<lambda>w. (red w, sent w))" "redis_client_ok eval red (\<lambda>w. (dbv w, sent w))"
      "sender_ok (\<lambda>w. (dbv w, red w)) sent (wk_sender W)" "clock_ok (\<lambda>w. (dbv w, red w, sent w)) now"
    and W: "wk_db W = G" "wk_reservations W = Some (redis_reservations (Suc fuel) eval loader)"
  shows "crew_settled W (dbv w) cr \<Longrightarrow> crew_ok W cr \<Longrightarrow>
    (\<forall>i body ev. (i, Incoming body) \<in> set schedule \<and> json_Unmarshal body = Inr ev \<longrightarrow> payable (dbv w) ev) \<Longrightarrow>
    fold (consume W now c) schedule (cr, w) = (cr', w') \<Longrightarrow> crew_settled W (dbv w') cr' \<and> crew_ok W cr' \<and> keeps (dbv w) (dbv w')"
proof (induction schedule arbitrary: cr w)
  case (Cons ia schedule)
  obtain i a where ia: "ia = (i, a)" by (cases ia)
  obtain cr1 w1 where 1: "consume W now c (i, a) (cr, w) = (cr1, w1)" by (metis surj_pair)
  note s = consume_settled [OF laws W Cons.prems(1) _ 1]
  have k: "crew_settled W (dbv w1) cr1" "keeps (dbv w) (dbv w1)" using s Cons.prems(3) ia by auto
  have "\<forall>i body ev. (i, Incoming body) \<in> set schedule \<and> json_Unmarshal body = Inr ev \<longrightarrow> payable (dbv w1) ev"
    using Cons.prems(3) payable_keeps k(2) by (meson list.set_intros(2))
  moreover have "fold (consume W now c) schedule (cr1, w1) = (cr', w')" using Cons.prems(4) ia 1 by (simp del: consume.simps)
  ultimately have "crew_settled W (dbv w') cr' \<and> crew_ok W cr' \<and> keeps (dbv w1) (dbv w')"
    using Cons.IH [OF k(1) consume_crew_ok [OF Cons.prems(2) 1]] by blast
  then show ?case using k(2) unfolding keeps_def by blast
qed simp

text \<open>
  C9: an acknowledged message is settled. The consumers of a worker process work at the same time, and their calls to the
  database, to Redis and to the providers interleave in any order; messages may be duplicates of each other, and calls
  may fail, with or without effect. Every message that is acknowledged has a final record, delivered or refunded, from then on,
  if the wallets of the messages exist and their prices are proper amounts; and a closed channel is reported at most
  once per consumer.
\<close>

theorem acknowledged_is_settled:
  assumes "gorm_db G dbv (\<lambda>w. (red w, sent w))" "redis_client_ok eval red (\<lambda>w. (dbv w, sent w))"
    "wk_db W = G" "wk_reservations W = Some (redis_reservations (Suc fuel) eval loader)"
    "sender_ok (\<lambda>w. (dbv w, red w)) sent (wk_sender W)" "clock_ok (\<lambda>w. (dbv w, red w, sent w)) now"
    "consumer_ok A qos subscribe (\<lambda>w. (dbv w, red w, sent w))"
    "\<forall>i body ev. (i, Incoming body) \<in> set schedule \<and> json_Unmarshal body = Inr ev \<longrightarrow>
      (\<exists>b. wallet_has (dbv w) (ev_WalletID ev) b) \<and> db_money \<lparr>units = ev_CostUnits ev\<rparr>"
    "worker_Run A qos subscribe W now c schedule cancelled w = ((r, cr), w')"
  shows "(\<forall>body ev. (body, Ack) \<in> set (cw_log cr) \<and> json_Unmarshal body = Inr ev \<longrightarrow> terminal_in (dbv w') (ev_MessageID ev))
    \<and> (\<forall>m. terminal_in (dbv w) m \<longrightarrow> terminal_in (dbv w') m)
    \<and> int (length (cw_errors cr)) \<le> max 0 (wk_concurrency W)"
proof -
  note obs = consumer_calls [OF assms(7)] Declare_obs [OF assms(7)]
  have start: "crew_settled W d (new_crew n)" for d n by (simp add: crew_settled_def new_crew_def)
  have out: "crew_settled W (dbv w') cr \<and> crew_ok W cr \<and> keeps (dbv w) (dbv w')"
    if "fold (consume W now c) schedule (new_crew (wk_concurrency W), v) = (cr, w')" "(dbv v, red v, sent v) = (dbv w, red w, sent w)" for v
    using consumers_settled [OF assms(1,2,5,6,3,4) start new_crew_ok _ that(1)] that(2) assms(8) by (auto simp: payable_def)
  obtain r1 w1 r2 w2 r3 w3 r4 w4 where calls: "OpenChannel A w = (r1, w1)" "Declare A w1 = (r2, w2)" "qos (wk_prefetch W) w2 = (r3, w3)"
    "subscribe (''sms.'' @ wk_line W) w3 = (r4, w4)" by (metis surj_pair)
  note s = obs(1) [OF calls(1)] obs(7) [OF calls(2)] obs(5) [OF calls(3)] obs(6) [OF calls(4)]
  obtain cr' w5 where f: "fold (consume W now c) schedule (new_crew (wk_concurrency W), w4) = (cr', w5)" by (metis surj_pair)
  consider "w' \<in> {w1, w2, w3, w4}" "cr = new_crew 0"
    | "fold (consume W now c) schedule (new_crew (wk_concurrency W), w4) = (cr, w')"
    using assms(9) calls f by (auto simp: worker_Run_def Let_def split: option.splits)
  then show ?thesis
  proof cases
    case 1
    then have "dbv w' = dbv w" using s by auto
    then show ?thesis using 1 by (simp add: new_crew_def)
  next
    case 2
    note o = out [OF 2]
    show ?thesis using o s by (auto simp: crew_settled_def crew_ok_def keeps_def)
  qed
qed

section \<open>A delivery\<close>

definition quiet_amqp :: "(gateway, unit) amqp" where
  "quiet_amqp = \<lparr>OpenChannel = (\<lambda>w. (None, w)), ExchangeDeclare = (\<lambda>s t w. (None, w)), QueueDeclare = (\<lambda>s w. (Inr s, w)),
    QueueBind = (\<lambda>s t u w. (None, w)), ConfirmMode = (\<lambda>w. (None, w)), Publish = (\<lambda>s t p w. (Inr None, w)), Wait = (\<lambda>c w. (False, w))\<rparr>"

lemma quiet_amqp_ok: "consumer_ok quiet_amqp (\<lambda>_ w. (None, w)) (\<lambda>_ w. (None, w)) obs"
  by (simp add: consumer_ok_def quiet_amqp_def)

lemma sent_to_ok:
  assumes "valid_utf8 d"
  shows "event_ok (sent_to d)"
proof -
  have "valid_utf8 ''hi''" "valid_utf8 ''express''" "valid_utf8 ''web''" by (rule ascii_valid_utf8, simp)+
  then show ?thesis using assms generated_valid [of rt_example "()"]
    by (simp add: event_ok_def sent_to_def in_int64_def in_years_def second_ns_def)
qed

lemma sent_example_ok: "event_ok sent_example"
  unfolding sent_example_def by (rule sent_to_ok, rule ascii_valid_utf8) simp

text \<open>Two consumers and a duplicate: the second delivery begins before the first has been settled.\<close>

definition schedule_example :: "json option \<Rightarrow> (nat \<times> turn) list" where
  "schedule_example body = [(0, Incoming body), (1, Incoming body), (0, Continue), (0, Continue), (0, Continue), (0, Continue), (1, Continue),
    (1, Continue), (0, Continue), (0, Continue), (0, ChannelClosed)]"

lemma schedule_run:
  assumes "json_Unmarshal body = Inr sent_example"
  shows "\<exists>cr w'. fold (consume worker_example ticking None) (schedule_example body) (new_crew 2, accepted_example) = (cr, w')
    \<and> cw_log cr = [(body, Ack)] \<and> cw_errors cr = [channel_closed]"
proof -
  have m: "db_money \<lparr>units = 30000\<rparr>" by (simp add: db_money_def)
  show ?thesis using toWallet_balance [OF m]
    by (simp add: schedule_example_def new_crew_def start_delivery_def answer_delivery_def dispose_def assms numeral_2_eq_2 worker_eval
        accepted_example_def opening_example_def accepted_db_example_def accepted_credit_example_def db_channel_example_def
        credit_example_def add_outbox_def sent_example_def sent_to_def)
qed

theorem acknowledged_is_settled_witness:
  "\<exists>cr w'. worker_Run quiet_amqp (\<lambda>_ w. (None, w)) (\<lambda>_ w. (None, w)) worker_example ticking None
      (schedule_example (Some (json_event sent_example))) False accepted_example = ((Some (Some channel_closed), cr), w')
    \<and> cw_log cr = [(Some (json_event sent_example), Ack)] \<and> terminal_in (fst w') (ev_MessageID sent_example)"
proof -
  let ?body = "Some (json_event sent_example)"
  have j: "json_Unmarshal ?body = Inr sent_example" using json_roundtrip_aux [OF sent_example_ok] by simp
  obtain cr w' where f: "fold (consume worker_example ticking None) (schedule_example ?body) (new_crew 2, accepted_example) = (cr, w')"
    "cw_log cr = [(?body, Ack)]" "cw_errors cr = [channel_closed]" using schedule_run [OF j] by blast
  have "wk_concurrency worker_example = 2" by (simp add: worker_example_def)
  then have run: "worker_Run quiet_amqp (\<lambda>_ w. (None, w)) (\<lambda>_ w. (None, w)) worker_example ticking None (schedule_example ?body) False accepted_example
      = ((Some (Some channel_closed), cr), w')"
    using f by (simp add: worker_Run_def quiet_amqp_def Declare_def)
  have "wallet_has (fst accepted_example) (ev_WalletID sent_example) \<lparr>units = 30000\<rparr>" "db_money \<lparr>units = ev_CostUnits sent_example\<rparr>"
    by (simp_all add: accepted_example_def accepted_db_example_def db_channel_example_def add_outbox_def sent_example_def sent_to_def wallet_has_def db_money_def)
  then have pay: "\<forall>i b ev. (i, Incoming b) \<in> set (schedule_example ?body) \<and> json_Unmarshal b = Inr ev \<longrightarrow>
      (\<exists>b. wallet_has (fst accepted_example) (ev_WalletID ev) b) \<and> db_money \<lparr>units = ev_CostUnits ev\<rparr>"
    using j by (auto simp: schedule_example_def)
  have W: "wk_reservations worker_example = Some (redis_reservations (Suc 0) beside_client None)" by (simp add: worker_example_def)
  have "terminal_in (fst w') (ev_MessageID sent_example)"
    using acknowledged_is_settled [OF gateway_contracts(1,2) worker_example_ok(1) W worker_example_ok(2) gateway_contracts(4) quiet_amqp_ok pay run] f(2) j by simp
  with run f(2) show ?thesis by blast
qed

end
