(* ===== verification/GoParse.thy ===== *)
theory GoParse
  imports GoFloat GoStrings
begin

text \<open>
  The two parsers of the Go library that the configuration uses: \<^verbatim>\<open>time.ParseDuration\<close> and \<^verbatim>\<open>fmt.Sscan\<close> into
  an \<^verbatim>\<open>int\<close>. Their errors are only compared with \<^verbatim>\<open>nil\<close>, so an error is \<open>None\<close>.
\<close>

section \<open>Durations\<close>

text \<open>\<^verbatim>\<open>leadingInt\<close>: digits up to \<open>2 ^ 63\<close>.\<close>

fun leadingInt :: "nat \<Rightarrow> string \<Rightarrow> (nat \<times> string) option" where
  "leadingInt x [] = Some (x, [])"
| "leadingInt x (c # s) = (if \<not> is_digit c then Some (x, c # s)
     else if 2 ^ 63 div 10 < x then None
     else let y = x * 10 + digit_val c in if 2 ^ 63 < y then None else leadingInt y s)"

text \<open>\<^verbatim>\<open>leadingFraction\<close>: digits after the point, with the power of ten they are to be divided by; once the value overflows the digits are skipped.\<close>

fun leadingFraction :: "nat \<Rightarrow> float64 \<Rightarrow> bool \<Rightarrow> string \<Rightarrow> nat \<times> float64 \<times> string" where
  "leadingFraction x scl overflow [] = (x, scl, [])"
| "leadingFraction x scl overflow (c # s) = (if \<not> is_digit c then (x, scl, c # s)
     else if overflow then leadingFraction x scl overflow s
     else if (2 ^ 63 - 1) div 10 < x then leadingFraction x scl True s
     else let y = x * 10 + digit_val c in
       if 2 ^ 63 < y then leadingFraction x scl True s else leadingFraction y (fmul_pos scl 10) False s)"

definition unitMap :: "(string \<times> nat) list" where
  "unitMap = [(''ns'', 1), (''us'', 1000), ([CHR 0xC2, CHR 0xB5, CHR ''s''], 1000), ([CHR 0xCE, CHR 0xBC, CHR ''s''], 1000),
    (''ms'', 1000000), (''s'', 1000000000), (''m'', 60000000000), (''h'', 3600000000000)]"

text \<open>\<^verbatim>\<open>uint64(float64(f) * (float64(unit) / scale))\<close> for positive numbers.\<close>

definition fraction_ns :: "nat \<Rightarrow> nat \<Rightarrow> float64 \<Rightarrow> nat" where
  "fraction_ns f unit scl =
    (let ratio = (case scl of Fin c \<Rightarrow> fdiv_pos (float64_of_int (int unit)) c | _ \<Rightarrow> Fin 0)
     in case ratio of Fin q \<Rightarrow> (case fmul_pos (float64_of_int (int f)) q of Fin x \<Rightarrow> nat \<lfloor>x\<rfloor> | _ \<Rightarrow> 0) | _ \<Rightarrow> 0)"

definition in_number :: "char \<Rightarrow> bool" where
  "in_number c \<longleftrightarrow> c = CHR ''.'' \<or> is_digit c"

text \<open>One number with its unit: its value in nanoseconds and the rest of the text.\<close>

definition scan_fraction :: "string \<Rightarrow> nat \<times> float64 \<times> string \<times> bool" where
  "scan_fraction s = (case s of
     c # r \<Rightarrow> if c = CHR ''.'' then (case leadingFraction 0 (Fin 1) False r of (f, scl, r') \<Rightarrow> (f, scl, r', length r' \<noteq> length r))
       else (0, Fin 1, s, False)
   | [] \<Rightarrow> (0, Fin 1, s, False))"

definition scan_component :: "string \<Rightarrow> (nat \<times> string) option" where
  "scan_component s =
    (if s = [] \<or> \<not> in_number (hd s) then None
     else case leadingInt 0 s of None \<Rightarrow> None
     | Some (v, s1) \<Rightarrow> (case scan_fraction s1 of (f, scl, s2, post) \<Rightarrow>
         if length s1 = length s \<and> \<not> post then None
         else let u = takeWhile (\<lambda>c. \<not> in_number c) s2; s3 = dropWhile (\<lambda>c. \<not> in_number c) s2 in
         if u = [] then None
         else (case map_of unitMap u of None \<Rightarrow> None
         | Some unit \<Rightarrow>
             if 2 ^ 63 div unit < v then None
             else let v1 = v * unit; v2 = (if 0 < f then v1 + fraction_ns f unit scl else v1) in
             if 0 < f \<and> 2 ^ 63 < v2 then None else Some (v2, s3))))"

lemma leadingInt_length: "leadingInt x s = Some (v, s1) \<Longrightarrow> length s1 \<le> length s"
  by (induction x s rule: leadingInt.induct) (auto simp: Let_def split: if_splits)

lemma leadingFraction_length: "leadingFraction x scl ov s = (f, scl', s1) \<Longrightarrow> length s1 \<le> length s"
  by (induction x scl ov s rule: leadingFraction.induct) (auto simp: Let_def split: if_splits)

lemma scan_fraction_length: "scan_fraction s = (f, scl, s1, post) \<Longrightarrow> length s1 \<le> length s"
  by (auto simp: scan_fraction_def dest!: leadingFraction_length split: list.splits if_splits prod.splits)

lemma takeDrop_length: "takeWhile P s \<noteq> [] \<Longrightarrow> length (dropWhile P s) < length s"
  by (metis length_append length_greater_0_conv less_add_same_cancel2 takeWhile_dropWhile_id)

lemma scan_component_length:
  assumes "scan_component s = Some (v, s')"
  shows "length s' < length s"
proof -
  obtain v1 s1 where 1: "leadingInt 0 s = Some (v1, s1)" using assms by (auto simp: scan_component_def split: if_splits option.splits)
  obtain f scl s2 post where 2: "scan_fraction s1 = (f, scl, s2, post)" by (metis surj_pair)
  have "takeWhile (\<lambda>c. \<not> in_number c) s2 \<noteq> []" "s' = dropWhile (\<lambda>c. \<not> in_number c) s2"
    using assms 1 2 by (auto simp: scan_component_def Let_def split: if_splits option.splits)
  then show ?thesis using takeDrop_length leadingInt_length [OF 1] scan_fraction_length [OF 2] by (metis le_less_trans less_le_trans)
qed

text \<open>The sum of the components, a \<^verbatim>\<open>uint64\<close>.\<close>

function duration_loop :: "nat \<Rightarrow> string \<Rightarrow> nat option" where
  "duration_loop d s = (if s = [] then Some d
    else case scan_component s of None \<Rightarrow> None
    | Some (v, s') \<Rightarrow> let d' = (d + v) mod 2 ^ 64 in if 2 ^ 63 < d' then None else duration_loop d' s')"
  by pat_completeness auto
termination by (relation "measure (length \<circ> snd)") (auto dest: scan_component_length)

declare duration_loop.simps [simp del]

definition ParseDuration :: "string \<Rightarrow> duration option" where
  "ParseDuration orig =
    (let neg = (orig \<noteq> [] \<and> hd orig = CHR ''-''); s = (if orig \<noteq> [] \<and> (hd orig = CHR ''-'' \<or> hd orig = CHR ''+'') then tl orig else orig) in
     if s = ''0'' then Some 0
     else if s = [] then None
     else case duration_loop 0 s of None \<Rightarrow> None
     | Some d \<Rightarrow> if neg then Some (wrap64 (- int d)) else if 2 ^ 63 - 1 < d then None else Some (int d))"

section \<open>Integers\<close>

definition lower :: "char \<Rightarrow> char" where
  "lower c = (if 65 \<le> (of_char c :: nat) \<and> (of_char c :: nat) \<le> 90 then char_of (of_char c + 32 :: nat) else c)"

definition digit_value :: "char \<Rightarrow> nat option" where
  "digit_value c = (if is_digit c then Some (digit_val c)
    else if 97 \<le> (of_char (lower c) :: nat) \<and> (of_char (lower c) :: nat) \<le> 122 then Some (of_char (lower c) - 87) else None)"

definition digit_of_base :: "nat \<Rightarrow> char \<Rightarrow> bool" where
  "digit_of_base base c \<longleftrightarrow> (case digit_value c of None \<Rightarrow> False | Some n \<Rightarrow> n < base)"

text \<open>
  \<^verbatim>\<open>strconv.ParseInt(tok, 0, 64)\<close>: the base comes from the prefix, and underscores are allowed between
  digits and after the prefix. \<open>saw\<close> is the kind of the last character: a digit, an underscore or
  something else.
\<close>

fun underscores_ok :: "bool \<Rightarrow> char \<Rightarrow> string \<Rightarrow> bool" where
  "underscores_ok hex saw [] = (saw \<noteq> CHR ''_'')"
| "underscores_ok hex saw (c # s) =
    (if is_digit c \<or> hex \<and> 97 \<le> (of_char (lower c) :: nat) \<and> (of_char (lower c) :: nat) \<le> 102 then underscores_ok hex (CHR ''0'') s
     else if c = CHR ''_'' then saw = CHR ''0'' \<and> underscores_ok hex c s
     else saw \<noteq> CHR ''_'' \<and> underscores_ok hex (CHR ''!'') s)"

definition underscoreOK :: "string \<Rightarrow> bool" where
  "underscoreOK s = (case s of
     z # c # r \<Rightarrow> if z = CHR ''0'' \<and> (lower c = CHR ''b'' \<or> lower c = CHR ''o'' \<or> lower c = CHR ''x'') then underscores_ok (lower c = CHR ''x'') (CHR ''0'') r
       else underscores_ok False (CHR ''^'') s
   | _ \<Rightarrow> underscores_ok False (CHR ''^'') s)"

definition base_prefix :: "string \<Rightarrow> nat \<times> string" where
  "base_prefix s = (case s of
     [] \<Rightarrow> (10, s)
   | z # r \<Rightarrow> if z \<noteq> CHR ''0'' then (10, s) else (case r of
        c # d # r' \<Rightarrow> if lower c = CHR ''b'' then (2, d # r') else if lower c = CHR ''o'' then (8, d # r')
          else if lower c = CHR ''x'' then (16, d # r') else (8, r)
      | _ \<Rightarrow> (8, r)))"

definition read_base :: "nat \<Rightarrow> string \<Rightarrow> nat" where
  "read_base base s = foldl (\<lambda>n c. n * base + (case digit_value c of None \<Rightarrow> 0 | Some k \<Rightarrow> k)) 0 (filter (\<lambda>c. c \<noteq> CHR ''_'') s)"

definition ParseUint0 :: "string \<Rightarrow> nat option" where
  "ParseUint0 s = (case base_prefix s of (base, ds) \<Rightarrow>
    if s = [] \<or> \<not> list_all (\<lambda>c. c = CHR ''_'' \<or> digit_of_base base c) ds \<or> CHR ''_'' \<in> set ds \<and> \<not> underscoreOK s
       \<or> 2 ^ 64 - 1 < read_base base ds
    then None else Some (read_base base ds))"

definition ParseInt0 :: "string \<Rightarrow> int option" where
  "ParseInt0 s =
    (let neg = (s \<noteq> [] \<and> hd s = CHR ''-''); t = (if s \<noteq> [] \<and> (hd s = CHR ''+'' \<or> hd s = CHR ''-'') then tl s else s) in
     case ParseUint0 t of None \<Rightarrow> None
     | Some n \<Rightarrow> if neg then (if 2 ^ 63 < n then None else Some (- int n)) else if 2 ^ 63 \<le> n then None else Some (int n))"

text \<open>
  \<^verbatim>\<open>fmt.Sscan(s, &n)\<close>: white space is skipped, then a sign, a prefix and the digits of the base it announces are
  taken. What follows them is not looked at.
\<close>

definition scanBasePrefix :: "string \<Rightarrow> string \<times> (char \<Rightarrow> bool) \<times> bool \<times> string" where
  "scanBasePrefix s = (case s of
     [] \<Rightarrow> ([], digit_of_base 10, False, s)
   | z # r \<Rightarrow> if z \<noteq> CHR ''0'' then ([], digit_of_base 10, False, s) else (case r of
        c # r' \<Rightarrow> if c = CHR ''b'' \<or> c = CHR ''B'' then ([z, c], digit_of_base 2, True, r')
          else if c = CHR ''o'' \<or> c = CHR ''O'' then ([z, c], digit_of_base 8, True, r')
          else if c = CHR ''x'' \<or> c = CHR ''X'' then ([z, c], digit_of_base 16, True, r')
          else ([z], digit_of_base 8, True, r)
      | [] \<Rightarrow> ([z], digit_of_base 8, True, r)))"

definition Sscan :: "string \<Rightarrow> int option" where
  "Sscan str =
    (let s = strip_runes space_runes str;
         sgn = (if s \<noteq> [] \<and> (hd s = CHR ''+'' \<or> hd s = CHR ''-'') then [hd s] else []) in
     case scanBasePrefix (drop (length sgn) s) of (prefix, digits, haveDigits, r) \<Rightarrow>
       let ds = takeWhile (\<lambda>c. digits c \<or> c = CHR ''_'') r in
       if \<not> haveDigits \<and> ds = [] then None else ParseInt0 (sgn @ prefix @ ds))"

section \<open>Plain numbers\<close>

text \<open>A decimal number followed by something else, which is what configurations contain.\<close>

definition num_from :: "nat \<Rightarrow> string \<Rightarrow> nat" where
  "num_from x s = foldl (\<lambda>n c. 10 * n + digit_val c) x s"

lemma num_from_simps [simp]: "num_from x [] = x" "num_from x (c # s) = num_from (10 * x + digit_val c) s" "num_from 0 s = read_nat s"
  by (simp_all add: num_from_def read_nat_def)

lemma num_from_ge: "x \<le> num_from x s"
proof (induction s arbitrary: x)
  case (Cons c s)
  show ?case using Cons [of "10 * x + digit_val c"] by simp
qed simp

lemma leadingInt_digits:
  "list_all is_digit ds \<Longrightarrow> r = [] \<or> \<not> is_digit (hd r) \<Longrightarrow> x \<le> 2 ^ 63 \<Longrightarrow>
    leadingInt x (ds @ r) = (if num_from x ds \<le> 2 ^ 63 then Some (num_from x ds, r) else None)"
proof (induction ds arbitrary: x)
  case Nil
  then show ?case by (cases r) auto
next
  case (Cons c ds)
  note ge = num_from_ge [of "10 * x + digit_val c" ds]
  show ?case
  proof (cases "2 ^ 63 div 10 < x")
    case True
    then have "2 ^ 63 < 10 * x" by simp
    then have "\<not> num_from x (c # ds) \<le> 2 ^ 63" using ge by simp
    then show ?thesis using Cons.prems True by simp
  next
    case False
    show ?thesis
    proof (cases "2 ^ 63 < 10 * x + digit_val c")
      case True
      then have "\<not> num_from x (c # ds) \<le> 2 ^ 63" using ge by simp
      then show ?thesis using Cons.prems True False by (simp add: Let_def mult.commute)
    next
      case False
      then show ?thesis using Cons \<open>\<not> 2 ^ 63 div 10 < x\<close> by (simp add: Let_def mult.commute)
    qed
  qed
qed

lemma units_not_digits: "map_of unitMap u = Some k \<Longrightarrow> u \<noteq> [] \<and> list_all (\<lambda>c. \<not> in_number c) u \<and> 0 < k \<and> hd u \<noteq> CHR ''.''"
  by (auto simp: unitMap_def in_number_def is_digit_def split: if_splits)

text \<open>
  A duration written as one number and a unit means that many units, and is refused exactly if it
  does not fit.
\<close>

lemma ParseDuration_unit:
  assumes "map_of unitMap u = Some k"
  shows "ParseDuration (show_nat n @ u) = (if n * k < 2 ^ 63 then Some (int (n * k)) else None)"
proof -
  note u = units_not_digits [OF assms]
  obtain c cs where cs: "u = c # cs" using u by (cases u) auto
  have nd: "\<not> is_digit (hd u)" using u cs by (auto simp: in_number_def)
  have li: "leadingInt 0 (show_nat n @ u) = (if n \<le> 2 ^ 63 then Some (n, u) else None)"
    using leadingInt_digits [OF show_nat_digits, of u 0 n] nd by simp
  have h: "in_number (hd (show_nat n @ u))" "hd (show_nat n @ u) \<noteq> CHR ''-''" "hd (show_nat n @ u) \<noteq> CHR ''+''"
    using hd_show_nat_digit [of n] not_digit_sign [of "hd (show_nat n)"] by (auto simp: in_number_def)
  have f: "scan_fraction u = (0, Fin 1, u, False)" using u cs by (simp add: scan_fraction_def)
  have t: "takeWhile (\<lambda>c. \<not> in_number c) u = u" "dropWhile (\<lambda>c. \<not> in_number c) u = []"
    using u by (auto simp: takeWhile_eq_all_conv list_all_iff)
  have "2 ^ 63 div k < n \<longleftrightarrow> 2 ^ 63 < n * k" using u by (simp add: div_less_iff_less_mult)
  moreover have "n \<le> n * k" using u by simp
  ultimately have big: "\<not> n \<le> 2 ^ 63 \<or> 2 ^ 63 div k < n \<longleftrightarrow> \<not> n * k \<le> 2 ^ 63" by linarith
  have sc: "scan_component (show_nat n @ u) = (if n * k \<le> 2 ^ 63 then Some (n * k, []) else None)"
  proof (cases "n \<le> 2 ^ 63")
    case True
    then have "leadingInt 0 (show_nat n @ u) = Some (n, u)" using li by simp
    then have "scan_component (show_nat n @ u) = (if 2 ^ 63 div k < n then None else Some (n * k, []))"
      using h u by (simp add: scan_component_def f t assms Let_def)
    then show ?thesis using big True by auto
  next
    case False
    then have "leadingInt 0 (show_nat n @ u) = None" using li by simp
    then show ?thesis using big False by (simp add: scan_component_def)
  qed
  have "duration_loop 0 (show_nat n @ u) = (if n * k \<le> 2 ^ 63 then Some (n * k) else None)"
    using sc u by (simp add: duration_loop.simps [of 0 "show_nat n @ u"] duration_loop.simps [of _ "[]"] Let_def)
  moreover have "show_nat n @ u \<noteq> ''0''" using u nd show_nat_nonempty [of n] by (cases "show_nat n") auto
  ultimately show ?thesis using h u by (auto simp: ParseDuration_def Let_def)
qed

lemma digit_of_base_10: "digit_of_base 10 c \<longleftrightarrow> is_digit c"
  by (auto simp: digit_of_base_def digit_value_def is_digit_def digit_val_def)

lemma hd_show_nat_0: "hd (show_nat n) = CHR ''0'' \<longleftrightarrow> n = 0"
proof (induction n rule: show_nat.induct)
  case (1 n)
  have "digit 0 = CHR ''0''" by code_simp
  then have "(digit n = CHR ''0'') = (n = 0)" if "n < 10" using digit_inj [OF that, of 0] by auto
  then show ?case using 1 by (subst show_nat.simps) (auto simp: hd_append)
qed

lemma digits_stripped: "is_digit (hd s) \<Longrightarrow> s \<noteq> [] \<Longrightarrow> strip_runes space_runes s = s"
proof -
  assume d: "is_digit (hd s)" "s \<noteq> []"
  have "\<not> is_digit (hd p)" if "p \<in> set space_runes" for p using that by (auto simp: space_runes_def is_digit_def)
  moreover have "hd p = hd s" if "p \<noteq> []" "take (length p) s = p" for p using that d(2) by (metis hd_take length_greater_0_conv)
  ultimately have "starting space_runes s = None" using d unfolding starting_def find_None_iff by metis
  then show ?thesis by (simp add: strip_runes.simps)
qed

lemma read_base_10: "list_all is_digit s \<Longrightarrow> read_base 10 s = read_nat s"
proof (induction s rule: rev_induct)
  case (snoc c s)
  then have "c \<noteq> CHR ''_''" by (auto simp: is_digit_def)
  then show ?case using snoc by (simp add: read_base_def digit_value_def)
qed (simp add: read_base_def read_nat_def)

text \<open>A positive decimal number is read as such, whatever follows it.\<close>

lemma Sscan_decimal:
  assumes "0 < n" "r = [] \<or> \<not> is_digit (hd r) \<and> hd r \<noteq> CHR ''_''"
  shows "Sscan (show_nat n @ r) = (if n < 2 ^ 63 then Some (int n) else None)"
proof -
  let ?s = "show_nat n"
  note d = hd_show_nat_digit [of n] show_nat_digits [of n] show_nat_nonempty [of n]
  obtain c cs where cs: "?s = c # cs" using d(3) by (cases ?s) auto
  have c: "c \<noteq> CHR ''0''" "c \<noteq> CHR ''+''" "c \<noteq> CHR ''-''" using hd_show_nat_0 [of n] not_digit_sign [OF d(1)] assms(1) cs by auto
  have "strip_runes space_runes (?s @ r) = ?s @ r" using digits_stripped [of "?s @ r"] d by simp
  moreover have "scanBasePrefix (?s @ r) = ([], digit_of_base 10, False, ?s @ r)" using c cs by (simp add: scanBasePrefix_def)
  moreover have "takeWhile (\<lambda>c. is_digit c \<or> c = CHR ''_'') (?s @ r) = ?s"
    using d(2) assms(2) by (cases r) (auto simp: list_all_iff)
  ultimately have sc: "Sscan (?s @ r) = ParseInt0 ?s" using c cs by (simp add: Sscan_def Let_def digit_of_base_10)
  have "base_prefix ?s = (10, ?s)" using c cs by (simp add: base_prefix_def)
  moreover have "CHR ''_'' \<notin> set ?s" using d(2) by (auto simp: list_all_iff is_digit_def)
  moreover have "list_all (\<lambda>c. c = CHR ''_'' \<or> is_digit c) ?s" using d(2) by (auto simp: list_all_iff)
  ultimately have "ParseUint0 ?s = (if 2 ^ 64 - 1 < n then None else Some n)"
    using d(3) by (simp add: ParseUint0_def digit_of_base_10 read_base_10 [OF d(2)])
  then show ?thesis using sc c cs by (auto simp: ParseInt0_def Let_def)
qed

end
