(* ===== verification/Startup.thy ===== *)
theory Startup
  imports Config WorkerRun HttpApi
begin

text \<open>
  The three processes (\<^verbatim>\<open>cmd/*/main.go\<close>) and the database connection they start with
  (\<^verbatim>\<open>internal/infrastructure/persistence/database.go\<close>): the order in which the parts are created, the errors that end a process,
  and how the parts are wired. What the operating system and the libraries do is a parameter.
\<close>

section \<open>The platform\<close>

text \<open>
  \<open>'o\<close> are the options of a Redis client. \<open>pf_After\<close> is the \<^verbatim>\<open>select\<close> between the context, whose error it returns, and a
  timer. \<open>pf_wait\<close> and \<open>pf_rand\<close> belong to the mock providers.
\<close>

record ('w, 'o) platform =
  pf_env :: "string \<Rightarrow> string"
  pf_Open :: "string \<Rightarrow> 'w \<Rightarrow> (error + 'w gorm) \<times> 'w"
  pf_DB :: "'w gorm \<Rightarrow> 'w \<Rightarrow> error option \<times> 'w"
  pf_Ping :: "'w gorm \<Rightarrow> 'w \<Rightarrow> error option \<times> 'w"
  pf_SetPool :: "'w gorm \<Rightarrow> int \<Rightarrow> int \<Rightarrow> duration \<Rightarrow> 'w \<Rightarrow> 'w"
  pf_After :: "duration \<Rightarrow> 'w \<Rightarrow> error option \<times> 'w"
  pf_SetDialect :: "string \<Rightarrow> 'w \<Rightarrow> error option \<times> 'w"
  pf_Up :: "'w gorm \<Rightarrow> string \<Rightarrow> 'w \<Rightarrow> error option \<times> 'w"
  pf_ParseURL :: "string \<Rightarrow> error + 'o"
  pf_NewClient :: "'o \<Rightarrow> 'w redis_client"
  pf_redis_Ping :: "'o \<Rightarrow> error option"
  pf_Dial :: "string \<Rightarrow> 'w \<Rightarrow> error option \<times> 'w"
  pf_wait :: "ctx \<Rightarrow> duration \<Rightarrow> 'w \<Rightarrow> error option \<times> 'w"
  pf_rand :: "'w \<Rightarrow> float64 \<times> 'w"

section \<open>The database\<close>

text \<open>One attempt to connect: open, get the handle, ping.\<close>

definition attempt :: "('w, 'o) platform \<Rightarrow> string \<Rightarrow> 'w \<Rightarrow> (error + 'w gorm) \<times> 'w" where
  "attempt P dsn w = (case pf_Open P dsn w of
     (Inl err, w1) \<Rightarrow> (Inl err, w1)
   | (Inr db, w1) \<Rightarrow> (case pf_DB P db w1 of
       (Some dbErr, w2) \<Rightarrow> (Inl dbErr, w2)
     | (None, w2) \<Rightarrow> (case pf_Ping P db w2 of
         (Some dbErr, w3) \<Rightarrow> (Inl dbErr, w3)
       | (None, w3) \<Rightarrow> (Inr db, w3))))"

text \<open>
  The loop with the number of attempts that are left and the error of the last one. A failed attempt is
  followed by a pause, the last one too. Without any attempt \<^verbatim>\<open>db\<close> would be nil.
\<close>

fun connect_loop :: "('w, 'o) platform \<Rightarrow> string \<Rightarrow> nat \<Rightarrow> error option \<Rightarrow> 'w \<Rightarrow> (error + 'w gorm) \<times> 'w" where
  "connect_loop P dsn 0 err w =
    (Inl (case err of None \<Rightarrow> nil_deref | Some e \<Rightarrow> Wrapf ''connect database after retries: '' e []), w)"
| "connect_loop P dsn (Suc n) err w = (case attempt P dsn w of
     (Inr db, w1) \<Rightarrow> (Inr db, w1)
   | (Inl e, w1) \<Rightarrow> (case pf_After P (2 * second_ns) w1 of
       (Some ctxErr, w2) \<Rightarrow> (Inl (Wrapf ''connect database: '' ctxErr []), w2)
     | (None, w2) \<Rightarrow> connect_loop P dsn n (Some e) w2))"

definition Connect :: "('w, 'o) platform \<Rightarrow> DatabaseConfig \<Rightarrow> 'w \<Rightarrow> (error + 'w gorm) \<times> 'w" where
  "Connect P cfg w = (case connect_loop P (DSN cfg) 30 None w of
     (Inl err, w1) \<Rightarrow> (Inl err, w1)
   | (Inr db, w1) \<Rightarrow> (case pf_DB P db w1 of
       (Some err, w2) \<Rightarrow> (Inl (Wrapf ''get underlying sql.DB: '' err []), w2)
     | (None, w2) \<Rightarrow> (Inr db, pf_SetPool P db 25 5 (300 * second_ns) w2)))"

definition Migrate :: "('w, 'o) platform \<Rightarrow> 'w gorm \<Rightarrow> 'w \<Rightarrow> error option \<times> 'w" where
  "Migrate P db w = (case pf_SetDialect P ''postgres'' w of
     (Some err, w1) \<Rightarrow> (Some (Wrapf ''goose dialect: '' err []), w1)
   | (None, w1) \<Rightarrow> (case pf_DB P db w1 of
       (Some err, w2) \<Rightarrow> (Some (Wrapf ''get underlying sql.DB: '' err []), w2)
     | (None, w2) \<Rightarrow> (case pf_Up P db ''.'' w2 of
         (Some err, w3) \<Rightarrow> (Some (Wrapf ''goose migration: '' err []), w3)
       | (None, w3) \<Rightarrow> (None, w3))))"

section \<open>The reservation store\<close>

record ('w, 'o) Store =
  st_options :: 'o
  st_client :: "'w redis_client"
  st_loader :: "'w loader"

definition NewStore :: "('w, 'o) platform \<Rightarrow> string \<Rightarrow> 'w loader \<Rightarrow> error + ('w, 'o) Store" where
  "NewStore P url loader = (case pf_ParseURL P url of
     Inl err \<Rightarrow> Inl (Wrapf ''parse Redis URL: '' err [])
   | Inr options \<Rightarrow> Inr \<lparr>st_options = options, st_client = pf_NewClient P options, st_loader = loader\<rparr>)"

definition store_Ping :: "('w, 'o) platform \<Rightarrow> ('w, 'o) Store \<Rightarrow> error option" where
  "store_Ping P s = pf_redis_Ping P (st_options s)"

text \<open>The store as the interface that the service and the worker use; \<open>fuel\<close> is that of \<^verbatim>\<open>Reserve\<close>.\<close>

definition store_reservations :: "nat \<Rightarrow> ('w, 'o) Store \<Rightarrow> 'w ReservationStore" where
  "store_reservations fuel s = redis_reservations fuel (st_client s) (Some (st_loader s))"

section \<open>The API gateway\<close>

record 'w http_server =
  sv_Addr :: string
  sv_ReadHeaderTimeout :: duration
  sv_ReadTimeout :: duration
  sv_WriteTimeout :: duration
  sv_IdleTimeout :: duration
  sv_service :: "'w Service"
  sv_admin :: "'w AdminService"
  sv_key :: string

text \<open>\<^verbatim>\<open>run\<close> up to the server it starts. The handlers and the router hold the two services and the API key.\<close>

definition build_api :: "nat \<Rightarrow> ('w, 'o) platform \<Rightarrow> 'w \<Rightarrow> (error + Config \<times> 'w http_server) \<times> 'w" where
  "build_api fuel P w = (case Load (pf_env P) of
     Inl err \<Rightarrow> (Inl (Wrapf ''load config: '' err []), w)
   | Inr cfg \<Rightarrow> (case Connect P (DB cfg) w of
       (Inl err, w1) \<Rightarrow> (Inl err, w1)
     | (Inr db, w1) \<Rightarrow> (case pf_DB P db w1 of
         (Some err, w2) \<Rightarrow> (Inl (Wrapf ''get database handle: '' err []), w2)
       | (None, w2) \<Rightarrow> (case Migrate P db w2 of
           (Some err, w3) \<Rightarrow> (Inl (Wrapf ''migrate database: '' err []), w3)
         | (None, w3) \<Rightarrow> (case NewStore P (RedisURL cfg) (GetByID db) of
             Inl err \<Rightarrow> (Inl (Wrapf ''create Redis reservation store: '' err []), w3)
           | Inr store \<Rightarrow> (case store_Ping P store of
               Some err \<Rightarrow> (Inl (Wrapf ''connect Redis: '' err []), w3)
             | None \<Rightarrow>
                 let cache = Some (SetAvailable (st_client store));
                     admin = NewAdminService (postgres_wallets db cache) (postgres_channels db) (Some (postgres_deliveries db))
                 in case NewServiceWithReservation (GetByName db) (Some (DeductAndEnqueue db cache)) (Enqueue db) (GetByLineType db)
                      (store_reservations fuel store) (ExpressSLA cfg) (ExpressInFlight cfg) (NormalInFlight cfg) of
                   Inl err \<Rightarrow> (Inl err, w3)
                 | Inr smsService \<Rightarrow> (Inr (cfg, \<lparr>sv_Addr = '':'' @ Port (Server cfg), sv_ReadHeaderTimeout = ReadTimeout (Server cfg),
                     sv_ReadTimeout = ReadTimeout (Server cfg), sv_WriteTimeout = WriteTimeout (Server cfg),
                     sv_IdleTimeout = IdleTimeout (Server cfg), sv_service = smsService, sv_admin = admin, sv_key = AdminAPIKey cfg\<rparr>), w3)))))))"

text \<open>
  What ends the server: \<^verbatim>\<open>ListenAndServe\<close> returned, with \<^verbatim>\<open>http.ErrServerClosed\<close> or another error, or a signal
  arrived and the server is shut down.
\<close>

datatype stopped = ServerClosed | ListenFailed error | Signalled

definition run_api ::
  "nat \<Rightarrow> ('w, 'o) platform \<Rightarrow> ('w http_server \<Rightarrow> 'w \<Rightarrow> stopped \<times> 'w) \<Rightarrow> (duration \<Rightarrow> 'w \<Rightarrow> error option \<times> 'w) \<Rightarrow> 'w \<Rightarrow> error option \<times> 'w" where
  "run_api fuel P listen shutdown w = (case build_api fuel P w of
     (Inl err, w1) \<Rightarrow> (Some err, w1)
   | (Inr (cfg, server), w1) \<Rightarrow> (case listen server w1 of
       (ServerClosed, w2) \<Rightarrow> (None, w2)
     | (ListenFailed err, w2) \<Rightarrow> (Some (Wrapf ''serve HTTP: '' err []), w2)
     | (Signalled, w2) \<Rightarrow> (case shutdown (ShutdownTimeout (Server cfg)) w2 of
         (Some err, w3) \<Rightarrow> (Some (Wrapf ''shutdown HTTP server: '' err []), w3)
       | (None, w3) \<Rightarrow> (None, w3))))"

section \<open>The worker\<close>

text \<open>The Redis client of a URL; if the URL is wrong the constructors fail before they use it.\<close>

definition client_at :: "('w, 'o) platform \<Rightarrow> string \<Rightarrow> 'w redis_client" where
  "client_at P url = (case pf_ParseURL P url of Inl err \<Rightarrow> (\<lambda>f w. (Inl err, w)) | Inr options \<Rightarrow> pf_NewClient P options)"

definition build_worker :: "nat \<Rightarrow> ('w, 'o) platform \<Rightarrow> string \<Rightarrow> int \<Rightarrow> int \<Rightarrow> 'w \<Rightarrow> (error + 'w Worker) \<times> 'w" where
  "build_worker fuel P line prefetch concurrency w = (case Load (pf_env P) of
     Inl err \<Rightarrow> (Inl err, w)
   | Inr cfg \<Rightarrow> (case Connect P (DB cfg) w of
       (Inl err, w1) \<Rightarrow> (Inl err, w1)
     | (Inr db, w1) \<Rightarrow> (case NewStore P (RedisURL cfg) (GetByID db) of
         Inl err \<Rightarrow> (Inl err, w1)
       | Inr store \<Rightarrow> (case store_Ping P store of
           Some err \<Rightarrow> (Inl err, w1)
         | None \<Rightarrow> (case NewDefaultRedisMockRoundRobinSender (pf_wait P) (pf_rand P) (client_at P (RedisURL cfg)) (pf_ParseURL P) (pf_redis_Ping P)
               (RedisURL cfg) (ProviderCircuitFailureThreshold cfg) (ProviderCircuitCooldown cfg) (ProviderTimeout cfg) of
             Inl err \<Rightarrow> (Inl err, w1)
           | Inr sender \<Rightarrow> NewWorkerWithReservationAndTimeout (pf_Dial P) db (BrokerURL cfg) line prefetch concurrency (rrs_Send sender)
               (Some (store_reservations fuel store)) (ProviderTimeout cfg) w1)))))"

text \<open>\<^verbatim>\<open>main\<close> of the worker: an error of the set-up or of \<^verbatim>\<open>Run\<close> ends the process with status 1.\<close>

definition worker_main ::
  "nat \<Rightarrow> ('w, 'o) platform \<Rightarrow> string \<Rightarrow> int \<Rightarrow> int \<Rightarrow> ('w Worker \<Rightarrow> 'w \<Rightarrow> error option \<times> 'w) \<Rightarrow> 'w \<Rightarrow> int \<times> 'w" where
  "worker_main fuel P line prefetch concurrency run w = (case build_worker fuel P line prefetch concurrency w of
     (Inl err, w1) \<Rightarrow> (1, w1)
   | (Inr worker, w1) \<Rightarrow> (case run worker w1 of (Some err, w2) \<Rightarrow> (1, w2) | (None, w2) \<Rightarrow> (0, w2)))"

section \<open>The dispatcher\<close>

definition dispatcher_main :: "('w, 'o) platform \<Rightarrow> ('w Dispatcher \<Rightarrow> 'w \<Rightarrow> error option \<times> 'w) \<Rightarrow> 'w \<Rightarrow> int \<times> 'w" where
  "dispatcher_main P run w = (case Load (pf_env P) of
     Inl err \<Rightarrow> (1, w)
   | Inr cfg \<Rightarrow> (case Connect P (DB cfg) w of
       (Inl err, w1) \<Rightarrow> (1, w1)
     | (Inr db, w1) \<Rightarrow> (case NewDispatcher (pf_Dial P) db (BrokerURL cfg) w1 of
         (Inl err, w2) \<Rightarrow> (1, w2)
       | (Inr dispatcher, w2) \<Rightarrow> (case run dispatcher w2 of (Some err, w3) \<Rightarrow> (1, w3) | (None, w3) \<Rightarrow> (0, w3)))))"

end
