(* ===== verification/StartupProps.thy ===== *)
theory StartupProps
  imports Startup ApiProps Database
begin

text \<open>
  What starting a process guarantees: connecting to the database ends, a configuration that loads makes no
  constructor fail, and no configuration opens the administrative routes.
\<close>

section \<open>Connecting\<close>

text \<open>\<open>tries\<close> counts the calls of \<^verbatim>\<open>gorm.Open\<close>.\<close>

definition counts_tries :: "('w, 'o) platform \<Rightarrow> ('w \<Rightarrow> nat) \<Rightarrow> bool" where
  "counts_tries P tries \<longleftrightarrow> (\<forall>dsn db d m n w. tries (snd (pf_Open P dsn w)) = Suc (tries w) \<and> tries (snd (pf_DB P db w)) = tries w
    \<and> tries (snd (pf_Ping P db w)) = tries w \<and> tries (snd (pf_After P d w)) = tries w \<and> tries (pf_SetPool P db m n d w) = tries w)"

lemma attempt_tries:
  assumes "counts_tries P tries" "attempt P dsn w = (r, w')"
  shows "tries w' = Suc (tries w)"
proof -
  obtain x w1 where o: "pf_Open P dsn w = (x, w1)" by (metis surj_pair)
  have c: "tries w1 = Suc (tries w)" "\<And>db v. tries (snd (pf_DB P db v)) = tries v" "\<And>db v. tries (snd (pf_Ping P db v)) = tries v"
    using assms(1) o unfolding counts_tries_def by (metis snd_conv)+
  show ?thesis
  proof (cases x)
    case (Inr db)
    obtain y w2 where d: "pf_DB P db w1 = (y, w2)" by (metis surj_pair)
    obtain z w3 where p: "pf_Ping P db w2 = (z, w3)" by (metis surj_pair)
    show ?thesis using assms(2) o Inr d p c(1) c(2) [of db w1] c(3) [of db w2] by (auto simp: attempt_def split: option.splits)
  qed (use assms(2) o c(1) in \<open>simp add: attempt_def\<close>)
qed

text \<open>A connection that an attempt returns has been opened and pinged.\<close>

definition pinged :: "('w, 'o) platform \<Rightarrow> string \<Rightarrow> 'w gorm \<Rightarrow> 'w \<Rightarrow> bool" where
  "pinged P dsn db w \<longleftrightarrow> (\<exists>v0 v1 v2. pf_Open P dsn v0 = (Inr db, v1) \<and> pf_DB P db v1 = (None, v2) \<and> pf_Ping P db v2 = (None, w))"

lemma attempt_pinged: "attempt P dsn w = (Inr db, w') \<Longrightarrow> pinged P dsn db w'"
  by (force simp: attempt_def pinged_def split: prod.splits sum.splits option.splits)

text \<open>A database that cannot be opened, or that never answers.\<close>

definition unreachable :: "('w, 'o) platform \<Rightarrow> string \<Rightarrow> bool" where
  "unreachable P dsn \<longleftrightarrow> (\<forall>v db. fst (pf_Open P dsn v) \<noteq> Inr db) \<or> (\<forall>db v. fst (pf_Ping P db v) \<noteq> None)"

lemma unreachable_attempt:
  assumes "unreachable P dsn"
  shows "attempt P dsn w \<noteq> (Inr db, w')"
proof
  assume "attempt P dsn w = (Inr db, w')"
  from attempt_pinged [OF this] obtain v0 v1 v2 where "pf_Open P dsn v0 = (Inr db, v1)" "pf_Ping P db v2 = (None, w')"
    unfolding pinged_def by blast
  then show False using assms unfolding unreachable_def by (metis fst_conv)
qed

lemma connect_loop_outcome:
  assumes "counts_tries P tries"
  shows "connect_loop P dsn n err w = (r, w') \<Longrightarrow> tries w' \<le> tries w + n \<and> (\<forall>db. r = Inr db \<longrightarrow> pinged P dsn db w')
    \<and> (unreachable P dsn \<and> (\<forall>d v. fst (pf_After P d v) = None) \<and> (0 < n \<or> err \<noteq> None) \<longrightarrow>
        tries w' = tries w + n \<and> (\<exists>e. r = Inl (Wrapf ''connect database after retries: '' e [])))"
proof (induction n arbitrary: err w)
  case (Suc n)
  obtain x w1 where a: "attempt P dsn w = (x, w1)" by (metis surj_pair)
  note t1 = attempt_tries [OF assms a]
  show ?case
  proof (cases x)
    case (Inr db)
    then show ?thesis using Suc.prems a t1 attempt_pinged [of P dsn w db w1] unreachable_attempt [of P dsn w db w1] by auto
  next
    case (Inl e)
    obtain y w2 where s: "pf_After P (2 * second_ns) w1 = (y, w2)" by (metis surj_pair)
    have t2: "tries w2 = tries w1" using assms s unfolding counts_tries_def by (metis snd_conv)
    show ?thesis
    proof (cases y)
      case None
      then have "connect_loop P dsn n (Some e) w2 = (r, w')" using Suc.prems a Inl s by simp
      from Suc.IH [OF this] show ?thesis using t1 t2 by auto
    next
      case (Some ce)
      then have "\<not> (\<forall>d v. fst (pf_After P d v) = None)" using s by (metis fst_conv option.distinct(1))
      then show ?thesis using Suc.prems a Inl s Some t1 t2 by auto
    qed
  qed
qed auto

text \<open>
  C30: connecting ends. The database is opened at most 30 times, exactly so if it cannot be opened or never answers a ping, and
  nobody interrupts; then an error is reported. A connection that is returned was opened and, as the last call but those that configure
  its pool, answered a ping.
\<close>

theorem connect_bounded:
  assumes "counts_tries P tries" "Connect P cfg w = (r, w')"
  shows "tries w' \<le> tries w + 30
    \<and> (\<forall>db. r = Inr db \<longrightarrow> (\<exists>v0 v1 v2 v3 v4. pf_Open P (DSN cfg) v0 = (Inr db, v1) \<and> pf_DB P db v1 = (None, v2) \<and> pf_Ping P db v2 = (None, v3)
        \<and> pf_DB P db v3 = (None, v4) \<and> w' = pf_SetPool P db 25 5 (300 * second_ns) v4))
    \<and> (((\<forall>v db. fst (pf_Open P (DSN cfg) v) \<noteq> Inr db) \<or> (\<forall>db v. fst (pf_Ping P db v) \<noteq> None)) \<and> (\<forall>d v. fst (pf_After P d v) = None) \<longrightarrow>
        tries w' = tries w + 30 \<and> (\<exists>e. r = Inl (Wrapf ''connect database after retries: '' e [])))"
proof -
  obtain x w1 where l: "connect_loop P (DSN cfg) 30 None w = (x, w1)" by (metis surj_pair)
  note o = connect_loop_outcome [OF assms(1) l]
  show ?thesis
  proof (cases x)
    case (Inl e)
    then show ?thesis using o assms(2) l by (auto simp: Connect_def unreachable_def)
  next
    case (Inr db)
    obtain y w2 where d: "pf_DB P db w1 = (y, w2)" by (metis surj_pair)
    have t: "tries w2 = tries w1" "tries (pf_SetPool P db 25 5 (300 * second_ns) w2) = tries w2"
      using assms(1) d unfolding counts_tries_def by (metis snd_conv)+
    have r: "tries w' = tries w1" "\<forall>db'. r = Inr db' \<longrightarrow> db' = db \<and> y = None \<and> w' = pf_SetPool P db 25 5 (300 * second_ns) w2"
      using assms(2) l Inr d t by (auto simp: Connect_def split: option.splits)
    have p: "pinged P (DSN cfg) db w1" using o Inr by simp
    then have "\<not> unreachable P (DSN cfg)" unfolding pinged_def unreachable_def by (metis fst_conv)
    then have "\<not> ((\<forall>v db. fst (pf_Open P (DSN cfg) v) \<noteq> Inr db) \<or> (\<forall>db v. fst (pf_Ping P db v) \<noteq> None))" unfolding unreachable_def .
    moreover have "tries w' \<le> tries w + 30" using o r(1) by simp
    moreover have "\<exists>v0 v1 v2 v3 v4. pf_Open P (DSN cfg) v0 = (Inr db', v1) \<and> pf_DB P db' v1 = (None, v2) \<and> pf_Ping P db' v2 = (None, v3)
        \<and> pf_DB P db' v3 = (None, v4) \<and> w' = pf_SetPool P db' 25 5 (300 * second_ns) v4" if "r = Inr db'" for db'
    proof -
      from r(2) that have "db' = db" "y = None" "w' = pf_SetPool P db 25 5 (300 * second_ns) w2" by blast+
      then show ?thesis using p d unfolding pinged_def by blast
    qed
    ultimately show ?thesis by blast
  qed
qed

section \<open>The processes\<close>

lemma rate_accepted:
  assumes "1 / 100 \<le> x" "x \<le> 1 / 2"
  shows "\<not> flt (fl x) (Fin 0)" "\<not> flt (Fin 1) (fl x)"
proof -
  have "pow2 (- 1022) \<le> pow2 (- 7)" by (rule pow2_mono) simp
  then have small: "pow2 (- 1022) \<le> \<bar>x\<bar>" using assms(1) by (simp add: pow2_def)
  have "\<bar>x\<bar> \<le> 2 ^ 100" using assms by simp
  then have f: "fl x = Fin (fround x)" by (intro fl_Fin fround_bound [OF small])
  have "\<bar>fround x - x\<bar> \<le> x / 2 ^ 53" using fround_error [OF small] assms(1) by simp
  moreover have "x / 2 ^ 53 \<le> x" "x + x / 2 ^ 53 \<le> 1" using assms by (simp_all add: field_simps)
  ultimately have "0 \<le> fround x" "fround x \<le> 1" by linarith+
  then show "\<not> flt (fl x) (Fin 0)" "\<not> flt (Fin 1) (fl x)" by (simp_all add: f)
qed

lemma default_providers:
  "\<exists>ps. defaultMockProviders wait rnd = Inr ps \<and> map Name ps = [''mock-arya'', ''mock-baran'', ''mock-caspian'']"
  using rate_accepted [of "1 / 10"] rate_accepted [of "2 / 10"] rate_accepted [of "5 / 100"]
  by (simp add: defaultMockProviders_def mock_specs_def NewMockProvider_def mock_Provider_def)

lemma default_pool:
  assumes "parse url = Inr opts" "ping opts = None" "1 \<le> th" "0 < cd" "0 < lease"
  shows "\<exists>s. NewDefaultRedisMockRoundRobinSender wait rnd eval parse ping url th cd lease = Inr s
    \<and> map Name (providers s) = [''mock-arya'', ''mock-baran'', ''mock-caspian'']
    \<and> rrs_state s = redis_store eval \<lparr>rp_prefix = ''sms:provider-pool:'' @ b64_encode ''global'', rp_failureThreshold = th, rp_cooldown = cd,
        rp_halfOpenLease = lease\<rparr>"
proof -
  obtain ps where ps: "defaultMockProviders wait rnd = Inr ps" "map Name ps = [''mock-arya'', ''mock-baran'', ''mock-caspian'']"
    using default_providers [of wait rnd] by (elim exE conjE) (rule that)
  then obtain p q r where l: "ps = [p, q, r]" by (auto simp: map_eq_Cons_conv)
  have "validatePool (map Some ps) th cd = Inr ps" using assms(3,4) ps(2) by (simp add: validatePool_def l)
  then show ?thesis using assms ps
    by (simp add: NewDefaultRedisMockRoundRobinSender_def NewRedisRoundRobinSender_def newRedisProviderState_def newRoundRobinSender_def)
qed

text \<open>
  A configuration that loads starts a worker. If the services it needs can be reached and the flags
  are sensible, none of the constructors on the way refuses what the configuration contains: the worker
  has the reservation store, the three providers behind circuit breakers in Redis with the
  configured threshold and cooldown, and the provider timeout both for its calls and for the lease of a
  probe.
\<close>

theorem worker_starts:
  assumes "Load (pf_env P) = Inr cfg" "Connect P (DB cfg) w = (Inr db, w1)" "pf_ParseURL P (RedisURL cfg) = Inr opts" "pf_redis_Ping P opts = None"
    "pf_Dial P (BrokerURL cfg) w1 = (None, w2)" "line = ''express'' \<or> line = ''normal''" "1 \<le> concurrency" "concurrency \<le> prefetch"
  shows "\<exists>s. build_worker fuel P line prefetch concurrency w = (Inr \<lparr>wk_db = db, wk_line = line, wk_prefetch = prefetch,
        wk_concurrency = concurrency, wk_sender = rrs_Send s,
        wk_reservations = Some (redis_reservations fuel (pf_NewClient P opts) (Some (GetByID db))), wk_providerTimeout = ProviderTimeout cfg\<rparr>, w2)
    \<and> map Name (providers s) = [''mock-arya'', ''mock-baran'', ''mock-caspian'']
    \<and> rrs_state s = redis_store (pf_NewClient P opts) \<lparr>rp_prefix = ''sms:provider-pool:'' @ b64_encode ''global'',
        rp_failureThreshold = ProviderCircuitFailureThreshold cfg, rp_cooldown = ProviderCircuitCooldown cfg, rp_halfOpenLease = ProviderTimeout cfg\<rparr>
    \<and> 0 < ProviderTimeout cfg"
proof -
  have cfg: "1 \<le> ProviderCircuitFailureThreshold cfg" "0 < ProviderCircuitCooldown cfg" "0 < ProviderTimeout cfg"
    using Load_Inr [OF assms(1)] positive_duration_ok positive_integer_ok by blast+
  have c: "client_at P (RedisURL cfg) = pf_NewClient P opts" using assms(3) by (simp add: client_at_def)
  from default_pool [where wait = "pf_wait P" and rnd = "pf_rand P" and eval = "pf_NewClient P opts" and parse = "pf_ParseURL P"
      and ping = "pf_redis_Ping P", OF assms(3,4) cfg]
  show ?thesis using assms cfg(3)
    by (auto simp: build_worker_def NewStore_def store_Ping_def store_reservations_def c NewWorkerWithReservationAndTimeout_def newWorker_def)
qed

text \<open>
  C31: no configuration opens the administration. Whatever the environment, an API process that starts
  has a nonempty API key, so a request without the header is refused on every administrative
  route, that is, on all but \<^verbatim>\<open>POST /sms\<close> and the documentation page; its service uses the same Redis store that top-ups refresh, and admits at least one request per line.
\<close>

theorem api_never_open:
  assumes "build_api fuel P w = (Inr (cfg, server), w')" "route \<in> set routes" "fst (snd (snd route)) \<notin> {EpSendSMS, EpSwagger}" "rq_header rq ''X-Admin-API-Key'' = []"
  shows "serve (sv_key server) rt (sv_service server) (sv_admin server) B route rq sl v = Some (json_error 401 ''unauthorized'', sl, v)
    \<and> 1 \<le> expressSlots (sv_service server) \<and> 1 \<le> normalSlots (sv_service server)
    \<and> (\<exists>opts db. pf_ParseURL P (RedisURL cfg) = Inr opts
        \<and> reservations (sv_service server) = Some (redis_reservations fuel (pf_NewClient P opts) (Some (GetByID db)))
        \<and> walletRepo (sv_admin server) = postgres_wallets db (Some (SetAvailable (pf_NewClient P opts))))"
proof -
  have l: "Load (pf_env P) = Inr cfg" and key: "sv_key server = AdminAPIKey cfg"
    and S: "expressSlots (sv_service server) = ExpressInFlight cfg" "normalSlots (sv_service server) = NormalInFlight cfg"
    and st: "\<exists>opts db. pf_ParseURL P (RedisURL cfg) = Inr opts
        \<and> reservations (sv_service server) = Some (redis_reservations fuel (pf_NewClient P opts) (Some (GetByID db)))
        \<and> walletRepo (sv_admin server) = postgres_wallets db (Some (SetAvailable (pf_NewClient P opts)))"
    using assms(1) by (auto simp: build_api_def Let_def NewServiceWithReservation_def make_service_def NewStore_def store_reservations_def NewAdminService_def
        split: sum.splits prod.splits option.splits if_splits)
  have "1 \<le> ExpressInFlight cfg" "1 \<le> NormalInFlight cfg" "AdminAPIKey cfg \<noteq> []"
    using Load_Inr [OF l] positive_integer_ok by blast+
  then show ?thesis using S st key assms(2-4) by (auto simp: routes_def serve_def requireAPIKey_iff)
qed

section \<open>A platform\<close>

text \<open>A platform in memory that counts the attempts to connect; \<open>up\<close> says whether the database answers.\<close>

definition platform_example :: "bool \<Rightarrow> (db \<times> redis_state \<times> nat, unit) platform" where
  "platform_example up = \<lparr>pf_env = local_env, pf_Open = (\<lambda>dsn (d, r, n). (Inr mem_gorm, (d, r, Suc n))), pf_DB = (\<lambda>db w. (None, w)),
    pf_Ping = (\<lambda>db w. (if up then None else Some (NewError ''connection refused''), w)), pf_SetPool = (\<lambda>db m n d w. w),
    pf_After = (\<lambda>d w. (None, w)), pf_SetDialect = (\<lambda>s w. (None, w)), pf_Up = (\<lambda>db s w. (None, w)), pf_ParseURL = (\<lambda>url. Inr ()),
    pf_NewClient = (\<lambda>_. beside_client), pf_redis_Ping = (\<lambda>_. None), pf_Dial = (\<lambda>url w. (None, w)), pf_wait = (\<lambda>c d w. (None, w)),
    pf_rand = (\<lambda>w. (Fin 1, w))\<rparr>"

lemma platform_counts: "counts_tries (platform_example up) (\<lambda>w. snd (snd w))"
  by (auto simp: counts_tries_def platform_example_def)

lemma platform_connects: "Connect (platform_example True) cfg (d, r, n) = (Inr mem_gorm, (d, r, Suc n))"
  by (simp add: Connect_def platform_example_def attempt_def numeral_eq_Suc)

theorem connect_bounded_witness:
  "\<exists>e w'. Connect (platform_example False) \<lparr>db_Host = [], db_Port = [], db_User = [], db_Password = [], db_Name = [], db_SSLMode = []\<rparr> (db_example, credit_example, 0) = (Inl (Wrapf ''connect database after retries: '' e []), w')
    \<and> snd (snd w') = 30"
proof -
  obtain r w' where c: "Connect (platform_example False) \<lparr>db_Host = [], db_Port = [], db_User = [], db_Password = [], db_Name = [], db_SSLMode = []\<rparr> (db_example, credit_example, 0) = (r, w')" by (metis surj_pair)
  have "(\<forall>db v. fst (pf_Ping (platform_example False) db v) \<noteq> None)" "\<forall>d v. fst (pf_After (platform_example False) d v) = None"
    by (auto simp: platform_example_def)
  then show ?thesis using connect_bounded [OF platform_counts c] c by auto
qed

theorem worker_starts_witness:
  "\<exists>W. build_worker 2 (platform_example True) ''express'' 10 5 (db_example, credit_example, 0) = (Inr W, (db_example, credit_example, 1))
    \<and> wk_concurrency W = 5 \<and> 0 < wk_providerTimeout W"
proof -
  obtain cfg where cfg: "Load (pf_env (platform_example True)) = Inr cfg" using local_config by (auto simp: platform_example_def)
  have "pf_ParseURL (platform_example True) (RedisURL cfg) = Inr ()" "pf_redis_Ping (platform_example True) () = None"
    "pf_Dial (platform_example True) (BrokerURL cfg) (db_example, credit_example, 1) = (None, (db_example, credit_example, 1))"
    by (simp_all add: platform_example_def)
  from worker_starts [OF cfg platform_connects [of _ db_example credit_example 0, unfolded One_nat_def [symmetric]] this, of "''express''" 5 10 2]
  show ?thesis by auto
qed

theorem api_never_open_witness:
  "\<exists>cfg server. build_api 2 (platform_example True) (db_example, credit_example, 0) = (Inr (cfg, server), (db_example, credit_example, 1))
    \<and> serve (sv_key server) rt_example (sv_service server) (sv_admin server) binding_example (''GET'', ''/api/v1/channels'', EpListChannels, True)
        request_example no_slots (db_example, credit_example, 1)
      = Some (json_error 401 ''unauthorized'', no_slots, (db_example, credit_example, 1))"
proof -
  obtain cfg where cfg: "Load local_env = Inr cfg" using local_config by blast
  have "1 \<le> ExpressInFlight cfg" "1 \<le> NormalInFlight cfg" using Load_Inr [OF cfg] positive_integer_ok by blast+
  then obtain server where b: "build_api 2 (platform_example True) (db_example, credit_example, 0) = (Inr (cfg, server), (db_example, credit_example, 1))"
    using cfg platform_connects [of "DB cfg" db_example credit_example 0]
    by (simp add: build_api_def platform_example_def Migrate_def NewStore_def store_Ping_def Let_def NewServiceWithReservation_def make_service_def)
  have "(''GET'', ''/api/v1/channels'', EpListChannels, True) \<in> set routes" by (simp add: routes_def)
  moreover have "rq_header request_example ''X-Admin-API-Key'' = []" by (simp add: request_example_def)
  ultimately show ?thesis using api_never_open [OF b, of _ request_example rt_example binding_example no_slots "(db_example, credit_example, 1)"] b
    by fastforce
qed

end
