(* ===== verification/Duplicates.thy ===== *)
theory Duplicates
  imports RunProps
begin

text \<open>
  Two deliveries of one message that overlap: while nothing fails, both call the provider and both debit the wallet.
\<close>

section \<open>No failures\<close>

text \<open>
  A database whose calls report no error but that of a transaction's closure, and none for a row that is there, and a
  client of Redis that passes on what the script returns.
\<close>

definition unfailing :: "'w gorm \<Rightarrow> ('w \<Rightarrow> db) \<Rightarrow> bool" where
  "unfailing G dbv \<longleftrightarrow>
    (\<forall>fc w e cap w'. Transaction G fc w = (Inl (e, cap), w') \<longrightarrow> (\<exists>v v'. dbv v = dbv w \<and> fc v = (Inl e, v')))
    \<and> (\<forall>i w m. wallets (dbv w) i = Some m \<longrightarrow> fst (FirstWallet G i w) = Inr m)
    \<and> (\<forall>m w e. fst (FirstDelivery G m w) = Inl e \<longrightarrow> e = ErrRecordNotFound)
    \<and> (\<forall>i x w. fst (UpdateBalance G i x w) = None) \<and> (\<forall>t w. fst (CreateTransaction G t w) = None)
    \<and> (\<forall>d w e. fst (CreateDelivery G d w) \<noteq> Inl e) \<and> (\<forall>m u w. fst (UpdateDelivery G m u w) = None)"

definition answering :: "'w redis_client \<Rightarrow> ('w \<Rightarrow> redis_state) \<Rightarrow> bool" where
  "answering eval red \<longleftrightarrow> (\<forall>f w. \<exists>c. fst (eval f w) = fst (f ((red w)\<lparr>clock_us := c\<rparr>)))"

lemma mem_unfailing: "unfailing mem_gorm fst"
  by (auto simp: unfailing_def mem_gorm_def Let_def split: sum.splits prod.splits option.splits)

lemma beside_answering: "answering beside_client (\<lambda>w. fst (snd w))"
proof -
  have "fst (beside_client f w) = fst (f ((fst (snd w))\<lparr>clock_us := clock_us (fst (snd w))\<rparr>))" for f and w :: "db \<times> redis_state \<times> 'v"
    by (cases w) (simp add: beside_client_def split: prod.splits)
  then show ?thesis unfolding answering_def by blast
qed

lemma unfailingD:
  assumes "unfailing G dbv"
  shows "Transaction G fc w = (Inl (e, cap), w') \<Longrightarrow> \<exists>v v'. dbv v = dbv w \<and> fc v = (Inl e, v')"
    "wallets (dbv w) i = Some m \<Longrightarrow> FirstWallet G i w = (rm, w') \<Longrightarrow> rm = Inr m"
    "FirstDelivery G mid w = (Inl e, w') \<Longrightarrow> e = ErrRecordNotFound" "UpdateBalance G i x w = (ro, w') \<Longrightarrow> ro = None"
    "CreateTransaction G t w = (ro, w') \<Longrightarrow> ro = None" "CreateDelivery G d w \<noteq> (Inl e, w')" "UpdateDelivery G mid u w = (ro, w') \<Longrightarrow> ro = None"
  using assms unfolding unfailing_def by (metis fst_conv)+

lemma begin_succeeds:
  assumes "unfailing G dbv" "beginDelivery G ev w = ((tm, err), w')"
  shows "err = None"
proof (rule ccontr)
  note u = unfailingD [OF assms(1)]
  have tx: "begin_tx G ev v \<noteq> (Inl e, v')" for v e v'
    using u(6) by (auto simp: begin_tx_def load_record_def split: sum.splits prod.splits if_splits dest: u(3))
  assume "err \<noteq> None"
  then obtain e cap v where "Transaction G (begin_tx G ev) w = (Inl (e, cap), v)"
    using assms(2) by (auto simp: beginDelivery_def split: prod.splits sum.splits)
  from u(1) [OF this] tx show False by blast
qed

lemma deduct_succeeds:
  assumes "gorm_db G dbv frame" "unfailing G dbv" "wallet_has (dbv w) i b" "units a \<le> units b" "DeductAndRecord G None i a ref desc w = (r, w')"
  shows "\<exists>wal. r = Inr wal"
proof -
  note u = unfailingD [OF assms(2)]
  have tx: "\<exists>wal v'. mutate_tx G i a ref desc TransactionTypeDebit v = (Inr (CWallet wal), v')" if v: "dbv v = dbv w" for v
  proof -
    obtain m where m: "wallets (dbv v) i = Some m" "toWalletModel m = Inr \<lparr>ID = wm_ID m, Balance = b, CreatedAt = wm_CreatedAt m, UpdatedAt = wm_UpdatedAt m\<rparr>"
      using assms(3) v toWallet_balance by (auto simp: wallet_has_def)
    show ?thesis using m(2) assms(4) u(2) [OF m(1)]
      by (auto simp: mutate_tx_def CanAfford_iff Let_def split: prod.splits option.splits sum.splits dest: u(4,5))
  qed
  obtain x w1 where t: "Transaction G (mutate_tx G i a ref desc TransactionTypeDebit) w = (x, w1)" by (metis surj_pair)
  have "\<exists>wal. x = Inr (CWallet wal)"
  proof (cases x)
    case (Inl y)
    then obtain v e v' where "dbv v = dbv w" "mutate_tx G i a ref desc TransactionTypeDebit v = (Inl e, v')" using u(1) t by (cases y) blast
    then show ?thesis using tx [of v] by simp
  next
    case (Inr y)
    from gorm_db.transaction_ok [OF assms(1) t] show ?thesis
    proof (elim disjE exE conjE)
      fix v x' v' assume v: "dbv v = dbv w" "mutate_tx G i a ref desc TransactionTypeDebit v = (x', v')"
        and "case x' of Inl e \<Rightarrow> x = Inl (e, CNone) \<and> dbv w1 = dbv w
          | Inr c \<Rightarrow> x = Inr c \<and> dbv w1 = dbv v' \<or> (\<exists>e. x = Inl (e, c)) \<and> (dbv w1 = dbv w \<or> dbv w1 = dbv v')"
      then show ?thesis using tx [OF v(1)] v(2) Inr by auto
    qed (use Inr in simp)
  qed
  then show ?thesis using assms(5) t by (auto simp: DeductAndRecord_def mutateAndRecord_def finish_def)
qed

lemma debit_succeeds:
  assumes "gorm_db G dbv frame" "unfailing G dbv" "wallet_has (dbv w) (ev_WalletID ev) b" "db_money \<lparr>units = ev_CostUnits ev\<rparr>" "ev_CostUnits ev \<le> units b"
    "Transaction G (debit_tx G now ev) w = (r, w')"
  shows "\<exists>x. r = Inr x"
proof (cases r)
  case (Inl y)
  note u = unfailingD [OF assms(2)]
  have m: "MoneyFromUnits (ev_CostUnits ev) = Inr \<lparr>units = ev_CostUnits ev\<rparr>" using assms(4) by (simp add: MoneyFromUnits_def db_money_def)
  obtain e cap where y: "y = (e, cap)" by (cases y)
  obtain v v' where v: "dbv v = dbv w" "debit_tx G now ev v = (Inl e, v')" using u(1) assms(6) Inl y by blast
  obtain x v1 where d: "DeductAndRecord G None (ev_WalletID ev) \<lparr>units = ev_CostUnits ev\<rparr> (ev_MessageID ev) ''SMS delivery'' v = (x, v1)" by (metis surj_pair)
  obtain wal where "x = Inr wal" using deduct_succeeds [OF assms(1,2) _ _ d, of b] assms(3,5) v(1) by auto
  then have False using v(2) m d by (auto simp: debit_tx_def split: prod.splits option.splits dest: u(7))
  then show ?thesis ..
qed simp

lemma store_answers:
  assumes "answering eval red"
  shows "rs_IsReserved (redis_reservations fuel eval loader) m w = (rb, w') \<Longrightarrow> \<exists>b. rb = Inr b"
    "rs_Commit (redis_reservations fuel eval loader) m w = (ro, w') \<Longrightarrow> ro = None"
proof -
  have e: "\<exists>c. fst (eval f w) = fst (f ((red w)\<lparr>clock_us := c\<rparr>))" for f w using assms unfolding answering_def by blast
  show "rs_IsReserved (redis_reservations fuel eval loader) m w = (rb, w') \<Longrightarrow> \<exists>b. rb = Inr b"
    using e [of "lbind (redis_EXISTS (reservationKey m)) (\<lambda>n. lret (RInt n))" w]
    by (auto simp: redis_reservations_def IsReserved_def lua_defs split: prod.splits sum.splits reply.splits)
  show "rs_Commit (redis_reservations fuel eval loader) m w = (ro, w') \<Longrightarrow> ro = None"
    using e [of "commitScript (reservationKey m)" w]
    by (auto simp: redis_reservations_def Commit_def commitScript_def lua_defs split: prod.splits sum.splits reply.splits if_splits)
qed

lemma delivered_wallet:
  assumes "delivered_db ev b d d'" "wallet_has d (ev_WalletID ev) b" "db_money \<lparr>units = ev_CostUnits ev\<rparr>"
  shows "wallet_has d' (ev_WalletID ev) \<lparr>units = units b - ev_CostUnits ev\<rparr>"
    "length (wallet_transactions d') = Suc (length (wallet_transactions d))"
proof -
  have "0 \<le> units b - ev_CostUnits ev" "units b - ev_CostUnits ev \<le> units b" using assms(1,3) by (auto simp: delivered_db_def db_money_def)
  then have "db_money \<lparr>units = units b - ev_CostUnits ev\<rparr>" using assms(2) by (auto simp: wallet_has_def db_money_def)
  then show "wallet_has d' (ev_WalletID ev) \<lparr>units = units b - ev_CostUnits ev\<rparr>"
    "length (wallet_transactions d') = Suc (length (wallet_transactions d))"
    using assms(1,2) by (auto simp: delivered_db_def changed_def updated_def set_delivery_def add_transaction_def set_balance_def wallet_has_def)
qed

section \<open>Two deliveries\<close>

text \<open>A schedule says which delivery takes the next step.\<close>

fun interleave :: "'w Worker \<Rightarrow> 'w ReservationStore \<Rightarrow> ('w \<Rightarrow> time \<times> 'w) \<Rightarrow> ctx \<Rightarrow> nat list \<Rightarrow>
    (DeliveryEvent \<times> stage) list \<times> 'w \<Rightarrow> (DeliveryEvent \<times> stage) list \<times> 'w" where
  "interleave W R now c [] (js, w) = (js, w)"
| "interleave W R now c (k # ks) (js, w) = (case js ! k of (ev, st) \<Rightarrow> (case worker_step W R now c ev st w of
     (st', w') \<Rightarrow> interleave W R now c ks (js[k := (ev, st')], w')))"

text \<open>Both deliveries take the same step.\<close>

lemma interleave_both:
  assumes "worker_step W R now c ev a w = (b, w1)" "worker_step W R now c ev a w1 = (b', w2)"
  shows "interleave W R now c (0 # 1 # ks) ([(ev, a), (ev, a)], w) = interleave W R now c ks ([(ev, b), (ev, b')], w2)"
  using assms by (simp del: worker_step.simps)

locale lucky_flow = worker_flow G R dbv cred ok sent send now
  for G :: "'w gorm" and R :: "'w ReservationStore" and dbv :: "'w \<Rightarrow> db" and cred :: "'w \<Rightarrow> credit"
    and ok :: "'w \<Rightarrow> bool" and sent :: "'w \<Rightarrow> (ctx \<times> DeliveryEvent) list"
    and send :: "ctx \<Rightarrow> DeliveryEvent \<Rightarrow> 'w \<Rightarrow> error option \<times> 'w" and now :: "'w \<Rightarrow> time \<times> 'w" +
  fixes W :: "'w Worker" and ev :: DeliveryEvent
  assumes db_unfailing: "unfailing G dbv"
    and answers: "rs_IsReserved R m w = (rb, w') \<Longrightarrow> \<exists>b. rb = Inr b" "rs_Commit R m w = (ro, w') \<Longrightarrow> ro = None"
    and sends: "send c ev w = (ro, w') \<Longrightarrow> ro = None"
    and in_time: "ev_DeadlineAt ev = zero_time \<or> fst (now w) \<le> ev_DeadlineAt ev"
    and worker: "wk_db W = G" "wk_sender W = send"
    and cost: "db_money \<lparr>units = ev_CostUnits ev\<rparr>"
begin

text \<open>What the steps before the debit do not change, whichever delivery takes them.\<close>

definition before_debit :: "'w \<Rightarrow> Money \<Rightarrow> nat \<Rightarrow> credit \<Rightarrow> DeliveryEvent list \<Rightarrow> bool" where
  "before_debit w b n cr evs \<longleftrightarrow> ok w \<and> cred w = cr \<and> map snd (sent w) = evs \<and> \<not> terminal_in (dbv w) (ev_MessageID ev)
    \<and> wallet_has (dbv w) (ev_WalletID ev) b \<and> length (wallet_transactions (dbv w)) = n \<and> c_held cr (ev_MessageID ev) \<noteq> None"

lemma begin_lucky:
  assumes "before_debit w b n cr evs"
  shows "\<exists>w1. worker_step W R now c ev Beginning w = (Deciding, w1) \<and> before_debit w1 b n cr evs"
proof -
  obtain tm err w1 where 1: "beginDelivery G ev w = ((tm, err), w1)" by (metis surj_pair)
  have "err = None" by (rule begin_succeeds [OF db_unfailing 1])
  with db.beginDelivery_effect [OF 1] have e: "cred w1 = cred w" "ok w1 = ok w" "sent w1 = sent w" "begun ev (dbv w) (dbv w1)"
    "tm \<longleftrightarrow> terminal_in (dbv w) (ev_MessageID ev)" by simp_all
  have "before_debit w1 b n cr evs" "\<not> tm"
    using assms e(1-3,5) begun_terminal [OF e(4)] begun_wallets [OF e(4)] by (simp_all add: before_debit_def wallet_has_def)
  then show ?thesis using 1 worker(1) \<open>err = None\<close> by simp
qed

lemma decide_lucky:
  assumes "before_debit w b n cr evs"
  shows "\<exists>w1. worker_step W R now c ev Deciding w = (Checking, w1) \<and> before_debit w1 b n cr evs"
proof -
  obtain late w1 where 1: "expired now ev w = (late, w1)" by (metis surj_pair)
  then have "\<not> late" using in_time [of w] by (auto simp: expired_def split: if_splits prod.splits)
  then show ?thesis using expired_same [OF 1] assms 1 by (auto simp: before_debit_def)
qed

lemma check_lucky:
  assumes "before_debit w b n cr evs"
  shows "\<exists>w1. worker_step W R now c ev Checking w = (Sending, w1) \<and> before_debit w1 b n cr evs"
proof -
  obtain rb w1 where 1: "rs_IsReserved R (ev_MessageID ev) w = (rb, w1)" by (metis surj_pair)
  obtain x where x: "rb = Inr x" using answers(1) [OF 1] by blast
  have "x" "before_debit w1 b n cr evs" using res.is_reserved_law [OF _ 1] assms x by (simp_all add: before_debit_def)
  then show ?thesis using 1 x by simp
qed

lemma send_lucky:
  assumes "before_debit w b n cr evs"
  shows "\<exists>w1. worker_step W R now c ev Sending w = (Debiting, w1) \<and> before_debit w1 b n cr (evs @ [ev])"
proof -
  obtain c' w1 where 1: "providerContext W now c ev w = (c', w1)" by (metis surj_pair)
  obtain ro w2 where 2: "send c' ev w1 = (ro, w2)" by (metis surj_pair)
  have "before_debit w2 b n cr (evs @ [ev])" using providerContext_same [OF 1] send_law [OF 2] sends [OF 2] assms by (simp add: before_debit_def)
  then show ?thesis using 1 2 sends [OF 2] worker(2) by simp
qed

lemma debit_lucky:
  assumes "wallet_has (dbv w) (ev_WalletID ev) b" "ev_CostUnits ev \<le> units b" "ok w"
  shows "\<exists>w1. worker_step W R now c ev Debiting w = (Committing, w1) \<and> wallet_has (dbv w1) (ev_WalletID ev) \<lparr>units = units b - ev_CostUnits ev\<rparr>
    \<and> length (wallet_transactions (dbv w1)) = Suc (length (wallet_transactions (dbv w))) \<and> ok w1 \<and> cred w1 = cred w \<and> sent w1 = sent w"
proof -
  obtain x w1 where 1: "Transaction G (debit_tx G now ev) w = (x, w1)" by (metis surj_pair)
  then obtain y where "x = Inr y" using debit_succeeds [OF db.gorm_db_axioms db_unfailing assms(1) cost assms(2) 1] by blast
  with debit_effect [OF 1 assms(1) cost] have e: "cred w1 = cred w" "ok w1 = ok w" "sent w1 = sent w" "delivered_db ev b (dbv w) (dbv w1)" by simp_all
  then show ?thesis using delivered_wallet [OF e(4) assms(1) cost] assms(3) 1 \<open>x = Inr y\<close> worker(1) by simp
qed

lemma commit_lucky:
  assumes "ok w"
  shows "\<exists>w1. worker_step W R now c ev Committing w = (Returned None, w1) \<and> ok w1 \<and> dbv w1 = dbv w \<and> sent w1 = sent w
    \<and> cred w1 = commit_credit (ev_MessageID ev) (cred w)"
proof -
  obtain ro w1 where 1: "rs_Commit R (ev_MessageID ev) w = (ro, w1)" by (metis surj_pair)
  show ?thesis using res.commit_law [OF assms 1] answers(2) [OF 1] 1 by simp
qed

lemma both_debit:
  assumes "ok w" "\<not> terminal_in (dbv w) (ev_MessageID ev)" "wallet_has (dbv w) (ev_WalletID ev) b" "2 * ev_CostUnits ev \<le> units b"
    "c_held (cred w) (ev_MessageID ev) \<noteq> None"
  shows "\<exists>w'. interleave W R now c [0, 1, 0, 1, 0, 1, 0, 1, 0, 1, 0, 1] ([(ev, Beginning), (ev, Beginning)], w) = ([(ev, Returned None), (ev, Returned None)], w')
    \<and> map snd (sent w') = map snd (sent w) @ [ev, ev] \<and> wallet_has (dbv w') (ev_WalletID ev) \<lparr>units = units b - 2 * ev_CostUnits ev\<rparr>
    \<and> length (wallet_transactions (dbv w')) = length (wallet_transactions (dbv w)) + 2 \<and> cred w' = commit_credit (ev_MessageID ev) (cred w)"
proof -
  let ?n = "length (wallet_transactions (dbv w))" and ?evs = "map snd (sent w)"
  have 0: "before_debit w b ?n (cred w) ?evs" using assms by (simp add: before_debit_def)
  obtain w1 where 1: "worker_step W R now c ev Beginning w = (Deciding, w1)" "before_debit w1 b ?n (cred w) ?evs" using begin_lucky [OF 0] by blast
  obtain w2 where 2: "worker_step W R now c ev Beginning w1 = (Deciding, w2)" "before_debit w2 b ?n (cred w) ?evs" using begin_lucky [OF 1(2)] by blast
  obtain w3 where 3: "worker_step W R now c ev Deciding w2 = (Checking, w3)" "before_debit w3 b ?n (cred w) ?evs" using decide_lucky [OF 2(2)] by blast
  obtain w4 where 4: "worker_step W R now c ev Deciding w3 = (Checking, w4)" "before_debit w4 b ?n (cred w) ?evs" using decide_lucky [OF 3(2)] by blast
  obtain w5 where 5: "worker_step W R now c ev Checking w4 = (Sending, w5)" "before_debit w5 b ?n (cred w) ?evs" using check_lucky [OF 4(2)] by blast
  obtain w6 where 6: "worker_step W R now c ev Checking w5 = (Sending, w6)" "before_debit w6 b ?n (cred w) ?evs" using check_lucky [OF 5(2)] by blast
  obtain w7 where 7: "worker_step W R now c ev Sending w6 = (Debiting, w7)" "before_debit w7 b ?n (cred w) (?evs @ [ev])" using send_lucky [OF 6(2)] by blast
  obtain w8 where 8: "worker_step W R now c ev Sending w7 = (Debiting, w8)" "before_debit w8 b ?n (cred w) ((?evs @ [ev]) @ [ev])" using send_lucky [OF 7(2)] by blast
  have c: "0 \<le> ev_CostUnits ev" using cost by (simp add: db_money_def)
  have 80: "wallet_has (dbv w8) (ev_WalletID ev) b" "ok w8" using 8(2) by (simp_all add: before_debit_def)
  from debit_lucky [OF 80(1) _ 80(2), of c] assms(4) c obtain w9 where 9: "worker_step W R now c ev Debiting w8 = (Committing, w9)"
    "wallet_has (dbv w9) (ev_WalletID ev) \<lparr>units = units b - ev_CostUnits ev\<rparr>" "length (wallet_transactions (dbv w9)) = Suc (length (wallet_transactions (dbv w8)))"
    "ok w9" "cred w9 = cred w8" "sent w9 = sent w8" by auto
  from debit_lucky [OF 9(2) _ 9(4), of c] assms(4) c obtain w10 where 10: "worker_step W R now c ev Debiting w9 = (Committing, w10)"
    "wallet_has (dbv w10) (ev_WalletID ev) \<lparr>units = units b - 2 * ev_CostUnits ev\<rparr>" "length (wallet_transactions (dbv w10)) = Suc (length (wallet_transactions (dbv w9)))"
    "ok w10" "cred w10 = cred w9" "sent w10 = sent w9" by (auto simp: algebra_simps)
  from commit_lucky [OF 10(4), of c] obtain w11 where 11: "worker_step W R now c ev Committing w10 = (Returned None, w11)" "ok w11" "dbv w11 = dbv w10"
    "sent w11 = sent w10" "cred w11 = commit_credit (ev_MessageID ev) (cred w10)" by blast
  from commit_lucky [OF 11(2), of c] obtain w12 where 12: "worker_step W R now c ev Committing w11 = (Returned None, w12)" "dbv w12 = dbv w11"
    "sent w12 = sent w11" "cred w12 = commit_credit (ev_MessageID ev) (cred w11)" by blast
  have "interleave W R now c [0, 1, 0, 1, 0, 1, 0, 1, 0, 1, 0, 1] ([(ev, Beginning), (ev, Beginning)], w) = ([(ev, Returned None), (ev, Returned None)], w12)"
    by (simp only: interleave_both [OF 1(1) 2(1)] interleave_both [OF 3(1) 4(1)] interleave_both [OF 5(1) 6(1)] interleave_both [OF 7(1) 8(1)]
        interleave_both [OF 9(1) 10(1)] interleave_both [OF 11(1) 12(1)] interleave.simps(1))
  moreover have "cred w12 = commit_credit (ev_MessageID ev) (cred w)" using 8(2) 9(5) 10(5) 11(5) 12(4) by (simp add: before_debit_def commit_credit_def)
  ultimately show ?thesis using 8(2) 9(3,6) 10(2,3,6) 11(3,4) 12(2,3) by (intro exI [of _ w12]) (simp add: before_debit_def)
qed

end

lemma redis_lucky_flow:
  assumes "gorm_db G dbv (\<lambda>w. (red w, sent w))" "redis_client_ok eval red (\<lambda>w. (dbv w, sent w))" "sender_ok (\<lambda>w. (dbv w, red w)) sent (wk_sender W)"
    "clock_ok (\<lambda>w. (dbv w, red w, sent w)) now" "wk_db W = G" "unfailing G dbv" "answering eval red" "\<forall>c w. fst (wk_sender W c ev w) = None"
    "ev_DeadlineAt ev = zero_time \<or> (\<forall>w. fst (now w) \<le> ev_DeadlineAt ev)" "db_money \<lparr>units = ev_CostUnits ev\<rparr>"
  shows "lucky_flow G (redis_reservations (Suc fuel) eval loader) dbv (\<lambda>w. redis_credit (red w)) (\<lambda>w. redis_credit_ok (red w)) sent (wk_sender W) now W ev"
proof (intro lucky_flow.intro redis_worker_flow [OF assms(1-4)] lucky_flow_axioms.intro assms(5,6,10) refl)
  let ?R = "redis_reservations (Suc fuel) eval loader"
  show "rs_IsReserved ?R m w = (rb, w') \<Longrightarrow> \<exists>b. rb = Inr b" "rs_Commit ?R m w = (ro, w') \<Longrightarrow> ro = None" for m w rb ro w'
    by (rule store_answers [OF assms(7)], assumption)+
  show "wk_sender W c ev w = (ro, w') \<Longrightarrow> ro = None" for c w ro w' using assms(8) by (metis fst_conv)
  show "ev_DeadlineAt ev = zero_time \<or> fst (now w) \<le> ev_DeadlineAt ev" for w using assms(9) by blast
qed

text \<open>
  C10: duplicates that overlap are charged twice. Neither the reservation check nor the debit claims the message: when two deliveries of one message
  take turns, and no call fails, both find no final record and the credit reserved, both hand the message to a
  provider, both debit the wallet, which has the money, and both are acknowledged. The wallet pays twice, with two ledger entries, for
  one reservation, and the available credit does not change.
\<close>

theorem duplicates_charged_twice:
  assumes "gorm_db G dbv (\<lambda>w. (red w, sent w))" "redis_client_ok eval red (\<lambda>w. (dbv w, sent w))" "sender_ok (\<lambda>w. (dbv w, red w)) sent (wk_sender W)"
    "clock_ok (\<lambda>w. (dbv w, red w, sent w)) now" "wk_db W = G" "unfailing G dbv" "answering eval red" "\<forall>c w. fst (wk_sender W c ev w) = None"
    "ev_DeadlineAt ev = zero_time \<or> (\<forall>w. fst (now w) \<le> ev_DeadlineAt ev)"
    "redis_credit_ok (red w)" "held (red w) (ev_MessageID ev) \<noteq> None" "\<not> terminal_in (dbv w) (ev_MessageID ev)"
    "wallet_has (dbv w) (ev_WalletID ev) b" "db_money \<lparr>units = ev_CostUnits ev\<rparr>" "2 * ev_CostUnits ev \<le> units b"
  shows "\<exists>w'. interleave W (redis_reservations (Suc fuel) eval loader) now c [0, 1, 0, 1, 0, 1, 0, 1, 0, 1, 0, 1] ([(ev, Beginning), (ev, Beginning)], w)
        = ([(ev, Returned None), (ev, Returned None)], w')
    \<and> map snd (sent w') = map snd (sent w) @ [ev, ev]
    \<and> wallet_has (dbv w') (ev_WalletID ev) \<lparr>units = units b - 2 * ev_CostUnits ev\<rparr>
    \<and> length (wallet_transactions (dbv w')) = length (wallet_transactions (dbv w)) + 2
    \<and> (\<forall>i. available (red w') i = available (red w) i)"
proof -
  have "c_held (redis_credit (red w)) (ev_MessageID ev) \<noteq> None" using assms(11) by (simp add: redis_credit_def)
  from lucky_flow.both_debit [OF redis_lucky_flow [OF assms(1-9,14), of fuel loader] assms(10,12,13,15) this, of c]
  obtain w' where w': "interleave W (redis_reservations (Suc fuel) eval loader) now c [0, 1, 0, 1, 0, 1, 0, 1, 0, 1, 0, 1] ([(ev, Beginning), (ev, Beginning)], w)
        = ([(ev, Returned None), (ev, Returned None)], w')"
    "map snd (sent w') = map snd (sent w) @ [ev, ev]" "wallet_has (dbv w') (ev_WalletID ev) \<lparr>units = units b - 2 * ev_CostUnits ev\<rparr>"
    "length (wallet_transactions (dbv w')) = length (wallet_transactions (dbv w)) + 2"
    "redis_credit (red w') = commit_credit (ev_MessageID ev) (redis_credit (red w))" by blast
  have "available (red v) i = c_avail (redis_credit (red v)) i" for v i by (simp add: redis_credit_def)
  then have "\<forall>i. available (red w') i = available (red w) i" using w'(5) by (simp add: commit_credit_def)
  with w'(1-4) show ?thesis by blast
qed

section \<open>An example\<close>

text \<open>A provider that takes every message, and a clock that stands still.\<close>

definition taking :: "ctx \<Rightarrow> DeliveryEvent \<Rightarrow> gateway \<Rightarrow> error option \<times> gateway" where
  "taking c ev w = (case w of (d, r, m, t, l) \<Rightarrow> (None, (d, r, m, t, l @ [(c, ev)])))"

definition frozen :: "gateway \<Rightarrow> time \<times> gateway" where
  "frozen w = (0, w)"

lemma lucky_contracts: "sender_ok (\<lambda>w. (fst w, fst (snd w))) log_of (wk_sender (worker_example\<lparr>wk_sender := taking\<rparr>))"
  "clock_ok (\<lambda>w. (fst w, fst (snd w), log_of w)) frozen" "wk_db (worker_example\<lparr>wk_sender := taking\<rparr>) = mem_gorm"
  "\<forall>c w. fst (wk_sender (worker_example\<lparr>wk_sender := taking\<rparr>) c ev w) = None" "\<forall>w. fst (frozen w) \<le> ev_DeadlineAt event_example"
  by (auto simp: sender_ok_def clock_ok_def taking_def frozen_def worker_example_ok(1) event_example_sel split: prod.splits)

lemma event_example_money: "db_money \<lparr>units = ev_CostUnits event_example\<rparr>"
  by (simp add: event_example_sel db_money_def)

interpretation lucky_example: lucky_flow mem_gorm "redis_reservations (Suc 0) beside_client None" fst "\<lambda>w. redis_credit (fst (snd w))"
  "\<lambda>w. redis_credit_ok (fst (snd w))" log_of "wk_sender (worker_example\<lparr>wk_sender := taking\<rparr>)" frozen "worker_example\<lparr>wk_sender := taking\<rparr>" event_example
  by (rule redis_lucky_flow [OF gateway_contracts(1,2) lucky_contracts(1,2,3) mem_unfailing beside_answering lucky_contracts(4) disjI2 [OF lucky_contracts(5)]
        event_example_money])

theorem duplicates_charged_twice_witness:
  "\<exists>w'. interleave (worker_example\<lparr>wk_sender := taking\<rparr>) (redis_reservations (Suc 0) beside_client None) frozen None
        [0, 1, 0, 1, 0, 1, 0, 1, 0, 1, 0, 1] ([(event_example, Beginning), (event_example, Beginning)], gateway_example 0)
      = ([(event_example, Returned None), (event_example, Returned None)], w')
    \<and> map snd (log_of w') = [event_example, event_example] \<and> wallet_has (fst w') 7 \<lparr>units = 6000\<rparr> \<and> available (fst (snd w')) 7 = Some 18000"
proof -
  have "held reserved_example ''SMS-1'' \<noteq> None" "\<not> terminal_in db_example ''SMS-1''" "db_money \<lparr>units = 12000\<rparr>" "2 * 12000 \<le> units \<lparr>units = 30000\<rparr>"
    using gateway_example_ready(3) by (simp_all add: terminal_in_def db_example_def db_money_def)
  from duplicates_charged_twice [OF gateway_contracts(1,2) lucky_contracts(1,2,3) mem_unfailing beside_answering lucky_contracts(4)
      disjI2 [OF lucky_contracts(5)], of "gateway_example 0" "\<lparr>units = 30000\<rparr>" 0 None None, unfolded gateway_example_sel event_example_sel,
      OF gateway_example_ready(1) this(1,2) db_example_wallet this(3,4)]
  obtain w' where w': "interleave (worker_example\<lparr>wk_sender := taking\<rparr>) (redis_reservations (Suc 0) beside_client None) frozen None
        [0, 1, 0, 1, 0, 1, 0, 1, 0, 1, 0, 1] ([(event_example, Beginning), (event_example, Beginning)], gateway_example 0)
      = ([(event_example, Returned None), (event_example, Returned None)], w')"
    "map snd (log_of w') = map snd ([] :: (ctx \<times> DeliveryEvent) list) @ [event_example, event_example]" "wallet_has (fst w') 7 \<lparr>units = units \<lparr>units = 30000\<rparr> - 2 * 12000\<rparr>"
    "available (fst (snd w')) 7 = available reserved_example 7" by blast
  have "map snd (log_of w') = [event_example, event_example]" using w'(2) by simp
  moreover have "wallet_has (fst w') 7 \<lparr>units = 6000\<rparr>" using w'(3) by simp
  moreover have "available (fst (snd w')) 7 = Some 18000" by (rule trans [OF w'(4) gateway_example_ready(2)])
  ultimately show ?thesis using w'(1) by (intro exI [of _ w'] conjI)
qed

end
