(* ===== verification/Interleaving.thy ===== *)
theory Interleaving
  imports Steps GatewayRuns
begin

text \<open>
  Requests and deliveries that overlap. Any number of requests and deliveries is under way, each at its
  stage, and any of them takes the next step; processes may stop at any point. The stores stay coherent
  as long as no message is processed by two workers at the same time; what happens otherwise
  is shown at the end.
\<close>

section \<open>Rows up to their bookkeeping\<close>

text \<open>What coherence depends on of an outbox row.\<close>

definition row_key :: "SMSOutboxModel \<Rightarrow> string \<times> json" where
  "row_key row = (om_MessageID row, om_Payload row)"

definition key_due :: "db \<Rightarrow> credit \<Rightarrow> int \<Rightarrow> string \<times> json \<Rightarrow> int" where
  "key_due d cr i k = (if payload_wallet (snd k) = i \<and> \<not> terminal_in d (fst k) then held_for cr (fst k) else 0)"

lemma due_key: "due d cr i row = key_due d cr i (row_key row)"
  by (simp add: due_def key_due_def row_key_def)

lemma row_for_key: "row_key row' = row_key row \<Longrightarrow> row_for cr row' ev \<longleftrightarrow> row_for cr row ev"
  by (simp add: row_for_def names_def row_key_def)

lemma owed_keys: "owed d cr i = sum_mset (image_mset (key_due d cr i) (mset (map row_key (sms_outbox d))))"
  by (simp add: owed_def due_key [abs_def] comp_def sum_mset_sum_list [symmetric] image_mset.compositionality)

lemma sum_nonneg_mset: "(\<And>x. x \<in># M \<Longrightarrow> 0 \<le> f x) \<Longrightarrow> 0 \<le> sum_mset (image_mset f M)" for f :: "'a \<Rightarrow> int"
  by (induction M) (auto simp: add_nonneg_nonneg)

lemma distinct_fewer: "distinct xs \<Longrightarrow> mset ys \<subseteq># mset xs \<Longrightarrow> distinct ys"
proof -
  assume "distinct xs" "mset ys \<subseteq># mset xs"
  then have "count (mset ys) a \<le> 1" for a
    using mset_subset_eq_count [of "mset ys" "mset xs" a] distinct_count_atmost_1 [of xs] by (metis le_trans one_le_numeral order_refl zero_le_one)
  then show ?thesis by (auto simp: distinct_count_atmost_1 le_Suc_eq count_eq_zero_iff)
qed

text \<open>Coherence survives when rows change places or disappear, as long as no record is orphaned.\<close>

lemma coherent_fewer:
  assumes c: "coherent d cr" and rows: "mset (map row_key (sms_outbox d')) \<subseteq># mset (map row_key (sms_outbox d))"
    and same: "wallets d' = wallets d" "sms_deliveries d' = sms_deliveries d" "channels d' = channels d" "sms_costs d' = sms_costs d"
    and orphans: "dom (sms_deliveries d) \<subseteq> om_MessageID ` set (sms_outbox d')"
  shows "coherent d' cr"
proof -
  let ?K = "mset (map row_key (sms_outbox d))" and ?K' = "mset (map row_key (sms_outbox d'))"
  obtain N where N: "?K = ?K' + N" using rows by (metis subset_mset.le_iff_add)
  have due: "key_due d' cr = key_due d cr" using same(2) by (simp add: key_due_def terminal_in_def fun_eq_iff)
  have pos: "0 \<le> key_due d cr i k" if "k \<in># ?K" for i k
  proof -
    have "k \<in> row_key ` set (sms_outbox d)" using that by simp
    then obtain row where "row \<in> set (sms_outbox d)" "k = row_key row" by blast
    then show ?thesis using due_nonneg [OF c, of row i] by (simp add: due_key)
  qed
  have "k \<in># ?K" if "k \<in># N" for k using N that by (metis union_iff)
  then have "0 \<le> sum_mset (image_mset (key_due d cr i) N)" for i by (intro sum_nonneg_mset pos)
  then have less: "owed d' cr i \<le> owed d cr i" for i unfolding owed_keys due N by simp
  have "covered d' cr" unfolding covered_def
  proof (intro allI impI)
    fix i n assume "c_avail cr i = Some n"
    from coherentD(4) [OF c this] obtain b where "wallet_has d i b" "n + owed d cr i \<le> units b" by blast
    then show "\<exists>b. wallet_has d' i b \<and> n + owed d' cr i \<le> units b" using less [of i] same(1) by (auto simp: wallet_has_def)
  qed
  moreover have "\<exists>ev. row_for cr row ev" if "row \<in> set (sms_outbox d')" for row
  proof -
    have "row_key row \<in># ?K'" using that by simp
    then have "row_key row \<in># ?K" using rows by (rule mset_subset_eqD [rotated])
    then have "row_key row \<in> row_key ` set (sms_outbox d)" by simp
    then obtain row0 where "row0 \<in> set (sms_outbox d)" "row_key row = row_key row0" by blast
    then show ?thesis using coherentD(2) [OF c] row_for_key by blast
  qed
  moreover have "distinct (map om_MessageID (sms_outbox d'))"
  proof -
    have e: "mset (map om_MessageID rs) = image_mset fst (mset (map row_key rs))" for rs
      by (simp add: row_key_def multiset.map_comp comp_def)
    have "mset (map om_MessageID (sms_outbox d')) \<subseteq># mset (map om_MessageID (sms_outbox d))" unfolding e by (rule image_mset_subseteq_mono [OF rows])
    then show ?thesis by (rule distinct_fewer [OF coherentD(1) [OF c]])
  qed
  ultimately show ?thesis using orphans same coherentD(5) [OF c] by (simp add: coherent_def stocked_def)
qed

section \<open>Announced rows\<close>

text \<open>The tables as if rows that are about to be stored were there already.\<close>

definition announced :: "SMSOutboxModel list \<Rightarrow> db \<Rightarrow> db" where
  "announced P d = d\<lparr>sms_outbox := sms_outbox d @ P\<rparr>"

lemma announced_sel [simp]:
  "sms_outbox (announced P d) = sms_outbox d @ P" "sms_deliveries (announced P d) = sms_deliveries d" "wallets (announced P d) = wallets d"
  "channels (announced P d) = channels d" "sms_costs (announced P d) = sms_costs d" "terminal_in (announced P d) = terminal_in d"
  "wallet_has (announced P d) = wallet_has d"
  by (simp_all add: announced_def terminal_in_def wallet_has_def fun_eq_iff)

lemma announced_set_delivery: "announced P (set_delivery m r d) = set_delivery m r (announced P d)"
  by (simp add: announced_def set_delivery_def)

lemma announced_wallet: "announced P (add_transaction tr j t d) = add_transaction tr j t (announced P d)"
    "announced P (set_balance i x t d) = set_balance i x t (announced P d)"
  by (simp_all add: announced_def add_transaction_def set_balance_def)

lemma announced_begun: "begun ev d d1 \<Longrightarrow> begun ev (announced P d) (announced P d1)"
  by (auto simp: begun_def announced_set_delivery split: if_splits)

lemma announced_updated: "updated m u d d1 \<Longrightarrow> updated m u (announced P d) (announced P d1)"
  by (auto simp: updated_def announced_set_delivery)

lemma announced_refunded: "refunded_db ev reason d d1 \<Longrightarrow> refunded_db ev reason (announced P d) (announced P d1)"
  unfolding refunded_db_def by (rule announced_updated)

lemma announced_changed: "changed i b x ty ref desc d d1 \<Longrightarrow> changed i b x ty ref desc (announced P d) (announced P d1)"
  unfolding changed_def by (metis announced_wallet)

lemma announced_delivered: "delivered_db ev b d d1 \<Longrightarrow> delivered_db ev b (announced P d) (announced P d1)"
  unfolding delivered_db_def by (blast intro: announced_changed announced_updated)

section \<open>A step of a delivery\<close>

text \<open>What a step leaves alone: the outbox, and of records and reservations all but those of its message.\<close>

definition confined :: "string \<Rightarrow> db \<Rightarrow> credit \<Rightarrow> db \<Rightarrow> credit \<Rightarrow> bool" where
  "confined m d cr d' cr' \<longleftrightarrow> sms_outbox d' = sms_outbox d
    \<and> (\<forall>x. x \<noteq> m \<longrightarrow> sms_deliveries d' x = sms_deliveries d x \<and> c_held cr' x = c_held cr x)
    \<and> (c_held cr' m = c_held cr m \<or> c_held cr' m = None)
    \<and> (\<forall>i. c_avail cr i \<noteq> None \<longrightarrow> c_avail cr' i \<noteq> None) \<and> (terminal_in d m \<longrightarrow> terminal_in d' m)"

text \<open>What a delivery may rely on at its stage, as long as nobody else processes its message.\<close>

definition under_way :: "DeliveryEvent \<Rightarrow> db \<Rightarrow> bool" where
  "under_way ev d \<longleftrightarrow> sms_deliveries d (ev_MessageID ev) \<noteq> None \<and> \<not> terminal_in d (ev_MessageID ev)"

fun stage_ok :: "DeliveryEvent \<Rightarrow> stage \<Rightarrow> db \<Rightarrow> credit \<Rightarrow> bool" where
  "stage_ok ev Beginning d cr \<longleftrightarrow> True"
| "stage_ok ev Committing d cr \<longleftrightarrow> terminal_in d (ev_MessageID ev)"
| "stage_ok ev (Returned r) d cr \<longleftrightarrow> (r = None \<longrightarrow> terminal_in d (ev_MessageID ev))"
| "stage_ok ev Sending d cr \<longleftrightarrow> under_way ev d \<and> c_held cr (ev_MessageID ev) \<noteq> None"
| "stage_ok ev Debiting d cr \<longleftrightarrow> under_way ev d \<and> c_held cr (ev_MessageID ev) \<noteq> None"
| "stage_ok ev (Marking reason) d cr \<longleftrightarrow> under_way ev d \<and> c_held cr (ev_MessageID ev) = None"
| "stage_ok ev _ d cr \<longleftrightarrow> under_way ev d"

lemma begun_under_way: "begun ev d d1 \<Longrightarrow> \<not> terminal_in d (ev_MessageID ev) \<Longrightarrow> under_way ev d1"
  by (simp add: under_way_def begun_terminal begun_record)

lemma begun_confined: "begun ev d d1 \<Longrightarrow> confined (ev_MessageID ev) d cr d1 cr"
  by (auto simp: begun_def confined_def set_delivery_def terminal_in_def split: if_splits)

lemma confined_refl [simp]: "confined m d cr d cr"
  by (simp add: confined_def)

lemma refunded_final:
  assumes "refunded_db ev reason d d1" "sms_deliveries d (ev_MessageID ev) \<noteq> None"
  shows "terminal_in d1 (ev_MessageID ev)" "confined (ev_MessageID ev) d cr d1 cr"
  using assms by (auto simp: refunded_db_def updated_def set_delivery_def terminal_in_def is_terminal_def apply_updates_def confined_def)

lemma delivered_final:
  assumes "delivered_db ev b d d1" "sms_deliveries d (ev_MessageID ev) \<noteq> None"
  shows "terminal_in d1 (ev_MessageID ev)" "confined (ev_MessageID ev) d cr d1 cr"
  using assms by (auto simp: delivered_db_def changed_def updated_def set_delivery_def terminal_in_def is_terminal_def apply_updates_def confined_def
      set_balance_def add_transaction_def)

lemma committed_confined: "confined m d cr d (commit_credit m cr)"
  by (simp add: confined_def commit_credit_def)

lemma refund_confined: "c_avail cr i = Some n \<Longrightarrow> confined m d cr d (refund_credit i m n cr)"
  by (auto simp: confined_def refund_credit_def split: option.splits)

context worker_flow
begin

text \<open>The state in which a delivery of the message of \<open>row\<close> takes a step; \<open>P\<close> are the announced rows.\<close>

definition ready :: "SMSOutboxModel list \<Rightarrow> SMSOutboxModel \<Rightarrow> DeliveryEvent \<Rightarrow> 'w \<Rightarrow> bool" where
  "ready P row ev w \<longleftrightarrow> ok w \<and> coherent (announced P (dbv w)) (cred w) \<and> row \<in> set (sms_outbox (dbv w)) \<and> row_for (cred w) row ev"

definition good :: "SMSOutboxModel list \<Rightarrow> DeliveryEvent \<Rightarrow> 'w \<Rightarrow> stage \<Rightarrow> 'w \<Rightarrow> bool" where
  "good P ev w st' w' \<longleftrightarrow> ok w' \<and> coherent (announced P (dbv w')) (cred w')
    \<and> confined (ev_MessageID ev) (dbv w) (cred w) (dbv w') (cred w') \<and> stage_ok ev st' (dbv w') (cred w')"

lemma readyD:
  assumes "ready P row ev w"
  shows "ok w" "coherent (announced P (dbv w)) (cred w)" "row \<in> set (sms_outbox (announced P (dbv w)))" "row_for (cred w) row ev"
  using assms by (simp_all add: ready_def)

lemma ready_unchanged:
  assumes "ready P row ev w" "dbv w' = dbv w" "cred w' = cred w" "ok w'" "stage_ok ev st' (dbv w) (cred w)"
  shows "good P ev w st' w'"
  using assms by (simp add: good_def ready_def)

lemma step_begin:
  assumes r: "ready P row ev w" and W: "wk_db W = G" and step: "worker_step W R now c ev Beginning w = (st', w')"
  shows "good P ev w st' w'"
proof -
  obtain tm err w1 where 1: "beginDelivery G ev w = ((tm, err), w1)" by (metis surj_pair)
  have e: "cred w1 = cred w" "ok w1 = ok w" "tm \<longrightarrow> terminal_in (dbv w) (ev_MessageID ev)" "dbv w1 = dbv w \<or> begun ev (dbv w) (dbv w1)"
    "err = None \<longrightarrow> begun ev (dbv w) (dbv w1) \<and> (tm \<longleftrightarrow> terminal_in (dbv w) (ev_MessageID ev))"
    using db.beginDelivery_effect [OF 1] by auto
  have s: "st' = (if tm then Committing else case err of Some e \<Rightarrow> Returned (Some e) | None \<Rightarrow> Deciding)" "w' = w1" using step W 1 by auto
  have "coherent (announced P (dbv w1)) (cred w1) \<and> confined (ev_MessageID ev) (dbv w) (cred w) (dbv w1) (cred w1)"
    using e(4) coherent_begun [OF readyD(2-4) [OF r] announced_begun] readyD(2) [OF r] begun_confined e(1) by auto
  moreover have "stage_ok ev st' (dbv w1) (cred w1)"
  proof (cases tm)
    case True
    then show ?thesis using s(1) e(3,4) begun_terminal [of ev "dbv w" "dbv w1"] by auto
  next
    case False
    then show ?thesis using s(1) e(5) begun_under_way by (cases err) auto
  qed
  ultimately show ?thesis using s(2) e(2) readyD(1) [OF r] by (simp add: good_def)
qed

lemma step_look:
  assumes r: "ready P row ev w" and u: "under_way ev (dbv w)" and st: "st = Deciding \<or> st = Checking" and step: "worker_step W R now c ev st w = (st', w')"
  shows "good P ev w st' w'"
  using st
proof
  assume st: "st = Deciding"
  obtain late w1 where 1: "expired now ev w = (late, w1)" by (metis surj_pair)
  then show ?thesis using expired_same [OF 1] step u r st by (intro ready_unchanged [OF r]) (auto simp: ready_def split: if_splits)
next
  assume st: "st = Checking"
  obtain rb w1 where 1: "rs_IsReserved R (ev_MessageID ev) w = (rb, w1)" by (metis surj_pair)
  have "dbv w1 = dbv w" "cred w1 = cred w" "ok w1" "\<forall>x. rb = Inr x \<longrightarrow> x = (c_held (cred w) (ev_MessageID ev) \<noteq> None)"
    using res.is_reserved_law [OF readyD(1) [OF r] 1] by auto
  then show ?thesis using step u 1 st by (intro ready_unchanged [OF r]) (auto split: sum.splits if_splits)
qed

lemma step_send:
  assumes r: "ready P row ev w" and u: "under_way ev (dbv w)" "c_held (cred w) (ev_MessageID ev) \<noteq> None" and W: "wk_sender W = send"
    and step: "worker_step W R now c ev Sending w = (st', w')"
  shows "good P ev w st' w'"
proof -
  obtain c' w1 where 1: "providerContext W now c ev w = (c', w1)" by (metis surj_pair)
  obtain ro w2 where 2: "send c' ev w1 = (ro, w2)" by (metis surj_pair)
  have "dbv w2 = dbv w" "cred w2 = cred w" "ok w2" using providerContext_same [OF 1] send_law [OF 2] readyD(1) [OF r] by auto
  then show ?thesis using step 1 2 W u by (intro ready_unchanged [OF r]) (auto split: option.splits if_splits)
qed

lemma ready_money:
  assumes "ready P row ev w"
  obtains n b where "c_avail (cred w) (ev_WalletID ev) = Some n" "wallet_has (dbv w) (ev_WalletID ev) b" "db_money \<lparr>units = ev_CostUnits ev\<rparr>"
    "\<not> terminal_in (dbv w) (ev_MessageID ev) \<Longrightarrow> credit_ready w ev n"
    "\<not> terminal_in (dbv w) (ev_MessageID ev) \<Longrightarrow> n + held_for (cred w) (ev_MessageID ev) \<le> units b"
proof -
  note r = readyD [OF assms]
  obtain n where n: "c_avail (cred w) (ev_WalletID ev) = Some n" using r(4) by (auto simp: row_for_def)
  obtain b where b: "wallet_has (dbv w) (ev_WalletID ev) b" "n + owed (announced P (dbv w)) (cred w) (ev_WalletID ev) \<le> units b"
    using coherentD(4) [OF r(2) n] by auto
  have h: "n + held_for (cred w) (ev_MessageID ev) \<le> units b" if t: "\<not> terminal_in (dbv w) (ev_MessageID ev)"
  proof -
    have "due (announced P (dbv w)) (cred w) (ev_WalletID ev) row = held_for (cred w) (ev_MessageID ev)" using row_forD [OF r(4)] t by (simp add: due_def)
    then show ?thesis using due_le_owed [OF r(2,3), of "ev_WalletID ev"] b(2) by linarith
  qed
  moreover have "units b < 2 ^ 52" using b(1) by (simp add: wallet_has_def db_money_def)
  ultimately have "credit_ready w ev n" if "\<not> terminal_in (dbv w) (ev_MessageID ev)" using that r(1) n by (auto simp: credit_ready_def held_for_def)
  then show ?thesis using that n b(1) h r(4) by (simp add: row_for_def)
qed

lemma step_debit:
  assumes r: "ready P row ev w" and u: "under_way ev (dbv w)" "c_held (cred w) (ev_MessageID ev) \<noteq> None" and W: "wk_db W = G"
    and clean: "clean_commits G dbv" and step: "worker_step W R now c ev Debiting w = (st', w')"
  shows "good P ev w st' w'"
proof -
  obtain n b where b: "wallet_has (dbv w) (ev_WalletID ev) b" "db_money \<lparr>units = ev_CostUnits ev\<rparr>" using ready_money [OF r] by metis
  obtain x w1 where t: "Transaction G (debit_tx G now ev) w = (x, w1)" by (metis surj_pair)
  note e = debit_effect [OF t b]
  show ?thesis
  proof (cases x)
    case (Inl y)
    then have "dbv w1 = dbv w" "cred w1 = cred w" "ok w1" using e clean readyD(1) [OF r] by auto
    then show ?thesis using step t W u Inl by (intro ready_unchanged [OF r]) (auto split: prod.splits if_splits)
  next
    case (Inr y)
    then have d: "delivered_db ev b (dbv w) (dbv w1)" "cred w1 = cred w" "ok w1" using e readyD(1) [OF r] by auto
    have s: "st' = Committing" "w' = w1" using step t W Inr by simp_all
    have rec: "sms_deliveries (dbv w) (ev_MessageID ev) \<noteq> None" "\<not> terminal_in (dbv w) (ev_MessageID ev)" using u(1) by (simp_all add: under_way_def)
    have "coherent (announced P (dbv w1)) (cred w)"
      by (rule coherent_delivered [OF readyD(2-4) [OF r] _ u(2) _ announced_delivered [OF d(1)]]) (use rec b in simp_all)
    then show ?thesis using s d delivered_final [OF d(1) rec(1)] by (simp add: good_def)
  qed
qed

lemma step_refund:
  assumes r: "ready P row ev w" and u: "under_way ev (dbv w)" and step: "worker_step W R now c ev (Refunding e reason) w = (st', w')"
  shows "good P ev w st' w'"
proof -
  have t: "\<not> terminal_in (dbv w) (ev_MessageID ev)" using u by (simp add: under_way_def)
  obtain n where n: "c_avail (cred w) (ev_WalletID ev) = Some n" "credit_ready w ev n" using ready_money [OF r] t by metis
  obtain ro w1 where f: "rs_Refund R (ev_WalletID ev) (ev_MessageID ev) w = (ro, w1)" by (metis surj_pair)
  have 1: "ok w1" "dbv w1 = dbv w" "cred w1 = refunded_credit ev n (cred w) \<or> ro \<noteq> None \<and> cred w1 = cred w"
    using res.refund_law [OF readyD(1) [OF r] n(1) _ f] n(2) by (auto simp: credit_ready_def)
  have "coherent (announced P (dbv w)) (refunded_credit ev n (cred w))"
    by (rule coherent_refunded [OF readyD(2-4) [OF r] _ n(1)]) (use t in simp_all)
  then have "coherent (announced P (dbv w1)) (cred w1)" "confined (ev_MessageID ev) (dbv w) (cred w) (dbv w1) (cred w1)"
    using 1 readyD(2) [OF r] refund_confined [OF n(1)] by auto
  moreover have "c_held (refunded_credit ev n (cred w)) (ev_MessageID ev) = None" by (auto simp: refund_credit_def split: option.splits)
  ultimately show ?thesis using step f 1 u by (auto simp: good_def split: option.splits)
qed

lemma step_mark:
  assumes r: "ready P row ev w" and u: "under_way ev (dbv w)" "c_held (cred w) (ev_MessageID ev) = None" and W: "wk_db W = G" and step: "worker_step W R now c ev (Marking reason) w = (st', w')"
  shows "good P ev w st' w'"
proof -
  have t: "\<not> terminal_in (dbv w) (ev_MessageID ev)" "sms_deliveries (dbv w) (ev_MessageID ev) \<noteq> None" using u(1) by (simp_all add: under_way_def)
  obtain n where n: "c_avail (cred w) (ev_WalletID ev) = Some n" using ready_money [OF r] by metis
  have same: "refunded_credit ev n (cred w) = cred w" using u(2) by (simp add: refund_credit_def)
  obtain ro w1 where m: "markDelivery G (ev_MessageID ev) ''refunded'' reason None w = (ro, w1)" by (metis surj_pair)
  have e: "cred w1 = cred w" "ok w1 = ok w" "refunded_db ev reason (dbv w) (dbv w1) \<or> ro \<noteq> None \<and> dbv w1 = dbv w"
    using db.markDelivery_effect [OF m] by (auto simp: refunded_db_def)
  have s: "st' = Returned ro" "w' = w1" using step W m by simp_all
  have "coherent (announced P (dbv w1)) (cred w)" if "refunded_db ev reason (dbv w) (dbv w1)"
    using coherent_refunded [OF readyD(2-4) [OF r] _ n disjI2 [OF announced_refunded [OF that]]] t same by simp
  then show ?thesis using e s r refunded_final(1) [OF _ t(2)] refunded_final(2) [OF _ t(2), of reason "dbv w1" "cred w"] by (auto simp: good_def ready_def)
qed

lemma step_commit:
  assumes r: "ready P row ev w" and t: "terminal_in (dbv w) (ev_MessageID ev)" and step: "worker_step W R now c ev Committing w = (st', w')"
  shows "good P ev w st' w'"
proof -
  obtain ro w1 where m: "rs_Commit R (ev_MessageID ev) w = (ro, w1)" by (metis surj_pair)
  have e: "ok w1" "dbv w1 = dbv w" "cred w1 = commit_credit (ev_MessageID ev) (cred w) \<or> cred w1 = cred w"
    using res.commit_law [OF readyD(1) [OF r] m] by auto
  have s: "st' = Returned ro" "w' = w1" using step m by simp_all
  show ?thesis using e s t coherent_committed [OF readyD(2-4) [OF r]] readyD(2) [OF r] committed_confined by (auto simp: good_def)
qed

lemma worker_step_good:
  assumes r: "ready P row ev w" and st: "stage_ok ev st (dbv w) (cred w)" and W: "wk_db W = G" "wk_sender W = send" and clean: "clean_commits G dbv"
    and step: "worker_step W R now c ev st w = (st', w')"
  shows "good P ev w st' w'"
proof (cases st)
  case (Returned x)
  then show ?thesis using st step readyD(1) [OF r] by (intro ready_unchanged [OF r]) auto
next
  case Deciding
  then show ?thesis using step_look [OF r _ _ step] st by simp
next
  case Checking
  then show ?thesis using step_look [OF r _ _ step] st by simp
qed (use st step_begin [OF r W(1)] step_send [OF r _ _ W(2)] step_debit [OF r _ _ W(1) clean] step_refund [OF r] step_mark [OF r _ _ W(1)] step_commit [OF r] step in auto)

end

section \<open>A step of a request\<close>

fun reserved_stage :: "request_stage \<Rightarrow> bool" where
  "reserved_stage (Enqueueing remaining) \<longleftrightarrow> True"
| "reserved_stage (GivingBack err) \<longleftrightarrow> True"
| "reserved_stage _ \<longleftrightarrow> False"

text \<open>The row that a request with a reservation is about to store.\<close>

definition own_row :: "request \<Rightarrow> request_stage \<Rightarrow> SMSOutboxModel list" where
  "own_row q st = (if reserved_stage st then [outbox_row (rq_event q) (json_event (rq_event q))] else [])"

definition request_ok :: "request \<Rightarrow> credit \<Rightarrow> bool" where
  "request_ok q cr \<longleftrightarrow> ch_WalletID (rq_channel q) = ev_WalletID (rq_event q) \<and> units (rq_cost q) = ev_CostUnits (rq_event q)
    \<and> db_money \<lparr>units = ev_CostUnits (rq_event q)\<rparr> \<and> valid_utf8 (ev_MessageID (rq_event q)) \<and> c_avail cr (ev_WalletID (rq_event q)) \<noteq> None"

text \<open>A database of which no write that reports an error takes effect.\<close>

definition clean_writes :: "'w gorm \<Rightarrow> ('w \<Rightarrow> db) \<Rightarrow> bool" where
  "clean_writes G dbv \<longleftrightarrow> clean_commits G dbv \<and> (\<forall>row w e w'. CreateOutbox G row w = (Some e, w') \<longrightarrow> dbv w' = dbv w)"

lemma mem_clean_writes [simp]: "clean_writes mem_gorm fst"
  by (simp add: clean_writes_def) (auto simp: mem_gorm_def split: if_splits)

lemma announced_order:
  assumes "coherent (announced P d) cr" "mset (map row_key P') = mset (map row_key P)"
  shows "coherent (announced P' d) cr"
proof (rule coherent_fewer [OF assms(1)])
  have "set (map row_key P') = set (map row_key P)" using assms(2) by (metis set_mset_mset)
  then have "fst ` set (map row_key P') = fst ` set (map row_key P)" by (rule arg_cong)
  then have "om_MessageID ` set P' = om_MessageID ` set P" by (simp add: image_image row_key_def)
  moreover have "dom (sms_deliveries (announced P d)) \<subseteq> om_MessageID ` set (sms_outbox (announced P d))" using assms(1) unfolding coherent_def by blast
  ultimately show "dom (sms_deliveries (announced P d)) \<subseteq> om_MessageID ` set (sms_outbox (announced P' d))" by (simp add: image_Un)
qed (use assms(2) in simp_all)

lemma announced_dropped:
  assumes "coherent (announced (x # P) d) cr" "dom (sms_deliveries d) \<subseteq> om_MessageID ` set (sms_outbox d)"
  shows "coherent (announced P d) cr"
  using assms(2) by (intro coherent_fewer [OF assms(1)]) auto

lemma announced_stored:
  assumes "coherent (announced (x # P) d) cr" "row_key y = row_key x" "dom (sms_deliveries d) \<subseteq> om_MessageID ` set (sms_outbox d)"
  shows "coherent (announced P (d\<lparr>sms_outbox := sms_outbox d @ [y]\<rparr>)) cr"
  using assms(2,3) by (intro coherent_fewer [OF assms(1)]) auto

text \<open>What a step of a request leaves alone.\<close>

definition apart :: "string \<Rightarrow> db \<Rightarrow> credit \<Rightarrow> db \<Rightarrow> credit \<Rightarrow> bool" where
  "apart m d cr d' cr' \<longleftrightarrow> (\<exists>new. sms_outbox d' = sms_outbox d @ new \<and> om_MessageID ` set new \<subseteq> {m}) \<and> sms_deliveries d' = sms_deliveries d
    \<and> (\<forall>x. x \<noteq> m \<longrightarrow> c_held cr' x = c_held cr x) \<and> (\<forall>i. c_avail cr i \<noteq> None \<longrightarrow> c_avail cr' i \<noteq> None) \<and> channels d' = channels d \<and> sms_costs d' = sms_costs d"

context credit_flow
begin

definition requested :: "SMSOutboxModel list \<Rightarrow> request \<Rightarrow> request_stage \<Rightarrow> 'w \<Rightarrow> bool" where
  "requested P q st w \<longleftrightarrow> ok w \<and> coherent (announced (own_row q st @ P) (dbv w)) (cred w)
    \<and> dom (sms_deliveries (dbv w)) \<subseteq> om_MessageID ` set (sms_outbox (dbv w))"

lemma request_reserve:
  assumes w: "requested P q Reserving w" and q: "request_ok q (cred w)" and new: "ev_MessageID (rq_event q) \<notin> om_MessageID ` set (sms_outbox (dbv w) @ P)"
    and step: "request_step S R q Reserving w = Some (st', w')"
  shows "requested P q st' w' \<and> apart (ev_MessageID (rq_event q)) (dbv w) (cred w) (dbv w') (cred w')"
proof -
  let ?ev = "rq_event q" and ?row = "outbox_row (rq_event q) (json_event (rq_event q))"
  have ok: "ok w" and c: "coherent (announced P (dbv w)) (cred w)" and o: "dom (sms_deliveries (dbv w)) \<subseteq> om_MessageID ` set (sms_outbox (dbv w))"
    using w by (simp_all add: requested_def own_row_def)
  obtain n where n: "c_avail (cred w) (ev_WalletID ?ev) = Some n" using q by (auto simp: request_ok_def)
  have a: "0 \<le> ev_CostUnits ?ev" "ev_CostUnits ?ev < 2 ^ 52" and v: "valid_utf8 (ev_MessageID ?ev)" "db_money \<lparr>units = ev_CostUnits ?ev\<rparr>"
    and e: "ch_WalletID (rq_channel q) = ev_WalletID ?ev" "units (rq_cost q) = ev_CostUnits ?ev"
    using q by (auto simp: request_ok_def db_money_def)
  obtain x w1 where r: "rs_Reserve R (ev_WalletID ?ev) (ev_CostUnits ?ev) (ev_MessageID ?ev) w = Some (x, w1)" and ok1: "ok w1" and d1: "dbv w1 = dbv w"
    and cr1: "case x of Inr rem \<Rightarrow> rem = n - ev_CostUnits ?ev \<and> ev_CostUnits ?ev \<le> n \<and> c_held (cred w) (ev_MessageID ?ev) = None
        \<and> cred w1 = reserve_credit (ev_WalletID ?ev) (ev_MessageID ?ev) n (ev_CostUnits ?ev) (cred w)
      | Inl e \<Rightarrow> cred w1 = cred w \<or> ev_CostUnits ?ev \<le> n \<and> c_held (cred w) (ev_MessageID ?ev) = None
        \<and> cred w1 = reserve_credit (ev_WalletID ?ev) (ev_MessageID ?ev) n (ev_CostUnits ?ev) (cred w)"
    using res.reserve_law [OF ok n a, of "ev_MessageID ?ev"] by (elim exE conjE) (rule that, simp_all)
  have new': "ev_MessageID ?ev \<notin> om_MessageID ` set (sms_outbox (announced P (dbv w)))" using new by simp
  note acc = coherent_accepted [OF c new' n v]
  have ap: "apart (ev_MessageID ?ev) (dbv w) (cred w) (dbv w1) (cred w1)" using cr1 d1 by (auto simp: apart_def reserve_credit_def split: sum.splits)
  show ?thesis
  proof (cases x)
    case (Inl err)
    then have "coherent (announced P (dbv w)) (cred w1)" using acc [of "announced P (dbv w)" 0 0 "cred w1"] cr1 by auto
    then show ?thesis using step r Inl e ok1 d1 o ap by (auto simp: requested_def own_row_def)
  next
    case (Inr rem)
    then have "coherent (add_outbox ?row 0 0 (announced P (dbv w))) (cred w1)" using acc [of "add_outbox ?row 0 0 (announced P (dbv w))" 0 0 "cred w1"] cr1 by auto
    moreover have "add_outbox ?row 0 0 (announced P (dbv w)) = announced (P @ [?row\<lparr>om_ID := 0, om_CreatedAt := 0\<rparr>]) (dbv w)"
      by (simp add: add_outbox_def announced_def)
    ultimately have "coherent (announced (?row # P) (dbv w)) (cred w1)" using announced_order by (fastforce simp: row_key_def)
    then show ?thesis using step r Inr e ok1 d1 o ap by (auto simp: requested_def own_row_def)
  qed
qed

lemma request_enqueue:
  assumes w: "requested P q (Enqueueing rem) w" and S: "acceptor_Enqueue S = Some (Enqueue G)" and clean: "clean_writes G dbv"
    and step: "request_step S R q (Enqueueing rem) w = Some (st', w')"
  shows "requested P q st' w' \<and> apart (ev_MessageID (rq_event q)) (dbv w) (cred w) (dbv w') (cred w')"
proof -
  let ?row = "outbox_row (rq_event q) (json_event (rq_event q))"
  have ok: "ok w" and c: "coherent (announced (?row # P) (dbv w)) (cred w)" and o: "dom (sms_deliveries (dbv w)) \<subseteq> om_MessageID ` set (sms_outbox (dbv w))"
    using w by (simp_all add: requested_def own_row_def)
  obtain ro w1 where e: "Enqueue G (rq_event q) (rq_description q) w = (ro, w1)" by (metis surj_pair)
  have f: "cred w1 = cred w" "ok w1" using db.Enqueue_effect [OF e] ok by auto
  show ?thesis
  proof (cases ro)
    case (Some err)
    have "dbv w1 = dbv w" using e Some clean unfolding clean_writes_def by (auto simp: Enqueue_def split: sum.splits prod.splits option.splits)
    then show ?thesis using step S e Some f c o by (auto simp: requested_def own_row_def apart_def)
  next
    case None
    then obtain i t where d: "dbv w1 = add_outbox ?row i t (dbv w)" using db.Enqueue_effect [OF e] by auto
    have "coherent (announced P (dbv w1)) (cred w)"
      unfolding d add_outbox_def by (rule announced_stored [OF c _ o]) (simp add: row_key_def)
    moreover have "apart (ev_MessageID (rq_event q)) (dbv w) (cred w) (dbv w1) (cred w)"
      by (auto simp: apart_def d add_outbox_def outbox_row_def intro!: exI [of _ "[?row\<lparr>om_ID := i, om_CreatedAt := t\<rparr>]"])
    moreover have "dom (sms_deliveries (dbv w1)) \<subseteq> om_MessageID ` set (sms_outbox (dbv w1))" using o by (auto simp: d add_outbox_def)
    ultimately show ?thesis using step S e None f by (auto simp: requested_def own_row_def)
  qed
qed

lemma request_give_back:
  assumes w: "requested P q (GivingBack err) w" and q: "request_ok q (cred w)" and step: "request_step S R q (GivingBack err) w = Some (st', w')"
  shows "requested P q st' w' \<and> apart (ev_MessageID (rq_event q)) (dbv w) (cred w) (dbv w') (cred w')"
proof -
  let ?ev = "rq_event q" and ?row = "outbox_row (rq_event q) (json_event (rq_event q))"
  have ok: "ok w" and c: "coherent (announced (?row # P) (dbv w)) (cred w)" and o: "dom (sms_deliveries (dbv w)) \<subseteq> om_MessageID ` set (sms_outbox (dbv w))"
    using w by (simp_all add: requested_def own_row_def)
  have v: "valid_utf8 (ev_MessageID ?ev)" and e: "ch_WalletID (rq_channel q) = ev_WalletID ?ev" using q by (auto simp: request_ok_def)
  have row: "?row \<in> set (sms_outbox (announced (?row # P) (dbv w)))" by simp
  obtain e0 where rf0: "row_for (cred w) ?row e0" using coherentD(2) [OF c row] ..
  have mid: "ev_MessageID e0 = ev_MessageID ?ev" "ev_WalletID e0 = ev_WalletID ?ev" using row_forD [OF rf0] by (simp_all add: outbox_row_def)
  have "om_MessageID ?row = ev_MessageID ?ev" by (simp add: outbox_row_def)
  then have "ev_MessageID ?ev \<notin> om_MessageID ` set (sms_outbox (dbv w))" using coherentD(1) [OF c] by auto
  then have none: "sms_deliveries (dbv w) (ev_MessageID ?ev) = None" using o by (auto simp: dom_def)
  then have t: "\<not> terminal_in (dbv w) (ev_MessageID ?ev)" by (simp add: terminal_in_def)
  obtain n where n: "c_avail (cred w) (ev_WalletID ?ev) = Some n" using q by (auto simp: request_ok_def)
  obtain b where b: "wallet_has (dbv w) (ev_WalletID ?ev) b" "n + owed (announced (?row # P) (dbv w)) (cred w) (ev_WalletID ?ev) \<le> units b"
    using coherentD(4) [OF c n] by auto
  have "due (announced (?row # P) (dbv w)) (cred w) (ev_WalletID ?ev) ?row = held_for (cred w) (ev_MessageID ?ev)"
    using t row_forD [OF rf0] mid by (simp add: due_def)
  then have "n + held_for (cred w) (ev_MessageID ?ev) \<le> units b" using due_le_owed [OF c row, of "ev_WalletID ?ev"] b(2) by linarith
  moreover have "units b < 2 ^ 52" using b(1) by (simp add: wallet_has_def db_money_def)
  ultimately have lim: "\<forall>a. c_held (cred w) (ev_MessageID ?ev) = Some a \<longrightarrow> n + a < 2 ^ 52" by (auto simp: held_for_def)
  obtain ro w1 where f: "rs_Refund R (ev_WalletID ?ev) (ev_MessageID ?ev) w = (ro, w1)" by (metis surj_pair)
  have 1: "ok w1" "dbv w1 = dbv w" "cred w1 = refunded_credit ?ev n (cred w) \<or> cred w1 = cred w"
    using res.refund_law [OF ok n lim f] by auto
  have "coherent (announced (?row # P) (dbv w)) (refunded_credit ?ev n (cred w))"
    using coherent_refunded [OF c row rf0, of n] t n mid by simp
  then have "coherent (announced P (dbv w1)) (cred w1)" using 1 c announced_dropped [OF _ o] by auto
  moreover have "apart (ev_MessageID ?ev) (dbv w) (cred w) (dbv w1) (cred w1)" using 1 n by (auto simp: apart_def refund_credit_def split: option.splits)
  ultimately show ?thesis using step f e 1 o by (auto simp: requested_def own_row_def)
qed

lemma request_step_good:
  assumes w: "requested P q st w" and q: "request_ok q (cred w)" and S: "acceptor_Enqueue S = Some (Enqueue G)" and clean: "clean_writes G dbv"
    and new: "st = Reserving \<Longrightarrow> ev_MessageID (rq_event q) \<notin> om_MessageID ` set (sms_outbox (dbv w) @ P)"
    and step: "request_step S R q st w = Some (st', w')"
  shows "requested P q st' w' \<and> apart (ev_MessageID (rq_event q)) (dbv w) (cred w) (dbv w') (cred w')"
proof (cases st)
  case Reserving
  show ?thesis using request_reserve [of P q w S st' w'] w q new [OF Reserving] step Reserving by simp
next
  case (Enqueueing rem)
  show ?thesis using request_enqueue [of P q rem w S st' w'] w S clean step Enqueueing by simp
next
  case (GivingBack err)
  show ?thesis using request_give_back [of P q err w S st' w'] w q step GivingBack by simp
next
  case (Answered r)
  then show ?thesis using w step by (auto simp: apart_def)
qed

lemma prepare_effect:
  assumes S: "channelRepo S = GetByName G" "costRepo S = GetByLineType G" and rt: "runtime_ok rt (\<lambda>w. (dbv w, cred w, ok w, rest w))"
    and st: "stocked (dbv w) (cred w)" and p: "prepare rt S cmd w = (x, w')"
  shows "(dbv w', cred w', ok w', rest w') = (dbv w, cred w, ok w, rest w) \<and> (\<forall>q. x = Inr q \<longrightarrow> request_ok q (cred w))"
proof -
  obtain x1 w1 where 1: "GetByName G (cmd_ChannelName cmd) w = (x1, w1)" by (metis surj_pair)
  obtain x2 w2 where 2: "GetByLineType G (cmd_Line cmd) w1 = (x2, w2)" by (metis surj_pair)
  obtain mid w3 where 3: "generateMessageID rt w2 = (mid, w3)" by (metis surj_pair)
  obtain now w4 where 4: "Now rt w3 = (now, w4)" by (metis surj_pair)
  note q1 = db.GetByName_query [OF 1] and q2 = db.GetByLineType_query [OF 2]
  have e: "(dbv w1, cred w1, ok w1, rest w1) = (dbv w, cred w, ok w, rest w)" "(dbv w2, cred w2, ok w2, rest w2) = (dbv w, cred w, ok w, rest w)"
    "(dbv w4, cred w4, ok w4, rest w4) = (dbv w, cred w, ok w, rest w)"
    using q1 q2 runtime_obs [OF rt 3 4] by auto
  have ok: "request_ok q (cred w)" if q: "x1 = Inr ch" "x2 = Inr co" "NewMoney (cost_Cost co) = Inr m"
      "q = \<lparr>rq_channel = ch, rq_cost = m, rq_event = new_event S cmd ch m mid now, rq_description = desc\<rparr>" for q ch co m desc
  proof -
    obtain c where c: "c \<in> set (channels (dbv w))" "ch = toChannelModel c" using q1 q(1) by auto
    obtain k where k: "k \<in> set (sms_costs (dbv w))" "co = toSMSCostModel k" using q2 q(2) e(1) by auto
    obtain m0 where m0: "db_money m0" "sm_Cost k = Float64 m0" using st k by (auto simp: stocked_def)
    then have "m = m0" using q(3) k(2) by (simp add: toSMSCostModel_def db_money_roundtrip)
    moreover have "c_avail (cred w) (cm_WalletID c) \<noteq> None" using st c by (auto simp: stocked_def)
    ultimately show ?thesis using q(4) m0(1) c(2) 3 generated_valid [of rt w2] by (simp add: request_ok_def event_of_request db_money_def toChannelModel_def)
  qed
  show ?thesis using p 1 2 3 4 e S ok by (auto simp: prepare_def split: sum.splits if_splits)
qed

end

section \<open>Interleaved runs\<close>

text \<open>
  The requests and deliveries that are or were under way. A request is prepared, which only reads; it reserves under
  an identifier that is new; a delivery of a stored message begins if no other delivery of that message is under way; any of them
  takes a step; the dispatcher works; and a process that stops forgets what it was doing.
\<close>

type_synonym requests = "(request \<times> request_stage) list"
type_synonym deliveries = "(DeliveryEvent \<times> stage) list"

definition announced_rows :: "requests \<Rightarrow> SMSOutboxModel list" where
  "announced_rows qs = concat (map (\<lambda>(q, st). own_row q st) qs)"

fun live :: "DeliveryEvent \<times> stage \<Rightarrow> bool" where
  "live (ev, Returned r) \<longleftrightarrow> False"
| "live (ev, st) \<longleftrightarrow> True"

inductive interleaved ::
  "'w gorm \<Rightarrow> ('w \<Rightarrow> db) \<Rightarrow> ('w \<Rightarrow> redis_state) \<Rightarrow> ('w \<Rightarrow> (ctx \<times> DeliveryEvent) list) \<Rightarrow> 'w redis_client \<Rightarrow> 'w \<Rightarrow> requests \<Rightarrow> deliveries \<Rightarrow> 'w \<Rightarrow> bool"
  for G dbv red sent eval w0 where
  start: "interleaved G dbv red sent eval w0 [] [] w0"
| prepared: "interleaved G dbv red sent eval w0 qs js w \<Longrightarrow>
    NewServiceWithReservation (GetByName G) deduct (Enqueue G) (GetByLineType G) (redis_reservations (Suc fuel) eval loader) sla el nl = Inr S \<Longrightarrow>
    runtime_ok rt (\<lambda>w. (dbv w, red w, sent w)) \<Longrightarrow> prepare rt S cmd w = (x, w') \<Longrightarrow>
    interleaved G dbv red sent eval w0 (case x of Inr q \<Rightarrow> qs @ [(q, Reserving)] | Inl e \<Rightarrow> qs) js w'"
| request: "interleaved G dbv red sent eval w0 qs js w \<Longrightarrow> k < length qs \<Longrightarrow> qs ! k = (q, st) \<Longrightarrow>
    NewServiceWithReservation (GetByName G) deduct (Enqueue G) (GetByLineType G) (redis_reservations (Suc fuel) eval loader) sla el nl = Inr S \<Longrightarrow>
    (st = Reserving \<longrightarrow> ev_MessageID (rq_event q) \<notin> om_MessageID ` set (sms_outbox (dbv w) @ announced_rows qs)) \<Longrightarrow>
    request_step S (redis_reservations (Suc fuel) eval loader) q st w = Some (st', w') \<Longrightarrow>
    interleaved G dbv red sent eval w0 (qs[k := (q, st')]) js w'"
| taken: "interleaved G dbv red sent eval w0 qs js w \<Longrightarrow> row \<in> set (sms_outbox (dbv w)) \<Longrightarrow>
    json_Unmarshal (Some (pb_Body (publishing_of row))) = Inr ev \<Longrightarrow>
    (\<forall>j \<in> set js. live j \<longrightarrow> ev_MessageID (fst j) \<noteq> ev_MessageID ev) \<Longrightarrow>
    interleaved G dbv red sent eval w0 qs (js @ [(ev, Beginning)]) w"
| delivery: "interleaved G dbv red sent eval w0 qs js w \<Longrightarrow> k < length js \<Longrightarrow> js ! k = (ev, st) \<Longrightarrow>
    wk_db W = G \<Longrightarrow> sender_ok (\<lambda>w. (dbv w, red w)) sent (wk_sender W) \<Longrightarrow> clock_ok (\<lambda>w. (dbv w, red w, sent w)) now \<Longrightarrow>
    worker_step W (redis_reservations (Suc fuel) eval loader) now c ev st w = (st', w') \<Longrightarrow>
    interleaved G dbv red sent eval w0 qs (js[k := (ev, st')]) w'"
| dispatch: "interleaved G dbv red sent eval w0 qs js w \<Longrightarrow> same_rows (dbv w) (dbv w') \<Longrightarrow> red w' = red w \<Longrightarrow>
    interleaved G dbv red sent eval w0 qs js w'"
| stopped: "interleaved G dbv red sent eval w0 qs js w \<Longrightarrow> k < length qs \<Longrightarrow>
    interleaved G dbv red sent eval w0 (take k qs @ drop (Suc k) qs) js w"
| crashed: "interleaved G dbv red sent eval w0 qs js w \<Longrightarrow> k < length js \<Longrightarrow>
    interleaved G dbv red sent eval w0 qs (take k js @ drop (Suc k) js) w"

section \<open>The invariant\<close>

definition job_ok :: "db \<Rightarrow> credit \<Rightarrow> DeliveryEvent \<times> stage \<Rightarrow> bool" where
  "job_ok d cr j \<longleftrightarrow> (\<exists>row \<in> set (sms_outbox d). row_for cr row (fst j)) \<and> stage_ok (fst j) (snd j) d cr"

definition steady :: "requests \<Rightarrow> deliveries \<Rightarrow> db \<Rightarrow> credit \<Rightarrow> bool" where
  "steady qs js d cr \<longleftrightarrow> coherent (announced (announced_rows qs) d) cr \<and> dom (sms_deliveries d) \<subseteq> om_MessageID ` set (sms_outbox d)
    \<and> (\<forall>q \<in> set qs. request_ok (fst q) cr) \<and> (\<forall>j \<in> set js. job_ok d cr j) \<and> distinct (map (ev_MessageID \<circ> fst) (filter live js))"

lemma steadyD:
  assumes "steady qs js d cr"
  shows "coherent (announced (announced_rows qs) d) cr" "dom (sms_deliveries d) \<subseteq> om_MessageID ` set (sms_outbox d)"
    "q \<in> set qs \<Longrightarrow> request_ok (fst q) cr" "j \<in> set js \<Longrightarrow> job_ok d cr j" "distinct (map (ev_MessageID \<circ> fst) (filter live js))"
  using assms by (simp_all add: steady_def)

lemma announced_rows_append [simp]: "announced_rows (qs @ rs) = announced_rows qs @ announced_rows rs"
  "announced_rows ((q, st) # qs) = own_row q st @ announced_rows qs" "announced_rows [] = []"
  by (simp_all add: announced_rows_def)

lemma request_ok_kept: "request_ok q cr \<Longrightarrow> (\<And>i. c_avail cr i \<noteq> None \<Longrightarrow> c_avail cr' i \<noteq> None) \<Longrightarrow> request_ok q cr'"
  by (simp add: request_ok_def)

lemma row_for_kept:
  assumes "row_for cr row ev" "\<And>i. c_avail cr i \<noteq> None \<Longrightarrow> c_avail cr' i \<noteq> None"
    "c_held cr' (ev_MessageID ev) = c_held cr (ev_MessageID ev) \<or> c_held cr' (ev_MessageID ev) = None"
  shows "row_for cr' row ev"
  using assms by (auto simp: row_for_def)

lemma stage_ok_kept:
  assumes "stage_ok ev st d cr" "sms_deliveries d' (ev_MessageID ev) = sms_deliveries d (ev_MessageID ev)"
    "c_held cr' (ev_MessageID ev) = c_held cr (ev_MessageID ev)"
  shows "stage_ok ev st d' cr'"
  using assms by (cases st) (simp_all add: under_way_def terminal_in_def)

lemma stage_ok_final: "\<not> live (ev, st) \<Longrightarrow> stage_ok ev st d cr \<Longrightarrow> (terminal_in d (ev_MessageID ev) \<longrightarrow> terminal_in d' (ev_MessageID ev)) \<Longrightarrow> stage_ok ev st d' cr'"
  by (cases st) auto

lemma steady_delivery:
  assumes st: "steady qs (A @ (ev, st) # B) d cr" and l: "live (ev, st)" and conf: "confined (ev_MessageID ev) d cr d' cr'"
    and new: "coherent (announced (announced_rows qs) d') cr'" "stage_ok ev st' d' cr'"
  shows "steady qs (A @ (ev, st') # B) d' cr'"
proof -
  have keep: "sms_outbox d' = sms_outbox d" "\<And>i. c_avail cr i \<noteq> None \<Longrightarrow> c_avail cr' i \<noteq> None"
    "\<And>x. x \<noteq> ev_MessageID ev \<Longrightarrow> sms_deliveries d' x = sms_deliveries d x \<and> c_held cr' x = c_held cr x"
    "c_held cr' (ev_MessageID ev) = c_held cr (ev_MessageID ev) \<or> c_held cr' (ev_MessageID ev) = None"
    "terminal_in d (ev_MessageID ev) \<longrightarrow> terminal_in d' (ev_MessageID ev)"
    using conf by (simp_all add: confined_def)
  have held: "c_held cr' x = c_held cr x \<or> c_held cr' x = None" for x using keep(3,4) by metis
  have rows: "\<exists>row \<in> set (sms_outbox d'). row_for cr' row e" if "job_ok d cr (e, s)" for e s
    using that row_for_kept [OF _ keep(2) held] unfolding job_ok_def keep(1) by auto
  have "job_ok d cr (ev, st)" using steadyD(4) [OF st] by simp
  then obtain row where row: "row \<in> set (sms_outbox d)" "row_for cr row ev" by (auto simp: job_ok_def)
  have others: "job_ok d' cr' (e, s)" if j: "(e, s) \<in> set A \<union> set B" for e s
  proof -
    have o: "job_ok d cr (e, s)" using steadyD(4) [OF st] j by auto
    have "stage_ok e s d' cr'"
    proof (cases "ev_MessageID e = ev_MessageID ev")
      case True
      then have "\<not> live (e, s)" using steadyD(5) [OF st] l j by (force simp: image_iff)
      then show ?thesis using o keep(5) True stage_ok_final [of e s d cr d' cr'] by (simp add: job_ok_def)
    next
      case False
      then show ?thesis using o keep(3) stage_ok_kept [of e s d cr d' cr'] by (simp add: job_ok_def)
    qed
    then show ?thesis using rows [OF o] by (simp add: job_ok_def)
  qed
  have "dom (sms_deliveries d') \<subseteq> om_MessageID ` set (sms_outbox d')"
  proof
    fix x assume x: "x \<in> dom (sms_deliveries d')"
    show "x \<in> om_MessageID ` set (sms_outbox d')"
    proof (cases "x = ev_MessageID ev")
      case True
      then show ?thesis using row keep(1) row_forD(1) [OF row(2)] by (metis imageI)
    next
      case False
      then show ?thesis using x keep(1,3) steadyD(2) [OF st] by (auto simp: dom_def)
    qed
  qed
  moreover have "job_ok d' cr' (ev, st')" using rows [OF \<open>job_ok d cr (ev, st)\<close>] new(2) by (simp add: job_ok_def)
  moreover have "distinct (map (ev_MessageID \<circ> fst) (filter live (A @ (ev, st') # B)))" using steadyD(5) [OF st] l by auto
  moreover have "\<forall>q \<in> set qs. request_ok (fst q) cr'" using steadyD(3) [OF st] request_ok_kept keep(2) by blast
  ultimately show ?thesis using new(1) others by (auto simp: steady_def)
qed

lemma steady_request:
  assumes st: "steady (A @ (q, s) # B) js d cr" and ap: "apart (ev_MessageID (rq_event q)) d cr d' cr'"
    and new: "coherent (announced (own_row q s' @ announced_rows (A @ B)) d') cr'" "dom (sms_deliveries d') \<subseteq> om_MessageID ` set (sms_outbox d')"
    and mid: "ev_MessageID (rq_event q) \<notin> om_MessageID ` set (sms_outbox d) \<or> c_held cr' = c_held cr"
  shows "steady (A @ (q, s') # B) js d' cr'"
proof -
  have keep: "set (sms_outbox d) \<subseteq> set (sms_outbox d')" "\<And>i. c_avail cr i \<noteq> None \<Longrightarrow> c_avail cr' i \<noteq> None" "sms_deliveries d' = sms_deliveries d"
    "\<And>x. x \<noteq> ev_MessageID (rq_event q) \<Longrightarrow> c_held cr' x = c_held cr x"
    using ap by (auto simp: apart_def)
  have "coherent (announced (announced_rows (A @ (q, s') # B)) d') cr'"
    by (rule announced_order [OF new(1)]) simp
  moreover have "job_ok d' cr' j" if j: "j \<in> set js" for j
  proof -
    have o: "job_ok d cr j" by (rule steadyD(4) [OF st j])
    then obtain row where row: "row \<in> set (sms_outbox d)" "row_for cr row (fst j)" by (auto simp: job_ok_def)
    have "ev_MessageID (fst j) \<in> om_MessageID ` set (sms_outbox d)" using row row_forD(1) [OF row(2)] by (metis imageI)
    then have h: "c_held cr' (ev_MessageID (fst j)) = c_held cr (ev_MessageID (fst j))" using mid keep(4) by (metis (no_types))
    have "row_for cr' row (fst j)" by (rule row_for_kept [OF row(2) keep(2)]) (simp_all add: h)
    moreover have "stage_ok (fst j) (snd j) d' cr'" by (rule stage_ok_kept [of _ _ d cr]) (use o h keep(3) in \<open>simp_all add: job_ok_def\<close>)
    ultimately show ?thesis using row(1) keep(1) unfolding job_ok_def by blast
  qed
  moreover have "\<forall>p \<in> set (A @ (q, s') # B). request_ok (fst p) cr'"
  proof
    fix p assume "p \<in> set (A @ (q, s') # B)"
    then have "fst p \<in> fst ` set (A @ (q, s) # B)" by auto
    then obtain p0 where "p0 \<in> set (A @ (q, s) # B)" "fst p = fst p0" by blast
    then show "request_ok (fst p) cr'" using request_ok_kept [OF steadyD(3) [OF st] keep(2)] by simp
  qed
  ultimately show ?thesis using new(2) steadyD(5) [OF st] unfolding steady_def by blast
qed

lemma announced_none [simp]: "announced [] d = d"
  by (simp add: announced_def)

lemma steady_dispatched:
  assumes st: "steady qs js d cr" and same: "same_rows d d'"
  shows "steady qs js d' cr"
proof -
  let ?u = "map (\<lambda>row. row\<lparr>om_PublishedAt := None\<rparr>)"
  obtain rows where d': "d' = d\<lparr>sms_outbox := rows\<rparr>" and u: "?u rows = ?u (sms_outbox d)"
    using same by (auto simp: same_rows_def unmarked_def)
  have keys: "map row_key rows = map row_key (sms_outbox d)"
    using arg_cong [OF u, of "map row_key"] by (simp add: comp_def row_key_def [abs_def])
  have "same_rows (announced P d) (announced P d')" for P using same u by (auto simp: same_rows_def unmarked_def announced_def d')
  then have c: "coherent (announced (announced_rows qs) d') cr" using coherent_dispatched [OF steadyD(1) [OF st]] by blast
  have ids: "om_MessageID ` set rows = om_MessageID ` set (sms_outbox d)"
    using arg_cong [OF keys, of "\<lambda>ks. fst ` set ks"] by (simp add: image_image row_key_def)
  have "\<exists>row' \<in> set rows. row_for cr row' ev" if "row \<in> set (sms_outbox d)" "row_for cr row ev" for row ev
  proof -
    have "row_key row \<in> row_key ` set rows" using that(1) arg_cong [OF keys, of set] by auto
    then show ?thesis using that(2) row_for_key by (metis imageE)
  qed
  moreover have "stage_ok ev s d' cr \<longleftrightarrow> stage_ok ev s d cr" for ev s
    by (cases s) (simp_all add: under_way_def terminal_in_def d')
  ultimately have "job_ok d' cr j" if "j \<in> set js" for j using steadyD(4) [OF st that] by (auto simp: job_ok_def d')
  then show ?thesis using c st ids by (simp add: steady_def d')
qed

lemma steady_stopped:
  assumes "steady (A @ p # B) js d cr"
  shows "steady (A @ B) js d cr"
proof -
  obtain q s where p: "p = (q, s)" by (cases p)
  have "coherent (announced (own_row q s @ announced_rows (A @ B)) d) cr"
    by (rule announced_order [OF steadyD(1) [OF assms]]) (simp add: p)
  then have "coherent (announced (announced_rows (A @ B)) d) cr"
    using announced_dropped [OF _ steadyD(2) [OF assms]] by (cases "reserved_stage s") (simp_all add: own_row_def)
  then show ?thesis using assms by (simp add: steady_def)
qed

lemma steady_crashed: "steady qs (A @ p # B) d cr \<Longrightarrow> steady qs (A @ B) d cr"
  by (auto simp: steady_def split: if_splits)

lemma split_at:
  assumes "k < length xs"
  shows "xs = take k xs @ xs ! k # drop (Suc k) xs" "xs[k := y] = take k xs @ y # drop (Suc k) xs"
  using assms by (simp_all add: id_take_nth_drop upd_conv_take_nth_drop)

lemma run_steady:
  assumes laws: "gorm_db G dbv (\<lambda>w. (red w, sent w))" "redis_client_ok eval red (\<lambda>w. (dbv w, sent w))" "clean_writes G dbv"
    and w0: "fresh_stores (dbv w0) (red w0)" and run: "interleaved G dbv red sent eval w0 qs js w"
  shows "redis_credit_ok (red w) \<and> steady qs js (dbv w) (redis_credit (red w))"
  using run
proof induction
  case start
  then show ?case using fresh_coherent [OF w0] w0 by (auto simp: steady_def fresh_stores_def)
next
  case (prepared qs js w deduct fuel loader sla el nl S rt cmd x w')
  then have ok: "redis_credit_ok (red w)" and st: "steady qs js (dbv w) (redis_credit (red w))" by simp_all
  have S: "channelRepo S = GetByName G" "costRepo S = GetByLineType G" using prepared.hyps(2) by (auto simp: NewServiceWithReservation_def make_service_def split: if_splits)
  have rt: "runtime_ok rt (\<lambda>w. (dbv w, redis_credit (red w), redis_credit_ok (red w), sent w))"
    using runtime_through [OF prepared.hyps(3), of "\<lambda>(d, r, s). (d, redis_credit r, redis_credit_ok r, s)"] by simp
  have "stocked (dbv w) (redis_credit (red w))" using coherentD(5) [OF steadyD(1) [OF st]] by (simp add: stocked_def)
  from credit_flow.prepare_effect [OF redis_credit_flow [OF laws(1,2)] S rt this prepared.hyps(4)]
  have e: "dbv w' = dbv w" "redis_credit (red w') = redis_credit (red w)" "redis_credit_ok (red w') = redis_credit_ok (red w)"
    "\<forall>q. x = Inr q \<longrightarrow> request_ok q (redis_credit (red w))" by auto
  show ?case using st ok e by (cases x) (auto simp: steady_def own_row_def)
next
  case (request qs js w k q s deduct fuel loader sla el nl S s' w')
  then have ok: "redis_credit_ok (red w)" and st: "steady qs js (dbv w) (redis_credit (red w))" by simp_all
  let ?A = "take k qs" and ?B = "drop (Suc k) qs" and ?P = "announced_rows (take k qs @ drop (Suc k) qs)"
  note sp = split_at [OF request.hyps(2), unfolded request.hyps(3)]
  have S: "acceptor_Enqueue S = Some (Enqueue G)" using request.hyps(4) by (auto simp: NewServiceWithReservation_def make_service_def split: if_splits)
  have st1: "steady (?A @ (q, s) # ?B) js (dbv w) (redis_credit (red w))" using st sp(1) by simp
  have c1: "coherent (announced (own_row q s @ ?P) (dbv w)) (redis_credit (red w))"
    by (rule announced_order [OF steadyD(1) [OF st1]]) simp
  have rows: "set (announced_rows qs) = set (own_row q s) \<union> set ?P" by (subst sp(1)) auto
  note flow = redis_credit_flow [OF laws(1,2), of fuel loader]
  have rq: "credit_flow.requested dbv (\<lambda>w. redis_credit (red w)) (\<lambda>w. redis_credit_ok (red w)) ?P q s w"
    unfolding credit_flow.requested_def [OF flow] using ok c1 steadyD(2) [OF st] by simp
  have new: "ev_MessageID (rq_event q) \<notin> om_MessageID ` set (sms_outbox (dbv w) @ ?P)" if "s = Reserving"
    using request.hyps(5) that rows by auto
  have q: "request_ok q (redis_credit (red w))" using steadyD(3) [OF st1, of "(q, s)"] by simp
  from credit_flow.request_step_good [OF flow rq q S laws(3) new request.hyps(6)]
  have g: "redis_credit_ok (red w')" "coherent (announced (own_row q s' @ ?P) (dbv w')) (redis_credit (red w'))"
      "dom (sms_deliveries (dbv w')) \<subseteq> om_MessageID ` set (sms_outbox (dbv w'))"
      "apart (ev_MessageID (rq_event q)) (dbv w) (redis_credit (red w)) (dbv w') (redis_credit (red w'))"
    unfolding credit_flow.requested_def [OF flow] by simp_all
  have mid: "ev_MessageID (rq_event q) \<notin> om_MessageID ` set (sms_outbox (dbv w)) \<or> c_held (redis_credit (red w')) = c_held (redis_credit (red w))"
  proof (cases "reserved_stage s")
    case True
    have "om_MessageID (outbox_row (rq_event q) (json_event (rq_event q))) = ev_MessageID (rq_event q)" by (simp add: outbox_row_def)
    then show ?thesis using coherentD(1) [OF c1] True by (auto simp: own_row_def)
  next
    case False
    then show ?thesis using new request.hyps(6) by (cases s) auto
  qed
  show ?case using steady_request [OF st1 g(4) g(2) g(3) mid] g(1) sp(2) [of "(q, s')"] by simp
next
  case (taken qs js w row ev)
  then have ok: "redis_credit_ok (red w)" and st: "steady qs js (dbv w) (redis_credit (red w))" by simp_all
  have dec: "json_Unmarshal (Some (om_Payload row)) = Inr ev" using taken.hyps(3) by (simp add: publishing_of_def)
  have "row \<in> set (sms_outbox (announced (announced_rows qs) (dbv w)))" using taken.hyps(2) by simp
  then obtain e0 where "row_for (redis_credit (red w)) row e0" using coherentD(2) [OF steadyD(1) [OF st]] by blast
  then have "row_for (redis_credit (red w)) row ev" by (rule row_for_decoded [OF _ dec])
  then have "job_ok (dbv w) (redis_credit (red w)) (ev, Beginning)" using taken.hyps(2) by (auto simp: job_ok_def)
  then show ?case using st ok taken.hyps(4) by (auto simp: steady_def)
next
  case (delivery qs js w k ev s W now fuel loader c s' w')
  then have ok: "redis_credit_ok (red w)" and st: "steady qs js (dbv w) (redis_credit (red w))" by simp_all
  let ?A = "take k js" and ?B = "drop (Suc k) js"
  note sp = split_at [OF delivery.hyps(2), unfolded delivery.hyps(3)]
  show ?case
  proof (cases "live (ev, s)")
    case False
    then have "s' = s" "w' = w" using delivery.hyps(7) by (cases s; simp)+
    then show ?thesis using ok st delivery.hyps(3) by (metis list_update_id)
  next
    case True
    have st1: "steady qs (?A @ (ev, s) # ?B) (dbv w) (redis_credit (red w))" using st sp(1) by simp
    have j: "job_ok (dbv w) (redis_credit (red w)) (ev, s)" using steadyD(4) [OF st1] by simp
    then obtain row where row: "row \<in> set (sms_outbox (dbv w))" "row_for (redis_credit (red w)) row ev" by (auto simp: job_ok_def)
    note flow = redis_worker_flow [OF laws(1,2) delivery.hyps(5,6), of fuel loader]
    have r: "worker_flow.ready dbv (\<lambda>w. redis_credit (red w)) (\<lambda>w. redis_credit_ok (red w)) (announced_rows qs) row ev w"
      unfolding worker_flow.ready_def [OF flow] using ok steadyD(1) [OF st] row by simp
    have cl: "clean_commits G dbv" using laws(3) by (simp add: clean_writes_def)
    have so: "stage_ok ev s (dbv w) (redis_credit (red w))" using j by (simp add: job_ok_def)
    from worker_flow.worker_step_good [OF flow r so delivery.hyps(4) refl cl delivery.hyps(7)]
    have g: "redis_credit_ok (red w')" "coherent (announced (announced_rows qs) (dbv w')) (redis_credit (red w'))"
      "confined (ev_MessageID ev) (dbv w) (redis_credit (red w)) (dbv w') (redis_credit (red w'))" "stage_ok ev s' (dbv w') (redis_credit (red w'))"
      unfolding worker_flow.good_def [OF flow] by simp_all
    show ?thesis using steady_delivery [OF st1 True g(3) g(2) g(4)] g(1) sp(2) [of "(ev, s')"] by simp
  qed
next
  case (dispatch qs js w w')
  then show ?case using steady_dispatched [of qs js "dbv w" _ "dbv w'"] by simp
next
  case (stopped qs js w k)
  then show ?case using steady_stopped [of "take k qs" "qs ! k" "drop (Suc k) qs"] split_at(1) [of k qs] by simp
next
  case (crashed qs js w k)
  then show ?case using steady_crashed [of qs "take k js" "js ! k" "drop (Suc k) js"] split_at(1) [of k js] by simp
qed

end
