(* ===== verification/InterleavingProps.thy ===== *)
theory InterleavingProps
  imports Interleaving RunProps
begin

text \<open>
  What holds for requests and deliveries that overlap, as long as no two workers process the same message at the same time.
\<close>

section \<open>Coverage\<close>

text \<open>
  C1: credit is covered under interleaving. However the calls of requests and deliveries that are under way interleave, wherever
  processes stop, and whichever calls of Redis fail, with or without effect: if no write to the database that reports an error takes
  effect and no message is processed by two workers at once, then the credit available to a wallet, what is held for its unfinished messages
  and what is reserved for its requests under way together never exceed its balance. A delivery that is about to call
  a provider or to debit the wallet has exactly its cost reserved and the wallet can pay it; a delivery that returned
  without an error has a final record.
\<close>

theorem interleaving_covered:
  assumes "gorm_db G dbv (\<lambda>w. (red w, sent w))" "redis_client_ok eval red (\<lambda>w. (dbv w, sent w))" "clean_writes G dbv"
    "fresh_stores (dbv w0) (red w0)" "interleaved G dbv red sent eval w0 qs js w"
  shows "(\<forall>i n. available (red w) i = Some n \<longrightarrow> 0 \<le> n
        \<and> (\<exists>b. wallet_has (dbv w) i b \<and> n + owed (announced (announced_rows qs) (dbv w)) (redis_credit (red w)) i \<le> units b))
    \<and> (\<forall>ev. (ev, Sending) \<in> set js \<or> (ev, Debiting) \<in> set js \<longrightarrow>
        held (red w) (ev_MessageID ev) = Some (ev_CostUnits ev) \<and> (\<exists>b. wallet_has (dbv w) (ev_WalletID ev) b \<and> ev_CostUnits ev \<le> units b))
    \<and> (\<forall>ev. (ev, Returned None) \<in> set js \<longrightarrow> terminal_in (dbv w) (ev_MessageID ev))"
proof (intro conjI allI impI)
  let ?cr = "redis_credit (red w)" and ?d = "announced (announced_rows qs) (dbv w)"
  have ok: "redis_credit_ok (red w)" and st: "steady qs js (dbv w) ?cr" using run_steady [OF assms] by simp_all
  note c = steadyD(1) [OF st]
  have avail: "c_avail ?cr i = available (red w) i" and held: "c_held ?cr m = held (red w) m" for i m by (simp_all add: redis_credit_def)
  have pos: "0 \<le> n" if "available (red w) i = Some n" for i n
    using ok that money_key_bounds [of "red w" "balanceKey i" n] by (simp add: redis_credit_ok_def)
  {
    fix i n assume n: "available (red w) i = Some n"
    show "0 \<le> n" by (rule pos [OF n])
    show "\<exists>b. wallet_has (dbv w) i b \<and> n + owed ?d ?cr i \<le> units b" using coherentD(4) [OF c] n avail by simp
  }
  {
    fix ev assume "(ev, Sending) \<in> set js \<or> (ev, Debiting) \<in> set js"
    then obtain s where "(ev, s) \<in> set js" "s = Sending \<or> s = Debiting" by blast
    then have j: "job_ok (dbv w) ?cr (ev, s)" "s = Sending \<or> s = Debiting" using steadyD(4) [OF st] by auto
    then obtain row where row: "row \<in> set (sms_outbox (dbv w))" "row_for ?cr row ev" by (auto simp: job_ok_def)
    have u: "\<not> terminal_in (dbv w) (ev_MessageID ev)" "c_held ?cr (ev_MessageID ev) \<noteq> None" using j by (auto simp: job_ok_def under_way_def)
    then have h: "c_held ?cr (ev_MessageID ev) = Some (ev_CostUnits ev)" using row(2) by (auto simp: row_for_def)
    then show "held (red w) (ev_MessageID ev) = Some (ev_CostUnits ev)" using held by simp
    obtain n where n: "c_avail ?cr (ev_WalletID ev) = Some n" using row(2) by (auto simp: row_for_def)
    have "due ?d ?cr (ev_WalletID ev) row = ev_CostUnits ev" using row_forD [OF row(2)] u(1) h by (simp add: due_def held_for_def)
    then have "ev_CostUnits ev \<le> owed ?d ?cr (ev_WalletID ev)" using due_le_owed [OF c, of row "ev_WalletID ev"] row(1) by simp
    then show "\<exists>b. wallet_has (dbv w) (ev_WalletID ev) b \<and> ev_CostUnits ev \<le> units b"
      using coherentD(4) [OF c n] pos [of "ev_WalletID ev" n] n avail by fastforce
  }
  show "terminal_in (dbv w) (ev_MessageID ev)" if "(ev, Returned None) \<in> set js" for ev
    using steadyD(4) [OF st that] by (simp add: job_ok_def)
qed

section \<open>A run\<close>

abbreviation store_example :: "gateway ReservationStore" where
  "store_example \<equiv> redis_reservations (Suc 0) beside_client None"

lemmas step_eval = worker_eval accepted_example_def opening_example_def accepted_db_example_def accepted_credit_example_def db_channel_example_def
  credit_example_def add_outbox_def sent_example_def sent_to_def

lemma sent_example_sel: "ev_WalletID sent_example = 7" "ev_CostUnits sent_example = 12000"
  by (simp_all add: sent_example_def sent_to_def)

definition sms_request_example :: request where
  "sms_request_example = \<lparr>rq_channel = toChannelModel \<lparr>cm_ID = 1, cm_CreatedAt = 0, cm_UpdatedAt = 0, cm_Name = ''web'', cm_WalletID = 7, cm_IsActive = True\<rparr>,
    rq_cost = \<lparr>units = 12000\<rparr>, rq_event = sent_example, rq_description = ''SMS via web (express) to +98''\<rparr>"

lemma prepare_example: "prepare rt_example service_example cmd_example (db_channel_example, credit_example, v) = (Inr sms_request_example, (db_channel_example, credit_example, v))"
proof -
  have m: "db_money \<lparr>units = 12000\<rparr>" by (simp add: db_money_def)
  show ?thesis
    by (simp add: prepare_def service_example_def cmd_example_def db_channel_example_def GetByName_def GetByLineType_def mem_gorm_def toChannelModel_def
        toSMSCostModel_def db_money_roundtrip [OF m] IsPositive_def generateMessageID_def rt_example_def new_event_def Let_def LineTypeExpress_def
        sms_request_example_def sent_example_def sent_to_def second_ns_def)
qed

lemma reserve_example:
  "request_step service_example store_example sms_request_example Reserving (db_channel_example, credit_example, v)
    = Some (Enqueueing 18000, (db_channel_example, accepted_credit_example, v))"
proof -
  have r: "reserveScript (balanceKey 7) (reservationKey mid) 12000 credit_example = (Inr (RInt 18000), credit_example\<lparr>keys :=
      (keys credit_example)(balanceKey 7 \<mapsto> RStr (FormatInt 18000), reservationKey mid \<mapsto> RStr (FormatInt 12000))\<rparr>)" for mid
    using reserve_run [OF credit_example_keys(1,2), of 12000 mid] credit_example_keys(3,4) by simp
  then show ?thesis by (simp add: sms_request_example_def toChannelModel_def redis_reservations_def beside_client_def accepted_credit_example_def)
qed

lemma enqueue_example:
  "\<exists>res. request_step service_example store_example sms_request_example (Enqueueing 18000) (db_channel_example, accepted_credit_example, v)
    = Some (Answered (Inr res), (accepted_db_example, accepted_credit_example, v))"
  by (simp add: service_example_def sms_request_example_def Enqueue_def json_Marshal_def sent_example_def sent_to_def in_years_def second_ns_def mem_gorm_def
      db_channel_example_def outbox_row_def accepted_db_example_def)

lemma steps_interleaved:
  assumes "wk_db W = G" "sender_ok (\<lambda>w. (dbv w, red w)) sent (wk_sender W)" "clock_ok (\<lambda>w. (dbv w, red w, sent w)) now"
  shows "interleaved G dbv red sent eval w0 qs js w \<Longrightarrow> k < length js \<Longrightarrow> js ! k = (ev, st) \<Longrightarrow>
    worker_steps n W (redis_reservations (Suc fuel) eval loader) now c ev st w = (st', w') \<Longrightarrow>
    interleaved G dbv red sent eval w0 qs (js[k := (ev, st')]) w'"
proof (induction n arbitrary: js st w)
  case 0
  then have "js[k := (ev, st')] = js" "w' = w" by (auto simp: list_update_same_conv)
  then show ?case using 0 by simp
next
  case (Suc n)
  obtain st1 w1 where 1: "worker_step W (redis_reservations (Suc fuel) eval loader) now c ev st w = (st1, w1)" by (metis surj_pair)
  have "interleaved G dbv red sent eval w0 qs (js[k := (ev, st1)]) w1" by (rule interleaved.delivery [OF Suc.prems(1-3) assms 1])
  from Suc.IH [OF this] Suc.prems(2,4) 1 show ?case by simp
qed

lemma sending_example:
  "\<exists>w'. worker_steps 4 worker_example store_example ticking None sent_example Beginning accepted_example = (Debiting, w')"
  by (simp add: step_eval eval_nat_numeral)

theorem interleaving_covered_witness:
  "\<exists>qs w b. interleaved mem_gorm fst (\<lambda>w. fst (snd w)) log_of beside_client opening_example qs [(sent_example, Debiting)] w
    \<and> held (fst (snd w)) (ev_MessageID sent_example) = Some 12000 \<and> wallet_has (fst w) 7 b \<and> 12000 \<le> units b"
proof -
  let ?run = "interleaved mem_gorm fst (\<lambda>w. fst (snd w)) log_of beside_client opening_example"
  obtain res where e: "request_step service_example store_example sms_request_example (Enqueueing 18000) (db_channel_example, accepted_credit_example, snd (snd opening_example))
      = Some (Answered (Inr res), accepted_example)"
    using enqueue_example [of "snd (snd opening_example)"] by (auto simp: accepted_example_def simp del: request_step.simps)
  have p: "prepare rt_example service_example cmd_example opening_example = (Inr sms_request_example, opening_example)"
    using prepare_example [of "snd (snd opening_example)"] by (simp add: opening_example_def)
  have 1: "?run [(sms_request_example, Reserving)] [] opening_example"
    using interleaved.prepared [OF interleaved.start service_example_new rt_example_ok p] by simp
  have r: "request_step service_example store_example sms_request_example Reserving opening_example
      = Some (Enqueueing 18000, (db_channel_example, accepted_credit_example, snd (snd opening_example)))"
    using reserve_example [of "snd (snd opening_example)"] by (simp add: opening_example_def del: request_step.simps)
  have "sms_outbox (fst opening_example) = []" using opening_example_ok by (simp add: fresh_stores_def)
  then have 2: "?run [(sms_request_example, Enqueueing 18000)] [] (db_channel_example, accepted_credit_example, snd (snd opening_example))"
    using interleaved.request [OF 1, of 0, OF _ _ service_example_new _ r] by (simp add: announced_rows_def own_row_def)
  have "?run [(sms_request_example, Answered (Inr res))] [] accepted_example"
    using interleaved.request [OF 2, of 0, OF _ _ service_example_new _ e] by simp
  moreover have "\<exists>row \<in> set (sms_outbox (fst accepted_example)). json_Unmarshal (Some (pb_Body (publishing_of row))) = Inr sent_example"
    using json_roundtrip_aux [OF sent_example_ok]
    by (simp add: accepted_example_def accepted_db_example_def add_outbox_def publishing_of_def outbox_row_def)
  ultimately have "?run [(sms_request_example, Answered (Inr res))] [(sent_example, Beginning)] accepted_example"
    using interleaved.taken [of mem_gorm fst _ log_of beside_client opening_example _ "[]"] by fastforce
  moreover obtain w where "worker_steps 4 worker_example store_example ticking None sent_example Beginning accepted_example = (Debiting, w)"
    using sending_example by (elim exE)
  ultimately have run: "?run [(sms_request_example, Answered (Inr res))] [(sent_example, Debiting)] w"
    using steps_interleaved [OF worker_example_ok(1,2) gateway_contracts(4), of _ _ _ _ _ 0] by fastforce
  obtain b where "held (fst (snd w)) (ev_MessageID sent_example) = Some 12000" "wallet_has (fst w) 7 b" "12000 \<le> units b"
    using interleaving_covered [OF gateway_contracts(1,2) mem_clean_writes opening_example_ok run] by (auto simp: sent_example_sel)
  with run show ?thesis by (intro exI conjI)
qed

end
