(* ===== verification/ApiDocs.thy ===== *)
theory ApiDocs
  imports HttpApi
begin

text \<open>
  The documentation of the interface that the program serves: the template of \<^verbatim>\<open>docs/swagger/docs.go\<close> as a JSON value,
  and the JSON contract of the structures that requests and answers are read from and written to. The structures of
  \<^verbatim>\<open>swagger_models.go\<close> exist for the documentation only; the handlers use those of the application. Filling in the
  template and serving it are work of the \<^verbatim>\<open>swag\<close> package, which is not part of the sources.
\<close>

section \<open>Structures and their tags\<close>

datatype go_type = GoString | GoInt | GoInt64 | GoFloat64 | GoBool | GoTime | GoTimePtr

text \<open>A field: its name in JSON, its type, the option \<^verbatim>\<open>omitempty\<close>, \<^verbatim>\<open>binding:"required"\<close>, and the tag \<^verbatim>\<open>example\<close>.\<close>

record struct_field =
  sf_json :: string
  sf_type :: go_type
  sf_omitempty :: bool
  sf_required :: bool
  sf_example :: "string option"

definition plain :: "string \<Rightarrow> go_type \<Rightarrow> struct_field" where
  "plain n t = \<lparr>sf_json = n, sf_type = t, sf_omitempty = False, sf_required = False, sf_example = None\<rparr>"

definition omitempty :: "string \<Rightarrow> go_type \<Rightarrow> struct_field" where
  "omitempty n t = (plain n t)\<lparr>sf_omitempty := True\<rparr>"

definition required :: "string \<Rightarrow> go_type \<Rightarrow> struct_field" where
  "required n t = (plain n t)\<lparr>sf_required := True\<rparr>"

definition example :: "string \<Rightarrow> go_type \<Rightarrow> string \<Rightarrow> struct_field" where
  "example n t e = (plain n t)\<lparr>sf_example := Some e\<rparr>"

lemmas field_defs = plain_def omitempty_def required_def example_def

subsection \<open>The structures of the application\<close>

definition SendSMSRequest_fields :: "struct_field list" where
  "SendSMSRequest_fields = [required ''line'' GoString, required ''dest'' GoString, required ''channel'' GoString, required ''message'' GoString]"

definition SendSMSResponse_fields :: "struct_field list" where
  "SendSMSResponse_fields = [plain ''accepted'' GoBool, plain ''message_id'' GoString, plain ''cost'' GoFloat64, plain ''remaining_balance'' GoFloat64,
    plain ''channel'' GoString, plain ''line'' GoString, plain ''dest'' GoString, plain ''message'' GoString]"

definition ErrorResponse_fields :: "struct_field list" where
  "ErrorResponse_fields = [plain ''error'' GoString, omitempty ''details'' GoString]"

definition SMSDeliveryResponse_fields :: "struct_field list" where
  "SMSDeliveryResponse_fields = [plain ''message_id'' GoString, plain ''wallet_id'' GoInt64, plain ''destination'' GoString, plain ''message'' GoString,
    plain ''line'' GoString, plain ''channel'' GoString, plain ''status'' GoString, plain ''attempts'' GoInt, omitempty ''last_error'' GoString,
    plain ''created_at'' GoTime, plain ''updated_at'' GoTime, omitempty ''delivered_at'' GoTimePtr]"

definition CreateWalletRequest_fields :: "struct_field list" where
  "CreateWalletRequest_fields = [plain ''balance'' GoFloat64]"

definition TopUpWalletRequest_fields :: "struct_field list" where
  "TopUpWalletRequest_fields = [required ''amount'' GoFloat64, plain ''reference_id'' GoString]"

definition CreateChannelRequest_fields :: "struct_field list" where
  "CreateChannelRequest_fields = [required ''name'' GoString, required ''wallet_id'' GoInt64]"

definition WalletResponse_fields :: "struct_field list" where
  "WalletResponse_fields = [plain ''id'' GoInt64, plain ''balance'' GoFloat64, plain ''created_at'' GoString, plain ''updated_at'' GoString]"

definition ChannelResponse_fields :: "struct_field list" where
  "ChannelResponse_fields = [plain ''id'' GoInt64, plain ''name'' GoString, plain ''wallet_id'' GoInt64, plain ''is_active'' GoBool,
    plain ''created_at'' GoString, plain ''updated_at'' GoString]"

definition TransactionResponse_fields :: "struct_field list" where
  "TransactionResponse_fields = [plain ''id'' GoInt64, plain ''wallet_id'' GoInt64, plain ''amount'' GoFloat64, plain ''type'' GoString,
    plain ''description'' GoString, plain ''reference_id'' GoString, plain ''created_at'' GoString]"

subsection \<open>The structures of the documentation\<close>

definition SwaggerSMSRequest_fields :: "struct_field list" where
  "SwaggerSMSRequest_fields = [example ''line'' GoString ''express'', example ''dest'' GoString ''989121234567'', example ''channel'' GoString ''main'',
    example ''message'' GoString ''Your verification code is 123456'']"

definition SwaggerSMSResponse_fields :: "struct_field list" where
  "SwaggerSMSResponse_fields = [plain ''accepted'' GoBool, plain ''message_id'' GoString, plain ''cost'' GoFloat64, plain ''remaining_balance'' GoFloat64,
    plain ''channel'' GoString, plain ''line'' GoString, plain ''dest'' GoString, plain ''message'' GoString]"

definition SwaggerErrorResponse_fields :: "struct_field list" where
  "SwaggerErrorResponse_fields = [plain ''error'' GoString, omitempty ''details'' GoString]"

definition SwaggerDeliveryReport_fields :: "struct_field list" where
  "SwaggerDeliveryReport_fields = [plain ''message_id'' GoString, plain ''wallet_id'' GoInt64, plain ''destination'' GoString, plain ''message'' GoString,
    plain ''line'' GoString, plain ''channel'' GoString, plain ''status'' GoString, plain ''attempts'' GoInt, omitempty ''last_error'' GoString,
    plain ''created_at'' GoTime, plain ''updated_at'' GoTime, omitempty ''delivered_at'' GoTimePtr]"

section \<open>Answers as JSON\<close>

datatype go_value = VString string | VInteger int | VFloat float64 | VBool bool | VTimeOf time | VTimePtr "time option"

text \<open>What \<^verbatim>\<open>omitempty\<close> leaves out, and \<^verbatim>\<open>json.Marshal\<close>: a number that is not finite and a time outside of the years 0 to 9999 are refused.\<close>

fun is_empty :: "go_value \<Rightarrow> bool" where
  "is_empty (VString s) \<longleftrightarrow> s = []"
| "is_empty (VInteger n) \<longleftrightarrow> n = 0"
| "is_empty (VFloat x) \<longleftrightarrow> x = Fin 0"
| "is_empty (VBool b) \<longleftrightarrow> \<not> b"
| "is_empty (VTimeOf t) \<longleftrightarrow> False"
| "is_empty (VTimePtr p) \<longleftrightarrow> p = None"

fun marshal_value :: "go_value \<Rightarrow> json option" where
  "marshal_value (VString s) = Some (JStr (utf8_clean s))"
| "marshal_value (VInteger n) = Some (JInt n)"
| "marshal_value (VFloat (Fin x)) = Some (if of_int \<lfloor>x\<rfloor> = x then JInt \<lfloor>x\<rfloor> else JFrac)"
| "marshal_value (VFloat _) = None"
| "marshal_value (VBool b) = Some (JBool b)"
| "marshal_value (VTimeOf t) = (if in_years t then Some (JStr (fmt_time t)) else None)"
| "marshal_value (VTimePtr None) = Some JNull"
| "marshal_value (VTimePtr (Some t)) = (if in_years t then Some (JStr (fmt_time t)) else None)"

fun marshal_fields :: "(struct_field \<times> go_value) list \<Rightarrow> (string \<times> json) list option" where
  "marshal_fields [] = Some []"
| "marshal_fields ((f, v) # fvs) = (if sf_omitempty f \<and> is_empty v then marshal_fields fvs
     else case marshal_value v of None \<Rightarrow> None
       | Some j \<Rightarrow> map_option (\<lambda>ps. (sf_json f, j) # ps) (marshal_fields fvs))"

definition marshal_struct :: "struct_field list \<Rightarrow> go_value list \<Rightarrow> json option" where
  "marshal_struct fs vs = map_option JObj (marshal_fields (zip fs vs))"

definition error_values :: "ErrorResponse \<Rightarrow> go_value list" where
  "error_values r = [VString (er_Error r), VString (er_Details r)]"

definition sms_values :: "SendSMSResponse \<Rightarrow> go_value list" where
  "sms_values r = [VBool (rsp_Accepted r), VString (rsp_MessageID r), VFloat (rsp_Cost r), VFloat (rsp_RemainingBalance r), VString (rsp_Channel r),
    VString (rsp_Line r), VString (rsp_Dest r), VString (rsp_Message r)]"

definition wallet_values :: "WalletResponse \<Rightarrow> go_value list" where
  "wallet_values r = [VInteger (wrs_ID r), VFloat (wrs_Balance r), VString (wrs_CreatedAt r), VString (wrs_UpdatedAt r)]"

definition channel_values :: "ChannelResponse \<Rightarrow> go_value list" where
  "channel_values r = [VInteger (crs_ID r), VString (crs_Name r), VInteger (crs_WalletID r), VBool (crs_IsActive r), VString (crs_CreatedAt r),
    VString (crs_UpdatedAt r)]"

definition transaction_values :: "TransactionResponse \<Rightarrow> go_value list" where
  "transaction_values r = [VInteger (trs_ID r), VInteger (trs_WalletID r), VFloat (trs_Amount r), VString (trs_Type r), VString (trs_Description r),
    VString (trs_ReferenceID r), VString (trs_CreatedAt r)]"

definition report_values :: "SMSDeliveryResponse \<Rightarrow> go_value list" where
  "report_values r = [VString (sd_MessageID r), VInteger (sd_WalletID r), VString (sd_Destination r), VString (sd_Message r), VString (sd_Line r),
    VString (sd_Channel r), VString (sd_Status r), VInteger (sd_Attempts r), VString (sd_LastError r), VTimeOf (sd_CreatedAt r), VTimeOf (sd_UpdatedAt r),
    VTimePtr (sd_DeliveredAt r)]"

definition marshal_list :: "('a \<Rightarrow> json option) \<Rightarrow> 'a list \<Rightarrow> json option" where
  "marshal_list f xs = map_option JArr (those (map f xs))"

text \<open>The body of an answer: nothing if it has none that is JSON, or if it cannot be written.\<close>

fun answer_json :: "answer \<Rightarrow> json option" where
  "answer_json NoBody = None"
| "answer_json (Page t) = None"
| "answer_json (AnError r) = marshal_struct ErrorResponse_fields (error_values r)"
| "answer_json (AnSMS r) = marshal_struct SendSMSResponse_fields (sms_values r)"
| "answer_json (AWallet r) = marshal_struct WalletResponse_fields (wallet_values r)"
| "answer_json (AChannel r) = marshal_struct ChannelResponse_fields (channel_values r)"
| "answer_json (Channels rs) = marshal_list (marshal_struct ChannelResponse_fields \<circ> channel_values) rs"
| "answer_json (Transactions rs) = marshal_list (marshal_struct TransactionResponse_fields \<circ> transaction_values) rs"
| "answer_json (AReport r) = marshal_struct SMSDeliveryResponse_fields (report_values r)"
| "answer_json (Reports rs) = marshal_list (marshal_struct SMSDeliveryResponse_fields \<circ> report_values) rs"

section \<open>The documentation\<close>

subsection \<open>Paths\<close>

definition doc_channels :: json where
  "doc_channels = JObj [
    (''get'', JObj [
      (''security'', JArr [JObj [(''AdminAPIKey'', JArr [])]]),
      (''produces'', JArr [JStr ''application/json'']),
      (''tags'', JArr [JStr ''Channels'']),
      (''summary'', JStr ''List SMS channels''),
      (''responses'', JObj [
        (''200'', JObj [
          (''description'', JStr ''OK''),
          (''schema'', JObj [(''type'', JStr ''array''), (''items'', JObj [(''$ref'', JStr ''#/definitions/admin.ChannelResponse'')])])])])]),
    (''post'', JObj [
      (''security'', JArr [JObj [(''AdminAPIKey'', JArr [])]]),
      (''consumes'', JArr [JStr ''application/json'']),
      (''produces'', JArr [JStr ''application/json'']),
      (''tags'', JArr [JStr ''Channels'']),
      (''summary'', JStr ''Create an SMS channel''),
      (''parameters'', JArr [
        JObj [
          (''description'', JStr ''Channel request''),
          (''name'', JStr ''request''),
          (''in'', JStr ''body''),
          (''required'', JBool True),
          (''schema'', JObj [(''$ref'', JStr ''#/definitions/admin.CreateChannelRequest'')])]]),
      (''responses'', JObj [
        (''201'', JObj [(''description'', JStr ''Created''), (''schema'', JObj [(''$ref'', JStr ''#/definitions/admin.ChannelResponse'')])])])])]"

definition doc_sms :: json where
  "doc_sms = JObj [
    (''post'', JObj [
      (''description'', JStr ''Reserves credit and queues an asynchronous SMS delivery.''),
      (''consumes'', JArr [JStr ''application/json'']),
      (''produces'', JArr [JStr ''application/json'']),
      (''tags'', JArr [JStr ''SMS'']),
      (''summary'', JStr ''Queue an SMS''),
      (''parameters'', JArr [
        JObj [
          (''description'', JStr ''SMS request''),
          (''name'', JStr ''request''),
          (''in'', JStr ''body''),
          (''required'', JBool True),
          (''schema'', JObj [(''$ref'', JStr ''#/definitions/handler.SwaggerSMSRequest'')])]]),
      (''responses'', JObj [
        (''202'', JObj [(''description'', JStr ''Accepted''), (''schema'', JObj [(''$ref'', JStr ''#/definitions/handler.SwaggerSMSResponse'')])]),
        (''400'', JObj [
          (''description'', JStr ''Bad Request''),
          (''schema'', JObj [(''$ref'', JStr ''#/definitions/handler.SwaggerErrorResponse'')])]),
        (''422'', JObj [
          (''description'', JStr ''Unprocessable Entity''),
          (''schema'', JObj [(''$ref'', JStr ''#/definitions/handler.SwaggerErrorResponse'')])]),
        (''429'', JObj [
          (''description'', JStr ''Too Many Requests''),
          (''schema'', JObj [(''$ref'', JStr ''#/definitions/handler.SwaggerErrorResponse'')])])])])]"

definition doc_sms_message_id :: json where
  "doc_sms_message_id = JObj [
    (''get'', JObj [
      (''security'', JArr [JObj [(''AdminAPIKey'', JArr [])]]),
      (''produces'', JArr [JStr ''application/json'']),
      (''tags'', JArr [JStr ''SMS Reports'']),
      (''summary'', JStr ''Get an SMS delivery report''),
      (''parameters'', JArr [
        JObj [
          (''type'', JStr ''string''),
          (''description'', JStr ''SMS message ID''),
          (''name'', JStr ''message_id''),
          (''in'', JStr ''path''),
          (''required'', JBool True)]]),
      (''responses'', JObj [
        (''200'', JObj [(''description'', JStr ''OK''), (''schema'', JObj [(''$ref'', JStr ''#/definitions/handler.SwaggerDeliveryReport'')])])])])]"

definition doc_wallets :: json where
  "doc_wallets = JObj [
    (''post'', JObj [
      (''security'', JArr [JObj [(''AdminAPIKey'', JArr [])]]),
      (''consumes'', JArr [JStr ''application/json'']),
      (''produces'', JArr [JStr ''application/json'']),
      (''tags'', JArr [JStr ''Wallets'']),
      (''summary'', JStr ''Create a wallet''),
      (''parameters'', JArr [
        JObj [
          (''description'', JStr ''Wallet request''),
          (''name'', JStr ''request''),
          (''in'', JStr ''body''),
          (''required'', JBool True),
          (''schema'', JObj [(''$ref'', JStr ''#/definitions/admin.CreateWalletRequest'')])]]),
      (''responses'', JObj [
        (''201'', JObj [(''description'', JStr ''Created''), (''schema'', JObj [(''$ref'', JStr ''#/definitions/admin.WalletResponse'')])])])])]"

definition doc_wallets_id :: json where
  "doc_wallets_id = JObj [
    (''get'', JObj [
      (''security'', JArr [JObj [(''AdminAPIKey'', JArr [])]]),
      (''produces'', JArr [JStr ''application/json'']),
      (''tags'', JArr [JStr ''Wallets'']),
      (''summary'', JStr ''Get a wallet balance''),
      (''parameters'', JArr [
        JObj [
          (''type'', JStr ''integer''),
          (''description'', JStr ''Wallet ID''),
          (''name'', JStr ''id''),
          (''in'', JStr ''path''),
          (''required'', JBool True)]]),
      (''responses'', JObj [
        (''200'', JObj [(''description'', JStr ''OK''), (''schema'', JObj [(''$ref'', JStr ''#/definitions/admin.WalletResponse'')])])])])]"

definition doc_wallets_id_sms :: json where
  "doc_wallets_id_sms = JObj [
    (''get'', JObj [
      (''security'', JArr [JObj [(''AdminAPIKey'', JArr [])]]),
      (''produces'', JArr [JStr ''application/json'']),
      (''tags'', JArr [JStr ''SMS Reports'']),
      (''summary'', JStr ''List SMS delivery reports for a wallet''),
      (''parameters'', JArr [
        JObj [
          (''type'', JStr ''integer''),
          (''description'', JStr ''Wallet ID''),
          (''name'', JStr ''id''),
          (''in'', JStr ''path''),
          (''required'', JBool True)],
        JObj [
          (''type'', JStr ''integer''),
          (''default'', JInt 100),
          (''description'', JStr ''Maximum reports (1-500)''),
          (''name'', JStr ''limit''),
          (''in'', JStr ''query'')]]),
      (''responses'', JObj [
        (''200'', JObj [
          (''description'', JStr ''OK''),
          (''schema'', JObj [(''type'', JStr ''array''), (''items'', JObj [(''$ref'', JStr ''#/definitions/handler.SwaggerDeliveryReport'')])])])])])]"

definition doc_wallets_id_topup :: json where
  "doc_wallets_id_topup = JObj [
    (''post'', JObj [
      (''security'', JArr [JObj [(''AdminAPIKey'', JArr [])]]),
      (''consumes'', JArr [JStr ''application/json'']),
      (''produces'', JArr [JStr ''application/json'']),
      (''tags'', JArr [JStr ''Wallets'']),
      (''summary'', JStr ''Top up a wallet''),
      (''parameters'', JArr [
        JObj [
          (''type'', JStr ''integer''),
          (''description'', JStr ''Wallet ID''),
          (''name'', JStr ''id''),
          (''in'', JStr ''path''),
          (''required'', JBool True)],
        JObj [
          (''description'', JStr ''Top-up request''),
          (''name'', JStr ''request''),
          (''in'', JStr ''body''),
          (''required'', JBool True),
          (''schema'', JObj [(''$ref'', JStr ''#/definitions/admin.TopUpWalletRequest'')])]]),
      (''responses'', JObj [
        (''200'', JObj [(''description'', JStr ''OK''), (''schema'', JObj [(''$ref'', JStr ''#/definitions/admin.WalletResponse'')])])])])]"

definition doc_wallets_id_transactions :: json where
  "doc_wallets_id_transactions = JObj [
    (''get'', JObj [
      (''security'', JArr [JObj [(''AdminAPIKey'', JArr [])]]),
      (''produces'', JArr [JStr ''application/json'']),
      (''tags'', JArr [JStr ''Wallets'']),
      (''summary'', JStr ''List wallet transactions''),
      (''parameters'', JArr [
        JObj [
          (''type'', JStr ''integer''),
          (''description'', JStr ''Wallet ID''),
          (''name'', JStr ''id''),
          (''in'', JStr ''path''),
          (''required'', JBool True)]]),
      (''responses'', JObj [
        (''200'', JObj [
          (''description'', JStr ''OK''),
          (''schema'', JObj [(''type'', JStr ''array''), (''items'', JObj [(''$ref'', JStr ''#/definitions/admin.TransactionResponse'')])])])])])]"

subsection \<open>Definitions\<close>

definition admin_ChannelResponse_schema :: json where
  "admin_ChannelResponse_schema = JObj [
    (''type'', JStr ''object''),
    (''properties'', JObj [
      (''created_at'', JObj [(''type'', JStr ''string'')]),
      (''id'', JObj [(''type'', JStr ''integer'')]),
      (''is_active'', JObj [(''type'', JStr ''boolean'')]),
      (''name'', JObj [(''type'', JStr ''string'')]),
      (''updated_at'', JObj [(''type'', JStr ''string'')]),
      (''wallet_id'', JObj [(''type'', JStr ''integer'')])])]"

definition admin_CreateChannelRequest_schema :: json where
  "admin_CreateChannelRequest_schema = JObj [
    (''type'', JStr ''object''),
    (''required'', JArr [JStr ''name'', JStr ''wallet_id'']),
    (''properties'', JObj [(''name'', JObj [(''type'', JStr ''string'')]), (''wallet_id'', JObj [(''type'', JStr ''integer'')])])]"

definition admin_CreateWalletRequest_schema :: json where
  "admin_CreateWalletRequest_schema = JObj [(''type'', JStr ''object''), (''properties'', JObj [(''balance'', JObj [(''type'', JStr ''number'')])])]"

definition admin_TopUpWalletRequest_schema :: json where
  "admin_TopUpWalletRequest_schema = JObj [
    (''type'', JStr ''object''),
    (''required'', JArr [JStr ''amount'']),
    (''properties'', JObj [(''amount'', JObj [(''type'', JStr ''number'')]), (''reference_id'', JObj [(''type'', JStr ''string'')])])]"

definition admin_TransactionResponse_schema :: json where
  "admin_TransactionResponse_schema = JObj [
    (''type'', JStr ''object''),
    (''properties'', JObj [
      (''amount'', JObj [(''type'', JStr ''number'')]),
      (''created_at'', JObj [(''type'', JStr ''string'')]),
      (''description'', JObj [(''type'', JStr ''string'')]),
      (''id'', JObj [(''type'', JStr ''integer'')]),
      (''reference_id'', JObj [(''type'', JStr ''string'')]),
      (''type'', JObj [(''type'', JStr ''string'')]),
      (''wallet_id'', JObj [(''type'', JStr ''integer'')])])]"

definition admin_WalletResponse_schema :: json where
  "admin_WalletResponse_schema = JObj [
    (''type'', JStr ''object''),
    (''properties'', JObj [
      (''balance'', JObj [(''type'', JStr ''number'')]),
      (''created_at'', JObj [(''type'', JStr ''string'')]),
      (''id'', JObj [(''type'', JStr ''integer'')]),
      (''updated_at'', JObj [(''type'', JStr ''string'')])])]"

definition handler_SwaggerDeliveryReport_schema :: json where
  "handler_SwaggerDeliveryReport_schema = JObj [
    (''type'', JStr ''object''),
    (''properties'', JObj [
      (''attempts'', JObj [(''type'', JStr ''integer'')]),
      (''channel'', JObj [(''type'', JStr ''string'')]),
      (''created_at'', JObj [(''type'', JStr ''string'')]),
      (''delivered_at'', JObj [(''type'', JStr ''string'')]),
      (''destination'', JObj [(''type'', JStr ''string'')]),
      (''last_error'', JObj [(''type'', JStr ''string'')]),
      (''line'', JObj [(''type'', JStr ''string'')]),
      (''message'', JObj [(''type'', JStr ''string'')]),
      (''message_id'', JObj [(''type'', JStr ''string'')]),
      (''status'', JObj [(''type'', JStr ''string'')]),
      (''updated_at'', JObj [(''type'', JStr ''string'')]),
      (''wallet_id'', JObj [(''type'', JStr ''integer'')])])]"

definition handler_SwaggerErrorResponse_schema :: json where
  "handler_SwaggerErrorResponse_schema = JObj [
    (''type'', JStr ''object''),
    (''properties'', JObj [(''details'', JObj [(''type'', JStr ''string'')]), (''error'', JObj [(''type'', JStr ''string'')])])]"

definition handler_SwaggerSMSRequest_schema :: json where
  "handler_SwaggerSMSRequest_schema = JObj [
    (''type'', JStr ''object''),
    (''properties'', JObj [
      (''channel'', JObj [(''type'', JStr ''string''), (''example'', JStr ''main'')]),
      (''dest'', JObj [(''type'', JStr ''string''), (''example'', JStr ''989121234567'')]),
      (''line'', JObj [(''type'', JStr ''string''), (''example'', JStr ''express'')]),
      (''message'', JObj [(''type'', JStr ''string''), (''example'', JStr ''Your verification code is 123456'')])])]"

definition handler_SwaggerSMSResponse_schema :: json where
  "handler_SwaggerSMSResponse_schema = JObj [
    (''type'', JStr ''object''),
    (''properties'', JObj [
      (''accepted'', JObj [(''type'', JStr ''boolean'')]),
      (''channel'', JObj [(''type'', JStr ''string'')]),
      (''cost'', JObj [(''type'', JStr ''number'')]),
      (''dest'', JObj [(''type'', JStr ''string'')]),
      (''line'', JObj [(''type'', JStr ''string'')]),
      (''message'', JObj [(''type'', JStr ''string'')]),
      (''message_id'', JObj [(''type'', JStr ''string'')]),
      (''remaining_balance'', JObj [(''type'', JStr ''number'')])])]"

subsection \<open>The whole document\<close>

record swag_Spec =
  Version :: string
  Host :: string
  BasePath :: string
  Schemes :: "string list"
  Title :: string
  Description :: string

definition doc_securityDefinitions :: json where
  "doc_securityDefinitions = JObj [(''AdminAPIKey'', JObj [(''type'', JStr ''apiKey''), (''name'', JStr ''X-Admin-API-Key''), (''in'', JStr ''header'')])]"

definition docTemplate :: "swag_Spec \<Rightarrow> json" where
  "docTemplate info = JObj [
    (''schemes'', JArr (map JStr (Schemes info))),
    (''swagger'', JStr ''2.0''),
    (''info'', JObj [(''description'', JStr (Description info)), (''title'', JStr (Title info)), (''contact'', JObj []), (''version'', JStr (Version info))]),
    (''host'', JStr (Host info)),
    (''basePath'', JStr (BasePath info)),
    (''paths'', JObj [
      (''/channels'', doc_channels),
      (''/sms'', doc_sms),
      (''/sms/{message_id}'', doc_sms_message_id),
      (''/wallets'', doc_wallets),
      (''/wallets/{id}'', doc_wallets_id),
      (''/wallets/{id}/sms'', doc_wallets_id_sms),
      (''/wallets/{id}/topup'', doc_wallets_id_topup),
      (''/wallets/{id}/transactions'', doc_wallets_id_transactions)]),
    (''definitions'', JObj [
      (''admin.ChannelResponse'', admin_ChannelResponse_schema),
      (''admin.CreateChannelRequest'', admin_CreateChannelRequest_schema),
      (''admin.CreateWalletRequest'', admin_CreateWalletRequest_schema),
      (''admin.TopUpWalletRequest'', admin_TopUpWalletRequest_schema),
      (''admin.TransactionResponse'', admin_TransactionResponse_schema),
      (''admin.WalletResponse'', admin_WalletResponse_schema),
      (''handler.SwaggerDeliveryReport'', handler_SwaggerDeliveryReport_schema),
      (''handler.SwaggerErrorResponse'', handler_SwaggerErrorResponse_schema),
      (''handler.SwaggerSMSRequest'', handler_SwaggerSMSRequest_schema),
      (''handler.SwaggerSMSResponse'', handler_SwaggerSMSResponse_schema)]),
    (''securityDefinitions'', doc_securityDefinitions)]"

definition SwaggerInfo :: swag_Spec where
  "SwaggerInfo = \<lparr>Version = ''1.0'', Host = [], BasePath = ''/api/v1'', Schemes = [], Title = ''SMS Gateway API'',
    Description = ''Asynchronous SMS gateway with Redis credit reservations and delivery reports.''\<rparr>"

definition swagger_doc :: json where
  "swagger_doc = docTemplate SwaggerInfo"

section \<open>Reading the documentation\<close>

text \<open>The meaning of the parts of a Swagger 2.0 document that the document uses.\<close>

fun member :: "string \<Rightarrow> json \<Rightarrow> json option" where
  "member k (JObj ps) = map_of ps k"
| "member k _ = None"

fun members :: "json option \<Rightarrow> (string \<times> json) list" where
  "members (Some (JObj ps)) = ps"
| "members _ = []"

fun elements :: "json option \<Rightarrow> json list" where
  "elements (Some (JArr vs)) = vs"
| "elements _ = []"

definition operations :: "json \<Rightarrow> (string \<times> string \<times> json) list" where
  "operations doc = concat (map (\<lambda>(path, item). map (\<lambda>(method, op). (method, path, op)) (members (Some item))) (members (member ''paths'' doc)))"

text \<open>A reference into the definitions.\<close>

definition refers_to :: "json \<Rightarrow> string option" where
  "refers_to s = (case member ''$ref'' s of Some (JStr r) \<Rightarrow>
      if take 14 r = ''#/definitions/'' then Some (drop 14 r) else None | _ \<Rightarrow> None)"

definition resolve :: "json \<Rightarrow> json \<Rightarrow> json" where
  "resolve doc s = (case member ''$ref'' s of None \<Rightarrow> s
     | Some _ \<Rightarrow> (case Option.bind (refers_to s) (map_of (members (member ''definitions'' doc))) of Some d \<Rightarrow> d | None \<Rightarrow> JNull))"

definition security_header :: "json \<Rightarrow> json \<Rightarrow> string option" where
  "security_header doc op = (case elements (member ''security'' op) of
     [JObj [(scheme, _)]] \<Rightarrow> (case map_of (members (member ''securityDefinitions'' doc)) scheme of
        Some s \<Rightarrow> if member ''type'' s = Some (JStr ''apiKey'') \<and> member ''in'' s = Some (JStr ''header'')
          then (case member ''name'' s of Some (JStr n) \<Rightarrow> Some n | _ \<Rightarrow> None) else None
      | None \<Rightarrow> None)
   | _ \<Rightarrow> None)"

text \<open>The parameters of an operation, where they are and their names, and what its body refers to.\<close>

definition parameters :: "json \<Rightarrow> (string \<times> string) list" where
  "parameters op = concat (map (\<lambda>p. case (member ''in'' p, member ''name'' p) of
     (Some (JStr i), Some (JStr n)) \<Rightarrow> [(i, n)] | _ \<Rightarrow> []) (elements (member ''parameters'' op)))"

definition body_schemas :: "json \<Rightarrow> json list" where
  "body_schemas op = concat (map (\<lambda>p. case (member ''in'' p, member ''schema'' p) of
     (Some (JStr i), Some s) \<Rightarrow> if i = ''body'' then [s] else [] | _ \<Rightarrow> []) (elements (member ''parameters'' op)))"

definition response_schema :: "json \<Rightarrow> int \<Rightarrow> json option" where
  "response_schema op st = Option.bind (Option.bind (member ''responses'' op) (member (FormatInt st))) (member ''schema'')"

text \<open>A path of the documentation in the notation of the router.\<close>

fun gin_path :: "string \<Rightarrow> string" where
  "gin_path [] = []"
| "gin_path (c # cs) = (if c = CHR ''{'' then CHR '':'' # gin_path cs else if c = CHR ''}'' then gin_path cs else c # gin_path cs)"

definition gin_method :: "string \<Rightarrow> string" where
  "gin_method m = (if m = ''get'' then ''GET'' else if m = ''post'' then ''POST'' else m)"

text \<open>Whether a value has the form that a schema prescribes, with no members but those that it names.\<close>

definition required_members :: "json \<Rightarrow> json list" where
  "required_members s = elements (member ''required'' s)"

lemma member_size: "(k, x) \<in> set fs \<Longrightarrow> size x < Suc (size_list (size_prod (\<lambda>x. 0) size) fs)"
  by (induction fs) auto

function conforms :: "json \<Rightarrow> json \<Rightarrow> json \<Rightarrow> bool" where
  "conforms doc s (JArr vs) \<longleftrightarrow> member ''type'' (resolve doc s) = Some (JStr ''array'')
     \<and> (case member ''items'' (resolve doc s) of Some i \<Rightarrow> (\<forall>x \<in> set vs. conforms doc i x) | None \<Rightarrow> False)"
| "conforms doc s (JObj fs) \<longleftrightarrow> member ''type'' (resolve doc s) = Some (JStr ''object'')
     \<and> (\<forall>n \<in> set (required_members (resolve doc s)). \<exists>kx \<in> set fs. n = JStr (fst kx))
     \<and> (\<forall>kx \<in> set fs. case map_of (members (member ''properties'' (resolve doc s))) (fst kx) of Some p \<Rightarrow> conforms doc p (snd kx) | None \<Rightarrow> False)"
| "conforms doc s (JStr t) \<longleftrightarrow> member ''type'' (resolve doc s) = Some (JStr ''string'')"
| "conforms doc s (JBool b) \<longleftrightarrow> member ''type'' (resolve doc s) = Some (JStr ''boolean'')"
| "conforms doc s (JInt n) \<longleftrightarrow> member ''type'' (resolve doc s) \<in> {Some (JStr ''integer''), Some (JStr ''number'')}"
| "conforms doc s JFrac \<longleftrightarrow> member ''type'' (resolve doc s) = Some (JStr ''number'')"
| "conforms doc s JNull \<longleftrightarrow> False"
  by pat_completeness auto
termination
  by (relation "measure (\<lambda>(doc, s, v). size v)") (auto simp: less_Suc_eq_le size_list_estimation' dest: member_size)

section \<open>Schemas of structures\<close>

fun json_type :: "go_type \<Rightarrow> string" where
  "json_type GoString = ''string''"
| "json_type GoInt = ''integer''"
| "json_type GoInt64 = ''integer''"
| "json_type GoFloat64 = ''number''"
| "json_type GoBool = ''boolean''"
| "json_type GoTime = ''string''"
| "json_type GoTimePtr = ''string''"

definition property :: "struct_field \<Rightarrow> string \<times> json" where
  "property f = (sf_json f, JObj ((''type'', JStr (json_type (sf_type f))) # (case sf_example f of None \<Rightarrow> [] | Some e \<Rightarrow> [(''example'', JStr e)])))"

definition describes :: "struct_field list \<Rightarrow> json \<Rightarrow> bool" where
  "describes fs s \<longleftrightarrow> member ''type'' s = Some (JStr ''object'') \<and> member ''$ref'' s = None
    \<and> set (members (member ''properties'' s)) = set (map property fs) \<and> distinct (map fst (members (member ''properties'' s)))
    \<and> set (required_members s) = set (map (JStr \<circ> sf_json) (filter sf_required fs))"

text \<open>The structures behind the definitions of the document.\<close>

definition documented_structs :: "(string \<times> struct_field list) list" where
  "documented_structs = [(''admin.ChannelResponse'', ChannelResponse_fields), (''admin.CreateChannelRequest'', CreateChannelRequest_fields),
    (''admin.CreateWalletRequest'', CreateWalletRequest_fields), (''admin.TopUpWalletRequest'', TopUpWalletRequest_fields),
    (''admin.TransactionResponse'', TransactionResponse_fields), (''admin.WalletResponse'', WalletResponse_fields),
    (''handler.SwaggerDeliveryReport'', SwaggerDeliveryReport_fields), (''handler.SwaggerErrorResponse'', SwaggerErrorResponse_fields),
    (''handler.SwaggerSMSRequest'', SwaggerSMSRequest_fields), (''handler.SwaggerSMSResponse'', SwaggerSMSResponse_fields)]"

end
