(* ===== verification/ApiDocsProps.thy ===== *)
theory ApiDocsProps
  imports ApiDocs ApiProps
begin

text \<open>
  The documentation against the program: the operations it lists are the routes, its definitions are the structures the
  handlers use, and what the handlers answer has the documented form.
\<close>

section \<open>Operations and structures\<close>

definition documented_operation :: "string \<Rightarrow> string \<Rightarrow> json option" where
  "documented_operation method path = map_of (map (\<lambda>(m, p, op). ((gin_method m, BasePath SwaggerInfo @ gin_path p), op)) (operations swagger_doc)) (method, path)"

text \<open>The documentation page is not an operation; the other routes are, each once, and nothing else is.\<close>

lemma operations_exact:
  "set (map (\<lambda>(m, p, op). (gin_method m, BasePath SwaggerInfo @ gin_path p)) (operations swagger_doc))
    = set (map (\<lambda>(m, p, ep, protected). (m, p)) (filter (\<lambda>(m, p, ep, protected). ep \<noteq> EpSwagger) routes))"
  "distinct (map (\<lambda>(m, p, op). (gin_method m, BasePath SwaggerInfo @ gin_path p)) (operations swagger_doc))"
  by code_simp+

lemma structs_exact:
  "map fst (members (member ''definitions'' swagger_doc)) = map fst documented_structs"
  "list_all2 (\<lambda>(n, s) (n', fs). n = n' \<and> describes fs s) (members (member ''definitions'' swagger_doc)) documented_structs"
  by code_simp+

text \<open>What the document does not say: every member of a request to send is required.\<close>

lemma requirements_undocumented:
  "conforms swagger_doc (JObj [(''$ref'', JStr ''#/definitions/handler.SwaggerSMSRequest'')]) (JObj []) \<and> list_all sf_required SendSMSRequest_fields"
  by code_simp

section \<open>What the answer depends on\<close>

text \<open>Two requests agree on an input of a place and a name.\<close>

fun same_input :: "'b http_request \<Rightarrow> 'b http_request \<Rightarrow> string \<times> string \<Rightarrow> bool" where
  "same_input rq rq' (place, n) \<longleftrightarrow> (if place = ''path'' then rq_param rq n = rq_param rq' n
     else if place = ''query'' then rq_query rq n = rq_query rq' n
     else if place = ''header'' then rq_header rq n = rq_header rq' n
     else if place = ''body'' then rq_body rq = rq_body rq' else True)"

text \<open>The inputs of an operation that the document names: its parameters, and the header that carries the key.\<close>

definition documented_inputs :: "json \<Rightarrow> (string \<times> string) list" where
  "documented_inputs op = parameters op @ (case security_header swagger_doc op of Some h \<Rightarrow> [(''header'', h)] | None \<Rightarrow> [])"

text \<open>What the handlers look at; the body has no name of its own.\<close>

fun inputs :: "endpoint \<Rightarrow> (string \<times> string) list" where
  "inputs EpSendSMS = [(''body'', ''request'')]"
| "inputs EpCreateWallet = [(''body'', ''request'')]"
| "inputs EpGetWallet = [(''path'', ''id'')]"
| "inputs EpTopUpWallet = [(''path'', ''id''), (''body'', ''request'')]"
| "inputs EpGetWalletTransactions = [(''path'', ''id'')]"
| "inputs EpListSMSReports = [(''path'', ''id''), (''query'', ''limit'')]"
| "inputs EpCreateChannel = [(''body'', ''request'')]"
| "inputs EpListChannels = []"
| "inputs EpGetSMSReport = [(''path'', ''message_id'')]"
| "inputs EpSwagger = [(''path'', ''any'')]"

lemma run_endpoint_inputs:
  assumes "list_all (same_input rq rq') (inputs ep)" "ep \<noteq> EpSwagger"
  shows "run_endpoint rt S A B ep rq sl w = run_endpoint rt S A B ep rq' sl w"
  using assms
  by (cases ep) (simp_all add: run_endpoint_def SendSMS_def h_CreateWallet_def h_GetWallet_def h_TopUpWallet_def h_GetWalletTransactions_def
      h_ListSMSReports_def h_CreateChannel_def h_ListChannels_def h_GetSMSReport_def with_id_def)

definition inputs_documented :: "string \<times> string \<times> endpoint \<times> bool \<Rightarrow> bool" where
  "inputs_documented route = (case route of (m, p, ep, protected) \<Rightarrow> ep = EpSwagger \<or> (case documented_operation m p of None \<Rightarrow> False
     | Some op \<Rightarrow> documented_inputs op = inputs ep @ (if protected then [(''header'', ''X-Admin-API-Key'')] else [])
         \<and> security_header swagger_doc op = (if protected then Some ''X-Admin-API-Key'' else None)
         \<and> list_all (\<lambda>s. list_ex (\<lambda>(n, fs). refers_to s = Some n \<and> describes fs (resolve swagger_doc s)) documented_structs) (body_schemas op)))"

lemma routes_inputs: "list_all inputs_documented routes"
  by code_simp

text \<open>
  C28: the documentation names every input. The operations of the document are the routes other than the documentation page, and what a route
  answers and does depends on nothing in the request but what the document names for it: the parameters in the path, the query and the body,
  and the header with the key, which is named exactly on the protected routes; its body has the schema of one of the structures. The other way round, an operation that is documented is a
  route.
\<close>

theorem documentation_exact:
  assumes "route \<in> set routes" "fst (snd (snd route)) \<noteq> EpSwagger"
  shows "\<exists>op. documented_operation (fst route) (fst (snd route)) = Some op
    \<and> (\<forall>rq rq'. (\<forall>inp \<in> set (documented_inputs op). same_input rq rq' inp) \<longrightarrow>
        (\<forall>sl w. serve key rt S A B route rq sl w = serve key rt S A B route rq' sl w))
    \<and> security_header swagger_doc op = (if snd (snd (snd route)) then Some ''X-Admin-API-Key'' else None)
    \<and> (\<forall>s \<in> set (body_schemas op). \<exists>(n, fs) \<in> set documented_structs. refers_to s = Some n \<and> describes fs (resolve swagger_doc s))
    \<and> (\<forall>(m, p, op') \<in> set (operations swagger_doc). \<exists>ep protected. (gin_method m, BasePath SwaggerInfo @ gin_path p, ep, protected) \<in> set routes)"
proof -
  obtain m p ep protected where route: "route = (m, p, ep, protected)" by (cases route)
  have "inputs_documented route" using routes_inputs assms(1) by (auto simp: list_all_iff)
  then obtain op where op: "documented_operation m p = Some op"
    and ins: "documented_inputs op = inputs ep @ (if protected then [(''header'', ''X-Admin-API-Key'')] else [])"
    using assms(2) unfolding inputs_documented_def route by (auto split: option.splits)
  have sec: "security_header swagger_doc op = (if protected then Some ''X-Admin-API-Key'' else None)"
    and body: "\<forall>s \<in> set (body_schemas op). \<exists>(n, fs) \<in> set documented_structs. refers_to s = Some n \<and> describes fs (resolve swagger_doc s)"
    using \<open>inputs_documented route\<close> op assms(2) unfolding inputs_documented_def route by (simp_all add: list_all_iff list_ex_iff)
  have same: "serve key rt S A B route rq sl w = serve key rt S A B route rq' sl w"
    if "\<forall>inp \<in> set (documented_inputs op). same_input rq rq' inp" for rq rq' sl w
  proof -
    have "list_all (same_input rq rq') (inputs ep)" "protected \<longrightarrow> rq_header rq ''X-Admin-API-Key'' = rq_header rq' ''X-Admin-API-Key''"
      using that ins by (auto simp: list_all_iff)
    then show ?thesis using run_endpoint_inputs [of rq rq' ep rt S A B sl w] assms(2) by (cases protected) (simp_all add: serve_def route)
  qed
  have "\<exists>ep protected. (gin_method m, BasePath SwaggerInfo @ gin_path p, ep, protected) \<in> set routes" if "(m, p, op') \<in> set (operations swagger_doc)" for m p op'
  proof -
    have "(gin_method m, BasePath SwaggerInfo @ gin_path p) \<in> set (map (\<lambda>(m, p, op). (gin_method m, BasePath SwaggerInfo @ gin_path p)) (operations swagger_doc))"
      using that by (force simp only: set_map)
    then show ?thesis unfolding operations_exact(1) by auto
  qed
  then show ?thesis using op sec body same by (auto simp only: route fst_conv snd_conv)
qed

section \<open>Answers have the documented form\<close>

fun has_type :: "go_type \<Rightarrow> go_value \<Rightarrow> bool" where
  "has_type GoString v \<longleftrightarrow> (\<exists>s. v = VString s)"
| "has_type GoInt v \<longleftrightarrow> (\<exists>n. v = VInteger n)"
| "has_type GoInt64 v \<longleftrightarrow> (\<exists>n. v = VInteger n)"
| "has_type GoFloat64 v \<longleftrightarrow> (\<exists>x. v = VFloat x)"
| "has_type GoBool v \<longleftrightarrow> (\<exists>b. v = VBool b)"
| "has_type GoTime v \<longleftrightarrow> (\<exists>t. v = VTimeOf t)"
| "has_type GoTimePtr v \<longleftrightarrow> (\<exists>p. v = VTimePtr p)"

text \<open>A value that belongs into a field of a structure that is only written: a pointer that may be missing is left out then.\<close>

definition fits :: "struct_field \<Rightarrow> go_value \<Rightarrow> bool" where
  "fits f v \<longleftrightarrow> has_type (sf_type f) v \<and> (sf_type f = GoTimePtr \<longrightarrow> sf_omitempty f) \<and> \<not> sf_required f"

lemma member_property [simp]: "member ''type'' (snd (property f)) = Some (JStr (json_type (sf_type f)))" "member ''$ref'' (snd (property f)) = None"
  by (auto simp: property_def split: option.splits)

lemma resolve_property [simp]: "resolve doc (snd (property f)) = snd (property f)"
  by (simp add: resolve_def)

lemma marshal_value_conforms:
  assumes "fits f v" "\<not> (sf_omitempty f \<and> is_empty v)" "marshal_value v = Some j"
  shows "conforms doc (snd (property f)) j"
  using assms by (cases "sf_type f"; cases v rule: marshal_value.cases) (auto simp: fits_def split: if_splits)

lemma marshal_fields_conform:
  assumes "list_all2 fits fs vs" "marshal_fields (zip fs vs) = Some ps" "kx \<in> set ps"
  shows "\<exists>f \<in> set fs. fst kx = sf_json f \<and> conforms doc (snd (property f)) (snd kx)"
  using assms
proof (induction fs vs arbitrary: ps rule: list_all2_induct)
  case (Cons f fs v vs)
  show ?case
  proof (cases "sf_omitempty f \<and> is_empty v")
    case True
    then show ?thesis using Cons by auto
  next
    case False
    then obtain j qs where "marshal_value v = Some j" "marshal_fields (zip fs vs) = Some qs" "ps = (sf_json f, j) # qs"
      using Cons.prems(1) by (auto split: option.splits)
    then show ?thesis using Cons.IH [of qs] Cons.prems(2) marshal_value_conforms [OF Cons.hyps(1) False] by auto
  qed
qed simp

lemma marshal_struct_conforms:
  assumes "describes fs (resolve doc r)" "list_all2 fits fs vs" "marshal_struct fs vs = Some v"
  shows "conforms doc r v"
proof -
  let ?ps = "members (member ''properties'' (resolve doc r))"
  obtain ps where ps: "marshal_fields (zip fs vs) = Some ps" "v = JObj ps" using assms(3) by (auto simp: marshal_struct_def)
  have "filter sf_required fs = []" using assms(2) by (auto simp: filter_empty_conv fits_def list_all2_conv_all_nth in_set_conv_nth)
  then have req: "set (required_members (resolve doc r)) = {}" using assms(1) by (simp add: describes_def)
  have "case map_of ?ps (fst kx) of Some p \<Rightarrow> conforms doc p (snd kx) | None \<Rightarrow> False" if kx: "kx \<in> set ps" for kx
  proof -
    obtain f where f: "f \<in> set fs" "fst kx = sf_json f" "conforms doc (snd (property f)) (snd kx)"
      using marshal_fields_conform [OF assms(2) ps(1) kx] by blast
    then have "property f \<in> set ?ps" using assms(1) by (auto simp: describes_def)
    then have "(fst kx, snd (property f)) \<in> set ?ps" using f(2) by (simp add: property_def)
    then have "map_of ?ps (fst kx) = Some (snd (property f))" using assms(1) by (simp add: describes_def)
    then show ?thesis using f(3) by simp
  qed
  then show ?thesis using assms(1) req ps(2) by (simp add: describes_def)
qed

lemma marshal_list_conforms:
  assumes "marshal_list f xs = Some v" "\<And>x j. x \<in> set xs \<Longrightarrow> f x = Some j \<Longrightarrow> conforms doc s j"
  shows "conforms doc (JObj [(''type'', JStr ''array''), (''items'', s)]) v"
proof -
  obtain vs where vs: "those (map f xs) = Some vs" "v = JArr vs" using assms(1) by (auto simp: marshal_list_def)
  have "\<exists>x \<in> set xs. f x = Some j" if "j \<in> set vs" for j
    using vs(1) that by (induction xs arbitrary: vs) (auto split: option.splits)
  then show ?thesis using vs(2) assms(2) by (fastforce simp: resolve_def)
qed

abbreviation schema_ref :: "string \<Rightarrow> json" where
  "schema_ref n \<equiv> JObj [(''$ref'', JStr (''#/definitions/'' @ n))]"

abbreviation schema_list :: "json \<Rightarrow> json" where
  "schema_list s \<equiv> JObj [(''type'', JStr ''array''), (''items'', s)]"

lemma documented_schemas:
  "describes SendSMSResponse_fields (resolve swagger_doc (schema_ref ''handler.SwaggerSMSResponse''))"
  "describes ErrorResponse_fields (resolve swagger_doc (schema_ref ''handler.SwaggerErrorResponse''))"
  "describes SMSDeliveryResponse_fields (resolve swagger_doc (schema_ref ''handler.SwaggerDeliveryReport''))"
  "describes WalletResponse_fields (resolve swagger_doc (schema_ref ''admin.WalletResponse''))"
  "describes ChannelResponse_fields (resolve swagger_doc (schema_ref ''admin.ChannelResponse''))"
  "describes TransactionResponse_fields (resolve swagger_doc (schema_ref ''admin.TransactionResponse''))"
  by code_simp+

lemma values_fit:
  "list_all2 fits SendSMSResponse_fields (sms_values a)" "list_all2 fits ErrorResponse_fields (error_values b)"
  "list_all2 fits SMSDeliveryResponse_fields (report_values c)" "list_all2 fits WalletResponse_fields (wallet_values d)"
  "list_all2 fits ChannelResponse_fields (channel_values e)" "list_all2 fits TransactionResponse_fields (transaction_values f)"
  by (simp_all add: SendSMSResponse_fields_def ErrorResponse_fields_def SMSDeliveryResponse_fields_def WalletResponse_fields_def ChannelResponse_fields_def
      TransactionResponse_fields_def sms_values_def error_values_def report_values_def wallet_values_def channel_values_def transaction_values_def field_defs fits_def)

lemma struct_answers:
  "marshal_struct SendSMSResponse_fields (sms_values a) = Some v \<Longrightarrow> conforms swagger_doc (schema_ref ''handler.SwaggerSMSResponse'') v"
  "marshal_struct ErrorResponse_fields (error_values b) = Some v \<Longrightarrow> conforms swagger_doc (schema_ref ''handler.SwaggerErrorResponse'') v"
  "marshal_struct SMSDeliveryResponse_fields (report_values c) = Some v \<Longrightarrow> conforms swagger_doc (schema_ref ''handler.SwaggerDeliveryReport'') v"
  "marshal_struct WalletResponse_fields (wallet_values d) = Some v \<Longrightarrow> conforms swagger_doc (schema_ref ''admin.WalletResponse'') v"
  "marshal_struct ChannelResponse_fields (channel_values e) = Some v \<Longrightarrow> conforms swagger_doc (schema_ref ''admin.ChannelResponse'') v"
  "marshal_struct TransactionResponse_fields (transaction_values f) = Some v \<Longrightarrow> conforms swagger_doc (schema_ref ''admin.TransactionResponse'') v"
  by (erule marshal_struct_conforms [OF documented_schemas(1) values_fit(1)] marshal_struct_conforms [OF documented_schemas(2) values_fit(2)]
      marshal_struct_conforms [OF documented_schemas(3) values_fit(3)] marshal_struct_conforms [OF documented_schemas(4) values_fit(4)]
      marshal_struct_conforms [OF documented_schemas(5) values_fit(5)] marshal_struct_conforms [OF documented_schemas(6) values_fit(6)])+

text \<open>What a handler answers when it succeeds, and the documented schema of an answer.\<close>

fun succeeds :: "endpoint \<Rightarrow> int \<Rightarrow> answer \<Rightarrow> bool" where
  "succeeds EpSendSMS st a \<longleftrightarrow> st = 202 \<and> (\<exists>x. a = AnSMS x)"
| "succeeds EpCreateWallet st a \<longleftrightarrow> st = 201 \<and> (\<exists>x. a = AWallet x)"
| "succeeds EpGetWallet st a \<longleftrightarrow> st = 200 \<and> (\<exists>x. a = AWallet x)"
| "succeeds EpTopUpWallet st a \<longleftrightarrow> st = 200 \<and> (\<exists>x. a = AWallet x)"
| "succeeds EpGetWalletTransactions st a \<longleftrightarrow> st = 200 \<and> (\<exists>x. a = Transactions x)"
| "succeeds EpListSMSReports st a \<longleftrightarrow> st = 200 \<and> (\<exists>x. a = Reports x)"
| "succeeds EpCreateChannel st a \<longleftrightarrow> st = 201 \<and> (\<exists>x. a = AChannel x)"
| "succeeds EpListChannels st a \<longleftrightarrow> st = 200 \<and> (\<exists>x. a = Channels x)"
| "succeeds EpGetSMSReport st a \<longleftrightarrow> st = 200 \<and> (\<exists>x. a = AReport x)"
| "succeeds EpSwagger st a \<longleftrightarrow> False"

definition fails_with :: "int \<Rightarrow> answer \<Rightarrow> bool" where
  "fails_with st a \<longleftrightarrow> st \<in> {400, 422, 429, 500} \<and> (\<exists>e. a = AnError e) \<or> st = 500 \<and> a = NoBody"

definition answered :: "endpoint \<Rightarrow> http_response \<Rightarrow> bool" where
  "answered ep r \<longleftrightarrow> succeeds ep (rs_status r) (rs_answer r) \<or> fails_with (rs_status r) (rs_answer r)"

lemma json_answer_sel [simp]: "rs_answer (json_answer st a) = a" "rs_answer (json_error st msg) = AnError \<lparr>er_Error = msg, er_Details = []\<rparr>"
  by (simp_all add: json_answer_def json_error_def)

lemma answered_error: "st \<in> {400, 422, 429, 500} \<Longrightarrow> answered ep (json_error st msg)" "answered ep (fail_with err)"
    "answered ep (json_answer 400 (AnError e))"
  by (auto simp: answered_def fails_with_def fail_with_def writeServiceError_def)

lemma answered_success:
  "answered EpSendSMS (json_answer 202 (AnSMS a))" "answered EpCreateWallet (json_answer 201 (AWallet b))" "answered EpGetWallet (json_answer 200 (AWallet b))"
  "answered EpTopUpWallet (json_answer 200 (AWallet b))" "answered EpGetWalletTransactions (json_answer 200 (Transactions c))"
  "answered EpListSMSReports (json_answer 200 (Reports d))" "answered EpCreateChannel (json_answer 201 (AChannel e))"
  "answered EpListChannels (json_answer 200 (Channels f))" "answered EpGetSMSReport (json_answer 200 (AReport g))"
  by (simp_all add: answered_def)

lemma answered_with:
  "answer_with f rw = (r, w') \<Longrightarrow> (\<And>x. answered ep (f x)) \<Longrightarrow> answered ep r"
  "with_body b g w = (r, w') \<Longrightarrow> (\<And>req v r w'. g req v = (r, w') \<Longrightarrow> answered ep r) \<Longrightarrow> answered ep r"
  "with_id rq h w = (r, w') \<Longrightarrow> (\<And>i v r w'. h i v = (r, w') \<Longrightarrow> answered ep r) \<Longrightarrow> answered ep r"
  by (auto simp: answer_with_def with_body_def with_id_def parseIDParam_def answered_error split: prod.splits sum.splits if_splits)

lemma run_endpoint_answered: "run_endpoint rt S A B ep rq sl w = Some (r, sl', w') \<Longrightarrow> ep \<noteq> EpSwagger \<Longrightarrow> answered ep r"
  by (cases ep)
    (auto simp: run_endpoint_def SendSMS_def h_GetSMSReport_def Let_def h_CreateWallet_def h_GetWallet_def h_TopUpWallet_def h_GetWalletTransactions_def
      h_ListSMSReports_def h_CreateChannel_def h_ListChannels_def answered_error answered_success split: prod.splits if_splits sum.splits option.splits
      elim!: answered_with)

lemma serve_answered:
  assumes "serve key rt S A B (m, p, ep, protected) rq sl w = Some (r, sl', w')" "ep \<noteq> EpSwagger"
  shows "protected \<and> r = json_error 401 ''unauthorized'' \<or> answered ep r"
  using assms by (auto simp: serve_def split: if_splits dest: run_endpoint_answered)

fun success_schema :: "endpoint \<Rightarrow> int \<times> json" where
  "success_schema EpSendSMS = (202, schema_ref ''handler.SwaggerSMSResponse'')"
| "success_schema EpCreateWallet = (201, schema_ref ''admin.WalletResponse'')"
| "success_schema EpGetWallet = (200, schema_ref ''admin.WalletResponse'')"
| "success_schema EpTopUpWallet = (200, schema_ref ''admin.WalletResponse'')"
| "success_schema EpGetWalletTransactions = (200, schema_list (schema_ref ''admin.TransactionResponse''))"
| "success_schema EpListSMSReports = (200, schema_list (schema_ref ''handler.SwaggerDeliveryReport''))"
| "success_schema EpCreateChannel = (201, schema_ref ''admin.ChannelResponse'')"
| "success_schema EpListChannels = (200, schema_list (schema_ref ''admin.ChannelResponse''))"
| "success_schema EpGetSMSReport = (200, schema_ref ''handler.SwaggerDeliveryReport'')"

text \<open>The statuses that are not documented.\<close>

fun undocumented :: "endpoint \<Rightarrow> int list" where
  "undocumented EpSendSMS = [500]"
| "undocumented _ = [400, 401, 422, 429, 500]"

definition statuses_documented :: "string \<times> string \<times> endpoint \<times> bool \<Rightarrow> bool" where
  "statuses_documented route = (case route of (m, p, ep, protected) \<Rightarrow> ep = EpSwagger \<or> (case documented_operation m p of None \<Rightarrow> False
     | Some op \<Rightarrow> (case success_schema ep of (st, s) \<Rightarrow> response_schema op st = Some s)
         \<and> list_all (\<lambda>st. response_schema op st = (if st \<in> set (undocumented ep) then None else Some (schema_ref ''handler.SwaggerErrorResponse'')))
             [400, 422, 429, 500]
         \<and> (if protected then response_schema op 401 = None else ep = EpSendSMS)))"

lemma routes_documented: "list_all statuses_documented routes"
  by code_simp

lemma list_answers:
  "marshal_list (marshal_struct SMSDeliveryResponse_fields \<circ> report_values) cs = Some v
    \<Longrightarrow> conforms swagger_doc (schema_list (schema_ref ''handler.SwaggerDeliveryReport'')) v"
  "marshal_list (marshal_struct ChannelResponse_fields \<circ> channel_values) es = Some v
    \<Longrightarrow> conforms swagger_doc (schema_list (schema_ref ''admin.ChannelResponse'')) v"
  "marshal_list (marshal_struct TransactionResponse_fields \<circ> transaction_values) fs = Some v
    \<Longrightarrow> conforms swagger_doc (schema_list (schema_ref ''admin.TransactionResponse'')) v"
  by (erule marshal_list_conforms, simp only: comp_def, erule struct_answers)+

lemma success_conforms:
  assumes "succeeds ep st a" "success_schema ep = (st', s)" "answer_json a = Some v"
  shows "st = st'" "conforms swagger_doc s v"
proof -
  show "st = st'" using assms(1,2) by (cases ep) simp_all
  show "conforms swagger_doc s v" using assms
    by (cases ep) (auto simp only: succeeds.simps success_schema.simps answer_json.simps prod.inject intro: struct_answers list_answers)
qed

lemma error_conforms: "\<exists>v. answer_json (AnError e) = Some v \<and> conforms swagger_doc (schema_ref ''handler.SwaggerErrorResponse'') v"
proof -
  have "\<exists>v. answer_json (AnError e) = Some v"
    by (cases "er_Details e = []") (simp_all add: marshal_struct_def ErrorResponse_fields_def error_values_def field_defs)
  then obtain v where "answer_json (AnError e) = Some v" by blast
  then show ?thesis using struct_answers(2) [of e v] by (auto simp only: answer_json.simps)
qed

text \<open>
  C27: answers have the documented form. Whatever a route other than the documentation page answers, a status for which the document gives a schema comes with a body of that form (if
  the numbers and times in it can be written), and this covers every success and, for \<^verbatim>\<open>POST /sms\<close>, the errors 400, 422 and 429. The statuses that are left out are errors, with the documented form of errors or, after a
  panic, no body.
\<close>

theorem responses_documented:
  assumes "route \<in> set routes" "fst (snd (snd route)) \<noteq> EpSwagger" "serve key rt S A B route rq sl w = Some (rsp, sl', w')"
  shows "\<exists>op. documented_operation (fst route) (fst (snd route)) = Some op
    \<and> (case response_schema op (rs_status rsp) of
        Some s \<Rightarrow> rs_answer rsp \<noteq> NoBody \<and> (\<forall>v. answer_json (rs_answer rsp) = Some v \<longrightarrow> conforms swagger_doc s v)
      | None \<Rightarrow> rs_status rsp \<in> set (undocumented (fst (snd (snd route))))
          \<and> (rs_answer rsp = NoBody \<or> (\<exists>v. answer_json (rs_answer rsp) = Some v
              \<and> conforms swagger_doc (JObj [(''$ref'', JStr ''#/definitions/handler.SwaggerErrorResponse'')]) v)))"
proof -
  obtain m p ep protected where route: "route = (m, p, ep, protected)" by (cases route)
  have "statuses_documented route" using routes_documented assms(1) by (auto simp: list_all_iff)
  then obtain op where op: "documented_operation m p = Some op"
    and ok: "case success_schema ep of (st, s) \<Rightarrow> response_schema op st = Some s"
    and bad: "\<forall>st \<in> {400, 422, 429, 500}. response_schema op st = (if st \<in> set (undocumented ep) then None else Some (schema_ref ''handler.SwaggerErrorResponse''))"
    and auth: "if protected then response_schema op 401 = None else ep = EpSendSMS"
    using assms(2) unfolding statuses_documented_def route by (auto split: option.splits)
  consider "protected" "rsp = json_error 401 ''unauthorized''" | "succeeds ep (rs_status rsp) (rs_answer rsp)" | "fails_with (rs_status rsp) (rs_answer rsp)"
    using serve_answered [OF assms(3) [unfolded route]] assms(2) by (auto simp: answered_def route)
  then show ?thesis
  proof cases
    case 1
    then have "ep \<noteq> EpSendSMS" using assms(1) by (auto simp: route routes_def)
    then have "(401 :: int) \<in> set (undocumented ep)" by (cases ep) simp_all
    then show ?thesis using 1 auth op error_conforms by (simp add: route del: conforms.simps answer_json.simps)
  next
    case 2
    obtain st s where s: "success_schema ep = (st, s)" by (metis surj_pair)
    have "rs_status rsp = st" "rs_answer rsp \<noteq> NoBody" using 2 s by (cases ep; auto)+
    then show ?thesis using ok s op success_conforms(2) [OF 2 s] by (simp add: route del: conforms.simps answer_json.simps)
  next
    case 3
    then have st: "rs_status rsp \<in> {400, 422, 429, 500}" by (auto simp: fails_with_def)
    have "rs_answer rsp = NoBody \<or> (\<exists>e. rs_answer rsp = AnError e)" "rs_answer rsp = NoBody \<longrightarrow> rs_status rsp = 500" using 3 by (auto simp: fails_with_def)
    moreover have "(500 :: int) \<in> set (undocumented ep)" by (cases ep) simp_all
    moreover have "conforms swagger_doc (schema_ref ''handler.SwaggerErrorResponse'') v" if "answer_json (AnError e) = Some v" for e v
      using that error_conforms [of e] by (auto simp del: conforms.simps answer_json.simps)
    ultimately show ?thesis using bad [rule_format, OF st] op error_conforms
      by (auto simp: route simp del: conforms.simps answer_json.simps split: if_splits)
  qed
qed

definition admin_example :: "(db \<times> redis_state \<times> unit) AdminService" where
  "admin_example = NewAdminService (postgres_wallets mem_gorm None) (postgres_channels mem_gorm) None"

lemma list_channels_example:
  "serve ''key'' rt_example service_example admin_example binding_example (''GET'', ''/api/v1/channels'', EpListChannels, True)
     (request_example\<lparr>rq_header := (\<lambda>n. if n = ''X-Admin-API-Key'' then ''key'' else [])\<rparr>) no_slots (db_channel_example, credit_example, ())
   = Some (json_answer 200 (Channels [\<lparr>crs_ID = 1, crs_Name = ''web'', crs_WalletID = 7, crs_IsActive = True, crs_CreatedAt = RFC3339 0, crs_UpdatedAt = RFC3339 0\<rparr>]),
       no_slots, (db_channel_example, credit_example, ()))"
  by (simp add: serve_def requireAPIKey_iff run_endpoint_def Let_def h_ListChannels_def answer_with_def admin_example_def NewAdminService_def postgres_channels_def
      ListChannels_def channel_List_def mem_gorm_def db_channel_example_def toChannelModel_def ToChannelResponse_def)

theorem responses_documented_witness:
  "\<exists>op s v. documented_operation ''GET'' ''/api/v1/channels'' = Some op \<and> response_schema op 200 = Some s
    \<and> answer_json (Channels [\<lparr>crs_ID = 1, crs_Name = ''web'', crs_WalletID = 7, crs_IsActive = True, crs_CreatedAt = RFC3339 0, crs_UpdatedAt = RFC3339 0\<rparr>]) = Some v
    \<and> conforms swagger_doc s v"
proof -
  let ?a = "Channels [\<lparr>crs_ID = 1, crs_Name = ''web'', crs_WalletID = 7, crs_IsActive = True, crs_CreatedAt = RFC3339 0, crs_UpdatedAt = RFC3339 0\<rparr>]"
  have "(''GET'', ''/api/v1/channels'', EpListChannels, True) \<in> set routes" by (simp add: routes_def)
  from responses_documented [OF this _ list_channels_example]
  obtain op where op: "documented_operation ''GET'' ''/api/v1/channels'' = Some op"
    and c: "case response_schema op 200 of None \<Rightarrow> False | Some s \<Rightarrow> \<forall>v. answer_json ?a = Some v \<longrightarrow> conforms swagger_doc s v"
    by (auto simp del: conforms.simps answer_json.simps split: option.splits)
  have "\<exists>v. answer_json ?a = Some v"
    by (simp add: marshal_list_def marshal_struct_def ChannelResponse_fields_def channel_values_def field_defs)
  with op c show ?thesis by (auto simp del: conforms.simps answer_json.simps split: option.splits)
qed

text \<open>A parameter of the query that the document does not name makes no difference.\<close>

lemma reports_inputs:
  "documented_operation ''GET'' ''/api/v1/wallets/:id/sms'' = Some op \<Longrightarrow>
    documented_inputs op = [(''path'', ''id''), (''query'', ''limit''), (''header'', ''X-Admin-API-Key'')]"
  using routes_inputs by (simp add: routes_def inputs_documented_def)

theorem documentation_exact_witness:
  "serve ''key'' rt_example service_example admin_example binding_example (''GET'', ''/api/v1/wallets/:id/sms'', EpListSMSReports, True)
     (request_example\<lparr>rq_query := (\<lambda>n. if n = ''page'' then ''2'' else [])\<rparr>) no_slots (db_channel_example, credit_example, ())
   = serve ''key'' rt_example service_example admin_example binding_example (''GET'', ''/api/v1/wallets/:id/sms'', EpListSMSReports, True)
     request_example no_slots (db_channel_example, credit_example, ())"
proof -
  have "(''GET'', ''/api/v1/wallets/:id/sms'', EpListSMSReports, True) \<in> set routes" by (simp add: routes_def)
  moreover have "EpListSMSReports \<noteq> EpSwagger" by simp
  ultimately have "\<exists>op. documented_operation ''GET'' ''/api/v1/wallets/:id/sms'' = Some op \<and> (\<forall>rq rq'. (\<forall>inp \<in> set (documented_inputs op). same_input rq rq' inp) \<longrightarrow>
      (\<forall>sl w. serve ''key'' rt_example service_example admin_example binding_example (''GET'', ''/api/v1/wallets/:id/sms'', EpListSMSReports, True) rq sl w
        = serve ''key'' rt_example service_example admin_example binding_example (''GET'', ''/api/v1/wallets/:id/sms'', EpListSMSReports, True) rq' sl w))"
    using documentation_exact [of "(''GET'', ''/api/v1/wallets/:id/sms'', EpListSMSReports, True)" "''key''" rt_example service_example admin_example
        binding_example, unfolded fst_conv snd_conv] by blast
  then
  obtain op where op: "documented_operation ''GET'' ''/api/v1/wallets/:id/sms'' = Some op"
    and same: "\<forall>rq rq'. (\<forall>inp \<in> set (documented_inputs op). same_input rq rq' inp) \<longrightarrow>
      (\<forall>sl w. serve ''key'' rt_example service_example admin_example binding_example (''GET'', ''/api/v1/wallets/:id/sms'', EpListSMSReports, True) rq sl w
        = serve ''key'' rt_example service_example admin_example binding_example (''GET'', ''/api/v1/wallets/:id/sms'', EpListSMSReports, True) rq' sl w)"
    by blast
  show ?thesis by (rule same [rule_format]) (auto simp: reports_inputs [OF op] request_example_def)
qed

end
