(* ===== verification/Migrations.thy ===== *)
theory Migrations
  imports Models
begin

text \<open>
  The migrations of \<^verbatim>\<open>internal/infrastructure/persistence/migrations\<close>: the SQL statements each of them executes,
  as data, and what the statements do to the tables and indexes of a database. Of the rows only the prices
  that a migration inserts are kept.
\<close>

section \<open>Statements\<close>

datatype sql_type = BIGSERIAL | BIGINT | INTEGER | DECIMAL nat nat | VARCHAR nat | TEXT | TIMESTAMP | BOOLEAN | JSONB

record column =
  co_name :: string
  co_type :: sql_type
  co_not_null :: bool
  co_default :: "string option"
  co_unique :: bool
  co_primary :: bool
  co_references :: "(string \<times> string) option"

text \<open>A column as it is written in a statement: a name and a type with constraints. A serial column has a sequence as its default.\<close>

definition col :: "string \<Rightarrow> sql_type \<Rightarrow> column" where
  "col n t = \<lparr>co_name = n, co_type = t, co_not_null = (t = BIGSERIAL), co_default = (if t = BIGSERIAL then Some ''nextval'' else None),
    co_unique = False, co_primary = False, co_references = None\<rparr>"

definition NOT_NULL :: "column \<Rightarrow> column" where "NOT_NULL c = c\<lparr>co_not_null := True\<rparr>"
definition DEFAULT :: "string \<Rightarrow> column \<Rightarrow> column" where "DEFAULT e c = c\<lparr>co_default := Some e\<rparr>"
definition UNIQUE :: "column \<Rightarrow> column" where "UNIQUE c = c\<lparr>co_unique := True\<rparr>"
definition PRIMARY_KEY :: "column \<Rightarrow> column" where "PRIMARY_KEY c = c\<lparr>co_primary := True, co_unique := True, co_not_null := True\<rparr>"
definition REFERENCES :: "string \<Rightarrow> string \<Rightarrow> column \<Rightarrow> column" where "REFERENCES t k c = c\<lparr>co_references := Some (t, k)\<rparr>"

lemmas column_defs = col_def NOT_NULL_def DEFAULT_def UNIQUE_def PRIMARY_KEY_def REFERENCES_def

record sql_index =
  ix_table :: string
  ix_columns :: "(string \<times> bool) list"
  ix_where :: "string option"

text \<open>
  The flag of a creation is its \<^verbatim>\<open>IF NOT EXISTS\<close>; all the other conditions that a statement may have are the
  ones the migrations use. A column of an index comes with its \<^verbatim>\<open>DESC\<close>. Prices are in ten-thousandths, the unit of \<^verbatim>\<open>DECIMAL(15,4)\<close>.
\<close>

datatype statement =
  CREATE_TABLE bool string "column list"
| CREATE_INDEX bool string sql_index
| ADD_COLUMN_IF_NOT_EXISTS string column
| DROP_TABLE_IF_EXISTS string
| DROP_INDEX_IF_EXISTS string
| INSERT_COSTS_ON_CONFLICT_DO_NOTHING "(string \<times> int) list"
| DELETE_COSTS "string list"

section \<open>What the statements do\<close>

record schema =
  sc_tables :: "(string \<times> column list) list"
  sc_indexes :: "(string \<times> sql_index) list"
  sc_costs :: "(string \<times> int) list"

definition is_table :: "schema \<Rightarrow> string \<Rightarrow> bool" where
  "is_table s t \<longleftrightarrow> t \<in> set (map fst (sc_tables s))"

definition is_relation :: "schema \<Rightarrow> string \<Rightarrow> bool" where
  "is_relation s n \<longleftrightarrow> is_table s n \<or> n \<in> set (map fst (sc_indexes s))"

definition columns_of :: "schema \<Rightarrow> string \<Rightarrow> column list" where
  "columns_of s t = (case map_of (sc_tables s) t of None \<Rightarrow> [] | Some cs \<Rightarrow> cs)"

definition has_column :: "schema \<Rightarrow> string \<Rightarrow> string \<Rightarrow> bool" where
  "has_column s t k \<longleftrightarrow> k \<in> set (map co_name (columns_of s t))"

text \<open>A foreign key needs its target; a table that another one refers to cannot be dropped.\<close>

definition references_ok :: "schema \<Rightarrow> column \<Rightarrow> bool" where
  "references_ok s c = (case co_references c of None \<Rightarrow> True
     | Some (t, k) \<Rightarrow> list_ex (\<lambda>c'. co_name c' = k \<and> co_unique c') (columns_of s t))"

definition referred :: "schema \<Rightarrow> string \<Rightarrow> bool" where
  "referred s t = list_ex (\<lambda>(u, cs). u \<noteq> t \<and> list_ex (\<lambda>c. map_option fst (co_references c) = Some t) cs) (sc_tables s)"

definition insert_cost :: "string \<times> int \<Rightarrow> (string \<times> int) list \<Rightarrow> (string \<times> int) list" where
  "insert_cost r rows = (if fst r \<in> set (map fst rows) then rows else r # rows)"

fun exec_statement :: "statement \<Rightarrow> schema \<Rightarrow> error option \<times> schema" where
  "exec_statement (CREATE_TABLE ine t cs) s =
    (if is_relation s t then (if ine then None else Some (NewError ''relation already exists''), s)
     else if \<not> list_all (references_ok s) cs then (Some (NewError ''referenced relation does not exist''), s)
     else (None, s\<lparr>sc_tables := (t, cs) # sc_tables s\<rparr>))"
| "exec_statement (CREATE_INDEX ine i ix) s =
    (if is_relation s i then (if ine then None else Some (NewError ''relation already exists''), s)
     else if \<not> is_table s (ix_table ix) then (Some (NewError ''relation does not exist''), s)
     else if \<not> list_all (\<lambda>(k, desc). has_column s (ix_table ix) k) (ix_columns ix) then (Some (NewError ''column does not exist''), s)
     else (None, s\<lparr>sc_indexes := (i, ix) # sc_indexes s\<rparr>))"
| "exec_statement (ADD_COLUMN_IF_NOT_EXISTS t c) s =
    (if \<not> is_table s t then (Some (NewError ''relation does not exist''), s)
     else if has_column s t (co_name c) then (None, s)
     else (None, s\<lparr>sc_tables := map (\<lambda>(u, cs). (u, if u = t then cs @ [c] else cs)) (sc_tables s)\<rparr>))"
| "exec_statement (DROP_TABLE_IF_EXISTS t) s =
    (if \<not> is_table s t then (None, s)
     else if referred s t then (Some (NewError ''other objects depend on the table''), s)
     else (None, s\<lparr>sc_tables := filter (\<lambda>(u, cs). u \<noteq> t) (sc_tables s), sc_indexes := filter (\<lambda>(i, ix). ix_table ix \<noteq> t) (sc_indexes s),
       sc_costs := (if t = ''sms_costs'' then [] else sc_costs s)\<rparr>))"
| "exec_statement (DROP_INDEX_IF_EXISTS i) s = (None, s\<lparr>sc_indexes := filter (\<lambda>(j, ix). j \<noteq> i) (sc_indexes s)\<rparr>)"
| "exec_statement (INSERT_COSTS_ON_CONFLICT_DO_NOTHING rows) s =
    (if \<not> is_table s ''sms_costs'' then (Some (NewError ''relation does not exist''), s)
     else if \<not> list_ex (\<lambda>c. co_name c = ''line_type'' \<and> co_unique c) (columns_of s ''sms_costs'') then
       (Some (NewError ''no unique constraint matching the ON CONFLICT specification''), s)
     else (None, s\<lparr>sc_costs := fold insert_cost rows (sc_costs s)\<rparr>))"
| "exec_statement (DELETE_COSTS lines) s =
    (if \<not> is_table s ''sms_costs'' then (Some (NewError ''relation does not exist''), s)
     else (None, s\<lparr>sc_costs := filter (\<lambda>(l, p). l \<notin> set lines) (sc_costs s)\<rparr>))"

text \<open>A call of \<^verbatim>\<open>ExecContext\<close> executes several statements up to the first that fails.\<close>

fun ExecContext :: "statement list \<Rightarrow> schema \<Rightarrow> error option \<times> schema" where
  "ExecContext [] s = (None, s)"
| "ExecContext (st # sts) s = (case exec_statement st s of (Some err, s1) \<Rightarrow> (Some err, s1) | (None, s1) \<Rightarrow> ExecContext sts s1)"

fun exec_calls :: "statement list list \<Rightarrow> schema \<Rightarrow> error option \<times> schema" where
  "exec_calls [] s = (None, s)"
| "exec_calls (sts # calls) s = (case ExecContext sts s of (Some err, s1) \<Rightarrow> (Some err, s1) | (None, s1) \<Rightarrow> exec_calls calls s1)"

section \<open>The migrations\<close>

definition wallets_table :: "column list" where
  "wallets_table =
    [PRIMARY_KEY (col ''id'' BIGSERIAL),
     DEFAULT ''0.0'' (NOT_NULL (col ''balance'' (DECIMAL 15 4))),
     DEFAULT ''NOW()'' (NOT_NULL (col ''created_at'' TIMESTAMP)),
     DEFAULT ''NOW()'' (NOT_NULL (col ''updated_at'' TIMESTAMP))]"

definition channels_table :: "column list" where
  "channels_table =
    [PRIMARY_KEY (col ''id'' BIGSERIAL),
     UNIQUE (NOT_NULL (col ''name'' (VARCHAR 255))),
     REFERENCES ''wallets'' ''id'' (NOT_NULL (col ''wallet_id'' BIGINT)),
     DEFAULT ''true'' (NOT_NULL (col ''is_active'' BOOLEAN)),
     DEFAULT ''NOW()'' (NOT_NULL (col ''created_at'' TIMESTAMP)),
     DEFAULT ''NOW()'' (NOT_NULL (col ''updated_at'' TIMESTAMP))]"

definition sms_costs_table :: "column list" where
  "sms_costs_table =
    [PRIMARY_KEY (col ''id'' BIGSERIAL),
     UNIQUE (NOT_NULL (col ''line_type'' (VARCHAR 50))),
     NOT_NULL (col ''cost'' (DECIMAL 15 4)),
     DEFAULT ''NOW()'' (NOT_NULL (col ''created_at'' TIMESTAMP))]"

definition wallet_transactions_table :: "column list" where
  "wallet_transactions_table =
    [PRIMARY_KEY (col ''id'' BIGSERIAL),
     REFERENCES ''wallets'' ''id'' (NOT_NULL (col ''wallet_id'' BIGINT)),
     NOT_NULL (col ''amount'' (DECIMAL 15 4)),
     NOT_NULL (col ''type'' (VARCHAR 50)),
     DEFAULT [] (NOT_NULL (col ''description'' TEXT)),
     DEFAULT [] (NOT_NULL (col ''reference_id'' (VARCHAR 255))),
     DEFAULT ''NOW()'' (NOT_NULL (col ''created_at'' TIMESTAMP))]"

definition upCreateTables :: "schema \<Rightarrow> error option \<times> schema" where
  "upCreateTables = exec_calls
    [[CREATE_TABLE True ''wallets'' wallets_table],
     [CREATE_TABLE True ''channels'' channels_table],
     [CREATE_TABLE True ''sms_costs'' sms_costs_table],
     [CREATE_TABLE True ''wallet_transactions'' wallet_transactions_table],
     [CREATE_INDEX True ''idx_wallet_transactions_wallet_id'' \<lparr>ix_table = ''wallet_transactions'', ix_columns = [(''wallet_id'', False)], ix_where = None\<rparr>],
     [CREATE_INDEX True ''idx_channels_name'' \<lparr>ix_table = ''channels'', ix_columns = [(''name'', False)], ix_where = None\<rparr>]]"

definition downCreateTables :: "schema \<Rightarrow> error option \<times> schema" where
  "downCreateTables = exec_calls [[DROP_TABLE_IF_EXISTS ''wallet_transactions'', DROP_TABLE_IF_EXISTS ''sms_costs'',
    DROP_TABLE_IF_EXISTS ''channels'', DROP_TABLE_IF_EXISTS ''wallets'']]"

definition upSeedSMSCosts :: "schema \<Rightarrow> error option \<times> schema" where
  "upSeedSMSCosts = exec_calls [[INSERT_COSTS_ON_CONFLICT_DO_NOTHING [(''express'', 25000), (''normal'', 10000)]]]"

definition downSeedSMSCosts :: "schema \<Rightarrow> error option \<times> schema" where
  "downSeedSMSCosts = exec_calls [[DELETE_COSTS [''express'', ''normal'']]]"

definition sms_outbox_table :: "column list" where
  "sms_outbox_table =
    [PRIMARY_KEY (col ''id'' BIGSERIAL), UNIQUE (NOT_NULL (col ''message_id'' (VARCHAR 255))),
     NOT_NULL (col ''routing_key'' (VARCHAR 32)), NOT_NULL (col ''payload'' JSONB),
     DEFAULT ''NOW()'' (NOT_NULL (col ''created_at'' TIMESTAMP)), col ''published_at'' TIMESTAMP]"

definition sms_deliveries_table :: "column list" where
  "sms_deliveries_table =
    [PRIMARY_KEY (col ''message_id'' (VARCHAR 255)), NOT_NULL (col ''status'' (VARCHAR 32)),
     DEFAULT ''0'' (NOT_NULL (col ''wallet_id'' BIGINT)), DEFAULT [] (NOT_NULL (col ''destination'' (VARCHAR 64))),
     DEFAULT [] (NOT_NULL (col ''message'' TEXT)), DEFAULT [] (NOT_NULL (col ''line'' (VARCHAR 32))),
     DEFAULT [] (NOT_NULL (col ''channel_name'' (VARCHAR 255))),
     DEFAULT ''0'' (NOT_NULL (col ''attempts'' INTEGER)), DEFAULT [] (NOT_NULL (col ''last_error'' TEXT)),
     DEFAULT ''NOW()'' (NOT_NULL (col ''created_at'' TIMESTAMP)), DEFAULT ''NOW()'' (NOT_NULL (col ''updated_at'' TIMESTAMP)),
     col ''delivered_at'' TIMESTAMP]"

definition upSMSOutbox :: "schema \<Rightarrow> error option \<times> schema" where
  "upSMSOutbox = exec_calls
    [[CREATE_TABLE False ''sms_outbox'' sms_outbox_table,
      CREATE_INDEX False ''idx_sms_outbox_pending'' \<lparr>ix_table = ''sms_outbox'', ix_columns = [(''id'', False)], ix_where = Some ''published_at IS NULL''\<rparr>,
      CREATE_TABLE False ''sms_deliveries'' sms_deliveries_table]]"

definition downSMSOutbox :: "schema \<Rightarrow> error option \<times> schema" where
  "downSMSOutbox = exec_calls [[DROP_TABLE_IF_EXISTS ''sms_deliveries'', DROP_TABLE_IF_EXISTS ''sms_outbox'']]"

definition upOutboxLineFairness :: "schema \<Rightarrow> error option \<times> schema" where
  "upOutboxLineFairness = exec_calls
    [[CREATE_INDEX False ''idx_sms_outbox_pending_line'' \<lparr>ix_table = ''sms_outbox'', ix_columns = [(''routing_key'', False), (''id'', False)],
        ix_where = Some ''published_at IS NULL''\<rparr>]]"

definition downOutboxLineFairness :: "schema \<Rightarrow> error option \<times> schema" where
  "downOutboxLineFairness = exec_calls [[DROP_INDEX_IF_EXISTS ''idx_sms_outbox_pending_line'']]"

definition upSMSDeliveryDetails :: "schema \<Rightarrow> error option \<times> schema" where
  "upSMSDeliveryDetails = exec_calls
    [[ADD_COLUMN_IF_NOT_EXISTS ''sms_deliveries'' (DEFAULT ''0'' (NOT_NULL (col ''wallet_id'' BIGINT))),
      ADD_COLUMN_IF_NOT_EXISTS ''sms_deliveries'' (DEFAULT [] (NOT_NULL (col ''destination'' (VARCHAR 64)))),
      ADD_COLUMN_IF_NOT_EXISTS ''sms_deliveries'' (DEFAULT [] (NOT_NULL (col ''message'' TEXT))),
      ADD_COLUMN_IF_NOT_EXISTS ''sms_deliveries'' (DEFAULT [] (NOT_NULL (col ''line'' (VARCHAR 32)))),
      ADD_COLUMN_IF_NOT_EXISTS ''sms_deliveries'' (DEFAULT [] (NOT_NULL (col ''channel_name'' (VARCHAR 255)))),
      CREATE_INDEX True ''idx_sms_deliveries_wallet_created'' \<lparr>ix_table = ''sms_deliveries'',
        ix_columns = [(''wallet_id'', False), (''created_at'', True)], ix_where = None\<rparr>]]"

definition downSMSDeliveryDetails :: "schema \<Rightarrow> error option \<times> schema" where
  "downSMSDeliveryDetails = exec_calls [[DROP_INDEX_IF_EXISTS ''idx_sms_deliveries_wallet_created'']]"

text \<open>The registrations of the \<^verbatim>\<open>init\<close> functions, in the order of the version numbers of their files.\<close>

definition migrations :: "((schema \<Rightarrow> error option \<times> schema) \<times> (schema \<Rightarrow> error option \<times> schema)) list" where
  "migrations = [(upCreateTables, downCreateTables), (upSeedSMSCosts, downSeedSMSCosts), (upSMSOutbox, downSMSOutbox),
    (upOutboxLineFairness, downOutboxLineFairness), (upSMSDeliveryDetails, downSMSDeliveryDetails)]"

lemmas migration_defs = migrations_def upCreateTables_def downCreateTables_def upSeedSMSCosts_def downSeedSMSCosts_def upSMSOutbox_def
  downSMSOutbox_def upOutboxLineFairness_def downOutboxLineFairness_def upSMSDeliveryDetails_def downSMSDeliveryDetails_def

text \<open>One after the other, up to the first that fails.\<close>

fun run_all :: "(schema \<Rightarrow> error option \<times> schema) list \<Rightarrow> schema \<Rightarrow> error option \<times> schema" where
  "run_all [] s = (None, s)"
| "run_all (m # ms) s = (case m s of (Some err, s1) \<Rightarrow> (Some err, s1) | (None, s1) \<Rightarrow> run_all ms s1)"

section \<open>The models\<close>

text \<open>
  The columns that gorm reads and writes for the models of \<^verbatim>\<open>base_model.go\<close>: the snake-case name of a field, with what the tag says about
  its type, \<^verbatim>\<open>not null\<close> and uniqueness.
\<close>

record model_column =
  mc_name :: string
  mc_type :: "sql_type option"
  mc_not_null :: bool
  mc_unique :: bool

definition field :: "string \<Rightarrow> sql_type option \<Rightarrow> bool \<Rightarrow> bool \<Rightarrow> model_column" where
  "field n t nn u = \<lparr>mc_name = n, mc_type = t, mc_not_null = nn, mc_unique = u\<rparr>"

definition BaseModel_columns :: "model_column list" where
  "BaseModel_columns = [field ''id'' None False True, field ''created_at'' None False False, field ''updated_at'' None False False]"

definition WalletModel_columns :: "model_column list" where
  "WalletModel_columns = BaseModel_columns @ [field ''balance'' (Some (DECIMAL 15 4)) True False]"

definition WalletTransactionModel_columns :: "model_column list" where
  "WalletTransactionModel_columns =
    [field ''id'' None False True, field ''wallet_id'' (Some BIGINT) True False, field ''amount'' (Some (DECIMAL 15 4)) True False,
     field ''type'' (Some (VARCHAR 50)) True False, field ''description'' (Some TEXT) True False,
     field ''reference_id'' (Some (VARCHAR 255)) True False, field ''created_at'' None False False]"

definition ChannelModel_columns :: "model_column list" where
  "ChannelModel_columns = BaseModel_columns @
    [field ''name'' (Some (VARCHAR 255)) True True, field ''wallet_id'' (Some BIGINT) True False, field ''is_active'' (Some BOOLEAN) True False]"

definition SMSCostModel_columns :: "model_column list" where
  "SMSCostModel_columns = BaseModel_columns @ [field ''line_type'' (Some (VARCHAR 50)) True True, field ''cost'' (Some (DECIMAL 15 4)) True False]"

definition SMSOutboxModel_columns :: "model_column list" where
  "SMSOutboxModel_columns =
    [field ''id'' None False True, field ''message_id'' (Some (VARCHAR 255)) True True, field ''routing_key'' (Some (VARCHAR 32)) True False,
     field ''payload'' (Some JSONB) True False, field ''created_at'' None True False, field ''published_at'' None False False]"

definition SMSDeliveryModel_columns :: "model_column list" where
  "SMSDeliveryModel_columns =
    [field ''message_id'' (Some (VARCHAR 255)) False True, field ''wallet_id'' None True False, field ''destination'' (Some (VARCHAR 64)) True False,
     field ''message'' (Some TEXT) True False, field ''line'' (Some (VARCHAR 32)) True False, field ''channel_name'' (Some (VARCHAR 255)) True False,
     field ''status'' (Some (VARCHAR 32)) True False, field ''attempts'' None True False, field ''last_error'' (Some TEXT) True False,
     field ''created_at'' None True False, field ''updated_at'' None True False, field ''delivered_at'' None False False]"

text \<open>The \<^verbatim>\<open>TableName\<close> methods.\<close>

definition TableName :: "(string \<times> model_column list) list" where
  "TableName = [(''wallets'', WalletModel_columns), (''wallet_transactions'', WalletTransactionModel_columns), (''channels'', ChannelModel_columns),
    (''sms_outbox'', SMSOutboxModel_columns), (''sms_deliveries'', SMSDeliveryModel_columns), (''sms_costs'', SMSCostModel_columns)]"

lemmas model_defs = TableName_def BaseModel_columns_def WalletModel_columns_def WalletTransactionModel_columns_def ChannelModel_columns_def
  SMSCostModel_columns_def SMSOutboxModel_columns_def SMSDeliveryModel_columns_def field_def

definition serves :: "column \<Rightarrow> model_column \<Rightarrow> bool" where
  "serves c m \<longleftrightarrow> co_name c = mc_name m \<and> (case mc_type m of None \<Rightarrow> True | Some t \<Rightarrow> co_type c = t)
    \<and> (mc_not_null m \<longrightarrow> co_not_null c) \<and> (mc_unique m \<longrightarrow> co_unique c)"

text \<open>The fields of a model that its table has no suitable column for, and the columns an insert would have to fill but does not.\<close>

definition unserved :: "column list \<Rightarrow> model_column list \<Rightarrow> string list" where
  "unserved cs ms = map mc_name (filter (\<lambda>m. \<not> list_ex (\<lambda>c. serves c m) cs) ms)"

definition unfilled :: "column list \<Rightarrow> model_column list \<Rightarrow> string list" where
  "unfilled cs ms = map co_name (filter (\<lambda>c. co_not_null c \<and> co_default c = None \<and> co_name c \<notin> set (map mc_name ms)) cs)"

section \<open>Up and down\<close>

text \<open>A database that does not use any of the names.\<close>

definition own_tables :: "string list" where
  "own_tables = [''wallets'', ''channels'', ''sms_costs'', ''wallet_transactions'', ''sms_outbox'', ''sms_deliveries'']"

definition own_indexes :: "string list" where
  "own_indexes = [''idx_wallet_transactions_wallet_id'', ''idx_channels_name'', ''idx_sms_outbox_pending'', ''idx_sms_outbox_pending_line'',
    ''idx_sms_deliveries_wallet_created'']"

definition unused :: "schema \<Rightarrow> bool" where
  "unused s \<longleftrightarrow> list_all (\<lambda>n. \<not> is_relation s n) (own_tables @ own_indexes)
    \<and> (\<forall>(u, cs) \<in> set (sc_tables s). \<forall>c \<in> set cs. \<forall>t k. co_references c = Some (t, k) \<longrightarrow> is_table s t)
    \<and> (\<forall>(i, ix) \<in> set (sc_indexes s). is_table s (ix_table ix)) \<and> sc_costs s = []"

end
