(* ===== verification/SchemaProps.thy ===== *)
theory SchemaProps
  imports Migrations RunProps
begin

text \<open>
  What the migrations guarantee: they run on a database that does not use their names, they can be undone, the tables fit
  the models, and every line has a price. The width of the columns is compared with what the
  service accepts.
\<close>

section \<open>The effect of the migrations\<close>

definition new_tables :: "(string \<times> column list) list" where
  "new_tables = [(''sms_deliveries'', sms_deliveries_table), (''sms_outbox'', sms_outbox_table), (''wallet_transactions'', wallet_transactions_table),
    (''sms_costs'', sms_costs_table), (''channels'', channels_table), (''wallets'', wallets_table)]"

definition new_indexes :: "(string \<times> sql_index) list" where
  "new_indexes =
    [(''idx_sms_deliveries_wallet_created'', \<lparr>ix_table = ''sms_deliveries'', ix_columns = [(''wallet_id'', False), (''created_at'', True)], ix_where = None\<rparr>),
     (''idx_sms_outbox_pending_line'', \<lparr>ix_table = ''sms_outbox'', ix_columns = [(''routing_key'', False), (''id'', False)],
        ix_where = Some ''published_at IS NULL''\<rparr>),
     (''idx_sms_outbox_pending'', \<lparr>ix_table = ''sms_outbox'', ix_columns = [(''id'', False)], ix_where = Some ''published_at IS NULL''\<rparr>),
     (''idx_channels_name'', \<lparr>ix_table = ''channels'', ix_columns = [(''name'', False)], ix_where = None\<rparr>),
     (''idx_wallet_transactions_wallet_id'', \<lparr>ix_table = ''wallet_transactions'', ix_columns = [(''wallet_id'', False)], ix_where = None\<rparr>)]"

definition after_up :: "schema \<Rightarrow> schema" where
  "after_up s = \<lparr>sc_tables = new_tables @ sc_tables s, sc_indexes = new_indexes @ sc_indexes s, sc_costs = [(''normal'', 10000), (''express'', 25000)]\<rparr>"

lemma table_names:
  "map co_name wallet_transactions_table = [''id'', ''wallet_id'', ''amount'', ''type'', ''description'', ''reference_id'', ''created_at'']"
  "map co_name channels_table = [''id'', ''name'', ''wallet_id'', ''is_active'', ''created_at'', ''updated_at'']"
  "map co_name sms_outbox_table = [''id'', ''message_id'', ''routing_key'', ''payload'', ''created_at'', ''published_at'']"
  "map co_name sms_deliveries_table = [''message_id'', ''status'', ''wallet_id'', ''destination'', ''message'', ''line'', ''channel_name'',
    ''attempts'', ''last_error'', ''created_at'', ''updated_at'', ''delivered_at'']"
  by (simp_all add: wallet_transactions_table_def channels_table_def sms_outbox_table_def sms_deliveries_table_def column_defs)

lemma table_references:
  "list_all (references_ok s) wallets_table" "list_all (references_ok s) sms_costs_table"
  "list_all (references_ok s) sms_outbox_table" "list_all (references_ok s) sms_deliveries_table"
  "columns_of s ''wallets'' = wallets_table \<Longrightarrow> list_all (references_ok s) channels_table"
  "columns_of s ''wallets'' = wallets_table \<Longrightarrow> list_all (references_ok s) wallet_transactions_table"
  "list_ex (\<lambda>c. co_name c = ''line_type'' \<and> co_unique c) sms_costs_table"
  by (simp_all add: references_ok_def wallets_table_def sms_costs_table_def sms_outbox_table_def sms_deliveries_table_def channels_table_def
      wallet_transactions_table_def column_defs)

lemma unused_names:
  assumes "unused s"
  shows "\<not> is_relation s ''wallets''" "\<not> is_relation s ''channels''" "\<not> is_relation s ''sms_costs''" "\<not> is_relation s ''wallet_transactions''"
    "\<not> is_relation s ''sms_outbox''" "\<not> is_relation s ''sms_deliveries''"
    "\<not> is_relation s ''idx_wallet_transactions_wallet_id''" "\<not> is_relation s ''idx_channels_name''" "\<not> is_relation s ''idx_sms_outbox_pending''"
    "\<not> is_relation s ''idx_sms_outbox_pending_line''" "\<not> is_relation s ''idx_sms_deliveries_wallet_created''" "sc_costs s = []"
  using assms by (simp_all add: unused_def own_tables_def own_indexes_def)

lemma up_effect:
  assumes "unused s"
  shows "run_all (map fst migrations) s = (None, after_up s)"
  using unused_names [OF assms]
  by (simp add: migration_defs is_relation_def is_table_def table_references columns_of_def has_column_def table_names insert_cost_def after_up_def
      new_tables_def new_indexes_def col_def DEFAULT_def NOT_NULL_def)

lemma table_refers:
  "list_ex (\<lambda>c. map_option fst (co_references c) = Some t) wallet_transactions_table \<longleftrightarrow> t = ''wallets''"
  "list_ex (\<lambda>c. map_option fst (co_references c) = Some t) channels_table \<longleftrightarrow> t = ''wallets''"
  "\<not> list_ex (\<lambda>c. map_option fst (co_references c) = Some t) wallets_table"
  "\<not> list_ex (\<lambda>c. map_option fst (co_references c) = Some t) sms_costs_table"
  "\<not> list_ex (\<lambda>c. map_option fst (co_references c) = Some t) sms_outbox_table"
  "\<not> list_ex (\<lambda>c. map_option fst (co_references c) = Some t) sms_deliveries_table"
  by (simp_all add: wallets_table_def sms_costs_table_def sms_outbox_table_def sms_deliveries_table_def channels_table_def
      wallet_transactions_table_def column_defs eq_commute [of t])

lemma unused_unaffected:
  assumes "unused s" "\<not> is_relation s t"
  shows "filter (\<lambda>(u, cs). u \<noteq> t) (sc_tables s) = sc_tables s" "filter (\<lambda>(i, ix). ix_table ix \<noteq> t) (sc_indexes s) = sc_indexes s"
    "filter (\<lambda>(j, ix). j \<noteq> t) (sc_indexes s) = sc_indexes s"
    "\<not> list_ex (\<lambda>(u, cs). u \<noteq> t \<and> list_ex (\<lambda>c. map_option fst (co_references c) = Some t) cs) (sc_tables s)"
proof -
  have n: "\<not> is_table s t" using assms(2) unfolding is_relation_def by blast
  show "filter (\<lambda>(u, cs). u \<noteq> t) (sc_tables s) = sc_tables s" using n by (force simp: is_table_def intro: filter_True)
  have "is_table s (ix_table ix)" if "(i, ix) \<in> set (sc_indexes s)" for i ix using assms(1) that unfolding unused_def by blast
  then show "filter (\<lambda>(i, ix). ix_table ix \<noteq> t) (sc_indexes s) = sc_indexes s" using n by (force intro: filter_True)
  show "filter (\<lambda>(j, ix). j \<noteq> t) (sc_indexes s) = sc_indexes s" using assms(2) by (force simp: is_relation_def intro: filter_True)
  have "co_references c \<noteq> Some (t, k)" if "(u, cs) \<in> set (sc_tables s)" "c \<in> set cs" for u cs c k
    using n assms(1) that unfolding unused_def by blast
  then show "\<not> list_ex (\<lambda>(u, cs). u \<noteq> t \<and> list_ex (\<lambda>c. map_option fst (co_references c) = Some t) cs) (sc_tables s)"
    by (force simp: list_ex_iff)
qed

lemma drop_own:
  assumes "unused s" "\<not> is_relation s t" "t \<in> fst ` set ts"
    "\<not> list_ex (\<lambda>(u, cs). u \<noteq> t \<and> list_ex (\<lambda>c. map_option fst (co_references c) = Some t) cs) ts"
  shows "exec_statement (DROP_TABLE_IF_EXISTS t) \<lparr>sc_tables = ts @ sc_tables s, sc_indexes = xs @ sc_indexes s, sc_costs = rows\<rparr>
    = (None, \<lparr>sc_tables = filter (\<lambda>(u, cs). u \<noteq> t) ts @ sc_tables s, sc_indexes = filter (\<lambda>(i, ix). ix_table ix \<noteq> t) xs @ sc_indexes s,
        sc_costs = (if t = ''sms_costs'' then [] else rows)\<rparr>)"
  using unused_unaffected [OF assms(1,2)] assms(3,4) by (auto simp: is_table_def referred_def)

lemma drop_own_index:
  assumes "unused s" "\<not> is_relation s i"
  shows "exec_statement (DROP_INDEX_IF_EXISTS i) \<lparr>sc_tables = ts, sc_indexes = xs @ sc_indexes s, sc_costs = rows\<rparr>
    = (None, \<lparr>sc_tables = ts, sc_indexes = filter (\<lambda>(j, ix). j \<noteq> i) xs @ sc_indexes s, sc_costs = rows\<rparr>)"
  using unused_unaffected(3) [OF assms] by simp

lemma down_effect:
  assumes "unused s"
  shows "run_all (map snd (rev migrations)) (after_up s) = (None, s)"
proof -
  have c: "exec_statement (DELETE_COSTS [''express'', ''normal'']) \<lparr>sc_tables = ts, sc_indexes = xs, sc_costs = [(''normal'', 10000), (''express'', 25000)]\<rparr>
    = (None, \<lparr>sc_tables = ts, sc_indexes = xs, sc_costs = []\<rparr>)" if "''sms_costs'' \<in> fst ` set ts" for ts xs
    using that by (simp add: is_table_def)
  have e: "\<lparr>sc_tables = sc_tables s, sc_indexes = sc_indexes s, sc_costs = []\<rparr> = s" using unused_names(12) [OF assms] by simp
  have d: "map snd (rev migrations) = [downSMSDeliveryDetails, downOutboxLineFairness, downSMSOutbox, downSeedSMSCosts, downCreateTables]"
    by (simp add: migrations_def)
  note n = unused_names [OF assms]
  show ?thesis unfolding d after_up_def new_tables_def new_indexes_def
    by (simp add: migration_defs drop_own [OF assms n(1)] drop_own [OF assms n(2)] drop_own [OF assms n(3)] drop_own [OF assms n(4)]
        drop_own [OF assms n(5)] drop_own [OF assms n(6)] drop_own_index [OF assms n(10)] drop_own_index [OF assms n(11)] c e
        drop_own [OF assms n(1), where xs = "[]", unfolded filter.simps append_Nil] table_refers
        del: exec_statement.simps append_Cons map_option_eq_Some)
qed

text \<open>
  C33: migrations can be undone. On a database that does not use their names all the migrations succeed,
  in their order, and undoing them in the reverse order succeeds as well and leaves exactly the
  tables, indexes and prices of before. No foreign key is in the way in either direction.
\<close>

theorem migrations_reversible:
  assumes "unused s"
  shows "\<exists>s'. run_all (map fst migrations) s = (None, s') \<and> run_all (map snd (rev migrations)) s' = (None, s) \<and> s' \<noteq> s"
proof -
  have "sc_costs (after_up s) \<noteq> sc_costs s" using unused_names(12) [OF assms] by (simp add: after_up_def)
  then have "after_up s \<noteq> s" by metis
  then show ?thesis using up_effect [OF assms] down_effect [OF assms] by blast
qed

definition other_schema :: schema where
  "other_schema = \<lparr>sc_tables = [(''goose_db_version'', [PRIMARY_KEY (col ''id'' BIGSERIAL), NOT_NULL (col ''version_id'' BIGINT)])], sc_indexes = [], sc_costs = []\<rparr>"

lemma other_schema_unused: "unused other_schema"
  by (simp add: unused_def other_schema_def own_tables_def own_indexes_def is_relation_def is_table_def column_defs)

theorem migrations_reversible_witness:
  "\<exists>s'. run_all (map fst migrations) other_schema = (None, s') \<and> run_all (map snd (rev migrations)) s' = (None, other_schema)"
  using migrations_reversible [OF other_schema_unused] by blast

section \<open>Tables and models\<close>

lemma after_up_columns:
  "columns_of (after_up s) ''wallets'' = wallets_table" "columns_of (after_up s) ''channels'' = channels_table"
  "columns_of (after_up s) ''sms_costs'' = sms_costs_table" "columns_of (after_up s) ''wallet_transactions'' = wallet_transactions_table"
  "columns_of (after_up s) ''sms_outbox'' = sms_outbox_table" "columns_of (after_up s) ''sms_deliveries'' = sms_deliveries_table"
  by (simp_all add: columns_of_def after_up_def new_tables_def)

lemma models_served:
  "unserved wallets_table WalletModel_columns = []" "unserved channels_table ChannelModel_columns = []"
  "unserved sms_costs_table SMSCostModel_columns = [''updated_at'']" "unserved wallet_transactions_table WalletTransactionModel_columns = []"
  "unserved sms_outbox_table SMSOutboxModel_columns = []" "unserved sms_deliveries_table SMSDeliveryModel_columns = []"
  by code_simp+

lemma columns_filled:
  "unfilled wallets_table WalletModel_columns = []" "unfilled channels_table ChannelModel_columns = []"
  "unfilled sms_costs_table SMSCostModel_columns = []" "unfilled wallet_transactions_table WalletTransactionModel_columns = []"
  "unfilled sms_outbox_table SMSOutboxModel_columns = []" "unfilled sms_deliveries_table SMSDeliveryModel_columns = []"
  by code_simp+

text \<open>
  C32: the tables fit the models. After the migrations every field of a model has a column of its table
  with the type that the tag of the field demands, and with the \<^verbatim>\<open>not null\<close> and unique constraints of the tag; every other column can
  be left out of an insert. The one exception is \<^verbatim>\<open>updated_at\<close> of \<^verbatim>\<open>sms_costs\<close>, which the model has and the
  table has not: the repository only reads this table. Every line has a positive price.
\<close>

theorem schema_fits_models:
  assumes "unused s" "run_all (map fst migrations) s = (r, s')"
  shows "r = None
    \<and> map (\<lambda>(t, ms). (t, unserved (columns_of s' t) ms)) TableName = [(''wallets'', []), (''wallet_transactions'', []), (''channels'', []),
        (''sms_outbox'', []), (''sms_deliveries'', []), (''sms_costs'', [''updated_at''])]
    \<and> list_all (\<lambda>(t, ms). unfilled (columns_of s' t) ms = []) TableName
    \<and> (\<forall>line. LineType_IsValid line \<longrightarrow> (\<exists>p. map_of (sc_costs s') line = Some p \<and> 0 < p \<and> db_money \<lparr>units = p\<rparr>))"
proof -
  have e: "r = None" "s' = after_up s" using up_effect [OF assms(1)] assms(2) by simp_all
  have "\<exists>p. map_of (sc_costs (after_up s)) line = Some p \<and> 0 < p \<and> db_money \<lparr>units = p\<rparr>" if "LineType_IsValid line" for line
    using that by (auto simp: LineType_IsValid_def LineTypeExpress_def LineTypeNormal_def after_up_def db_money_def)
  then show ?thesis by (simp add: e TableName_def after_up_columns models_served columns_filled)
qed

theorem schema_fits_models_witness:
  "\<exists>s'. run_all (map fst migrations) other_schema = (None, s') \<and> map_of (sc_costs s') ''express'' \<noteq> None
    \<and> list_all (\<lambda>(t, ms). unfilled (columns_of s' t) ms = []) TableName"
proof -
  obtain r s' where u: "run_all (map fst migrations) other_schema = (r, s')" by (metis surj_pair)
  have "LineType_IsValid ''express''" by (simp add: LineType_IsValid_def LineTypeExpress_def)
  with schema_fits_models [OF other_schema_unused u] u show ?thesis by auto
qed

section \<open>Prices\<close>

lemma insert_cost_new: "insert_cost r rows = (if map_of rows (fst r) = None then r # rows else rows)"
  by (simp add: insert_cost_def map_of_eq_None_iff)

lemma insert_cost_lookup: "map_of (insert_cost r rows) l = (case map_of rows l of None \<Rightarrow> if l = fst r then Some (snd r) else None | Some p \<Rightarrow> Some p)"
  by (cases r) (auto simp: insert_cost_new split: option.splits)

text \<open>
  Seeding keeps the prices that are there. Wherever the price table exists, the seeding succeeds, a price that
  somebody has set stays as it is, the missing ones of the two lines get their defaults, and
  seeding again changes nothing.
\<close>

theorem seed_keeps_prices:
  assumes "columns_of s ''sms_costs'' = sms_costs_table"
  shows "\<exists>s'. upSeedSMSCosts s = (None, s') \<and> sc_tables s' = sc_tables s \<and> sc_indexes s' = sc_indexes s
    \<and> map_of (sc_costs s') = [''express'' \<mapsto> 25000, ''normal'' \<mapsto> 10000] ++ map_of (sc_costs s)
    \<and> upSeedSMSCosts s' = (None, s')"
proof -
  have "map_of (sc_tables s) ''sms_costs'' \<noteq> None" using assms by (auto simp: columns_of_def sms_costs_table_def split: option.splits)
  then have t: "is_table s ''sms_costs''" by (simp add: is_table_def map_of_eq_None_iff)
  have "map_of (insert_cost (''normal'', 10000) (insert_cost (''express'', 25000) (sc_costs s)))
      = [''express'' \<mapsto> 25000, ''normal'' \<mapsto> 10000] ++ map_of (sc_costs s)"
    by (rule ext) (auto simp: insert_cost_lookup map_add_def split: option.splits)
  moreover have "insert_cost n (insert_cost e (insert_cost n (insert_cost e rows))) = insert_cost n (insert_cost e rows)" for n e :: "string \<times> int" and rows
    by (auto simp: insert_cost_def)
  ultimately show ?thesis using assms t
    by (simp add: upSeedSMSCosts_def table_references is_table_def columns_of_def)
qed

theorem seed_keeps_prices_witness:
  "\<exists>s'. upSeedSMSCosts \<lparr>sc_tables = [(''sms_costs'', sms_costs_table)], sc_indexes = [], sc_costs = [(''express'', 30000)]\<rparr> = (None, s')
    \<and> map_of (sc_costs s') ''express'' = Some 30000 \<and> map_of (sc_costs s') ''normal'' = Some 10000"
proof -
  have "columns_of \<lparr>sc_tables = [(''sms_costs'', sms_costs_table)], sc_indexes = [], sc_costs = [(''express'', 30000)]\<rparr> ''sms_costs'' = sms_costs_table"
    by (simp add: columns_of_def)
  from seed_keeps_prices [OF this] show ?thesis by (elim exE conjE) (auto simp: map_add_def)
qed

section \<open>Rows and columns\<close>

text \<open>
  The values that gorm writes and whether a column takes them: text is valid UTF-8 without a zero byte and
  has at most as many characters as the column allows, a number fits its width, and null needs a column without \<^verbatim>\<open>NOT NULL\<close>.
\<close>

datatype sql_value = VText string | VInt int | VTime time | VNull

definition pg_text :: "string \<Rightarrow> bool" where
  "pg_text s \<longleftrightarrow> valid_utf8 s \<and> CHR 0x00 \<notin> set s"

fun value_fits :: "sql_type \<Rightarrow> sql_value \<Rightarrow> bool" where
  "value_fits (VARCHAR n) (VText s) \<longleftrightarrow> rune_count s \<le> n \<and> pg_text s"
| "value_fits TEXT (VText s) \<longleftrightarrow> pg_text s"
| "value_fits BIGINT (VInt i) \<longleftrightarrow> in_int64 i"
| "value_fits INTEGER (VInt i) \<longleftrightarrow> - (2 ^ 31) \<le> i \<and> i < 2 ^ 31"
| "value_fits TIMESTAMP (VTime t) \<longleftrightarrow> True"
| "value_fits _ _ \<longleftrightarrow> False"

definition row_fits :: "column list \<Rightarrow> (string \<times> sql_value) list \<Rightarrow> bool" where
  "row_fits cs row = list_all (\<lambda>(k, v). list_ex (\<lambda>c. co_name c = k \<and> (if v = VNull then \<not> co_not_null c else value_fits (co_type c) v)) cs) row"

definition delivery_values :: "SMSDeliveryModel \<Rightarrow> (string \<times> sql_value) list" where
  "delivery_values d = [(''message_id'', VText (dm_MessageID d)), (''wallet_id'', VInt (dm_WalletID d)), (''destination'', VText (dm_Destination d)),
    (''message'', VText (dm_Message d)), (''line'', VText (dm_Line d)), (''channel_name'', VText (dm_ChannelName d)),
    (''status'', VText (dm_Status d)), (''attempts'', VInt (dm_Attempts d)), (''last_error'', VText (dm_LastError d)),
    (''created_at'', VTime (dm_CreatedAt d)), (''updated_at'', VTime (dm_UpdatedAt d)),
    (''delivered_at'', case dm_DeliveredAt d of None \<Rightarrow> VNull | Some t \<Rightarrow> VTime t)]"

lemma delivery_fits:
  "row_fits sms_deliveries_table (delivery_values d) \<longleftrightarrow> list_all pg_text [dm_MessageID d, dm_Destination d, dm_Message d, dm_Line d, dm_ChannelName d, dm_Status d, dm_LastError d]
    \<and> rune_count (dm_MessageID d) \<le> 255 \<and> rune_count (dm_Destination d) \<le> 64 \<and> rune_count (dm_Line d) \<le> 32 \<and> rune_count (dm_ChannelName d) \<le> 255
    \<and> rune_count (dm_Status d) \<le> 32 \<and> in_int64 (dm_WalletID d) \<and> - (2 ^ 31) \<le> dm_Attempts d \<and> dm_Attempts d < 2 ^ 31"
  by (cases "dm_DeliveredAt d") (auto simp: row_fits_def delivery_values_def sms_deliveries_table_def column_defs)

lemma processing_fits: "pg_text ''processing''" "rune_count ''processing'' \<le> 32" "pg_text []"
proof -
  show "pg_text ''processing''" "pg_text []" by (simp_all add: pg_text_def ascii_valid_utf8)
  show "rune_count ''processing'' \<le> 32" using rune_count_bounds(1) [of "''processing''"] by simp
qed

text \<open>The record that \<^verbatim>\<open>beginDelivery\<close> creates does not fit if the destination or the name of the channel is too long.\<close>

lemma new_delivery_fits:
  "row_fits sms_deliveries_table (delivery_values (new_delivery ev)) \<longleftrightarrow>
    list_all pg_text [ev_MessageID ev, ev_Destination ev, ev_Message ev, ev_Line ev, ev_ChannelName ev]
    \<and> rune_count (ev_MessageID ev) \<le> 255 \<and> rune_count (ev_Destination ev) \<le> 64 \<and> rune_count (ev_Line ev) \<le> 32 \<and> rune_count (ev_ChannelName ev) \<le> 255
    \<and> in_int64 (ev_WalletID ev)"
  using processing_fits by (auto simp: delivery_fits new_delivery_def)

text \<open>A database that enforces the columns of a table.\<close>

definition enforces :: "column list \<Rightarrow> 'w gorm \<Rightarrow> bool" where
  "enforces cs G \<longleftrightarrow> (\<forall>d w. \<not> row_fits cs (delivery_values d) \<longrightarrow> (\<exists>e. fst (CreateDelivery G d w) = Inl e))"

context gorm_db
begin

lemma refused_record:
  assumes "enforces cs G" "\<not> row_fits cs (delivery_values (new_delivery ev))" "sms_deliveries (dbv w) (ev_MessageID ev) = None"
  shows "\<exists>e w'. beginDelivery G ev w = ((False, Some e), w') \<and> dbv w' = dbv w \<and> frame w' = frame w"
proof -
  have load: "\<exists>e v'. begin_tx G ev v = (Inl e, v') \<and> frame v' = frame v" if v: "dbv v = dbv w" for v
  proof -
    obtain r v' where l: "load_record G ev v = (r, v')" by (metis surj_pair)
    obtain x v1 where f: "FirstDelivery G (ev_MessageID ev) v = (x, v1)" by (metis surj_pair)
    obtain y v2 where c: "CreateDelivery G (new_delivery ev) v1 = (y, v2)" by (metis surj_pair)
    obtain e where y: "y = Inl e" using assms(1,2) c unfolding enforces_def by (metis fst_conv)
    have "\<exists>e. r = Inl e"
      using l f c y first_delivery [OF f] v assms(3) by (auto simp: load_record_def split: sum.splits if_splits)
    then show ?thesis using load_record_effect [OF l] l by (auto simp: begin_tx_def)
  qed
  obtain r w' where t: "Transaction G (begin_tx G ev) w = (r, w')" by (metis surj_pair)
  have "(\<exists>e. r = Inl (e, CNone)) \<and> dbv w' = dbv w \<and> frame w' = frame w"
    using transaction_ok [OF t]
  proof (elim disjE exE conjE, goal_cases)
    case (2 w1 r0 w2)
    then show ?case using load [of w1] by auto
  qed blast
  then show ?thesis by (auto simp: beginDelivery_def t)
qed

end

text \<open>
  C34: an oversized destination is never settled. The service accepts a destination of any length, the
  table takes 64 characters. If the database enforces its columns, the worker gives such a message back to the
  broker every time it gets it: nothing is sent, nothing is recorded, and its credit stays
  reserved.
\<close>

theorem oversized_never_settled:
  assumes "gorm_db (wk_db W) dbv frame" "unused s" "run_all (map fst migrations) s = (None, s')" "enforces (columns_of s' ''sms_deliveries'') (wk_db W)"
    "wk_reservations W = Some R" "event_ok ev" "json_Marshal ev = Inr payload" "sms_deliveries (dbv w) (ev_MessageID ev) = None"
    "64 < rune_count (ev_Destination ev) \<or> 255 < rune_count (ev_ChannelName ev)"
  shows "\<exists>e w'. process W now c (Some payload) w = (Some e, w') \<and> dbv w' = dbv w \<and> frame w' = frame w"
proof -
  have s': "columns_of s' ''sms_deliveries'' = sms_deliveries_table" using up_effect [OF assms(2)] assms(3) by (simp add: after_up_columns)
  have "\<not> row_fits sms_deliveries_table (delivery_values (new_delivery ev))" using assms(9) by (auto simp: new_delivery_fits)
  from gorm_db.refused_record [OF assms(1,4) [unfolded s'] this assms(8)] obtain e w'
    where b: "beginDelivery (wk_db W) ev w = ((False, Some e), w')" "dbv w' = dbv w" "frame w' = frame w" by blast
  have "json_Unmarshal (Some payload) = Inr ev" using json_roundtrip_aux [OF assms(6)] assms(7) by simp
  then show ?thesis using b assms(5) by (simp add: process_def processReserved_def)
qed

definition strict_gorm :: "(db \<times> 'v) gorm" where
  "strict_gorm = mem_gorm\<lparr>CreateDelivery := (\<lambda>d w. if row_fits sms_deliveries_table (delivery_values d) then CreateDelivery mem_gorm d w
     else (Inl (NewError ''value too long for type character varying''), w))\<rparr>"

interpretation strict: gorm_db strict_gorm fst snd
  by unfold_locales (auto simp: strict_gorm_def mem_gorm_def Let_def find_Some_iff split: prod.splits sum.splits option.splits if_splits)

lemma strict_enforces: "enforces sms_deliveries_table strict_gorm"
  by (simp add: enforces_def strict_gorm_def)

text \<open>The service accepts the message in the first line, the worker refuses it in the second.\<close>

theorem oversized_never_settled_witness:
  "\<exists>res e w'. Execute rt_example service_example (cmd_example\<lparr>cmd_Dest := replicate 65 CHR ''1''\<rparr>) no_slots (db_channel_example, credit_example, ())
      = Some (Inr res, no_slots, (add_outbox (outbox_row (sent_to (replicate 65 CHR ''1'')) (json_event (sent_to (replicate 65 CHR ''1'')))) 0 0 db_channel_example,
          accepted_credit_example, ()))
    \<and> process (worker_example\<lparr>wk_db := strict_gorm\<rparr>) ticking None (Some (json_event (sent_to (replicate 65 CHR ''1'')))) (gateway_example 0) = (Some e, w')
    \<and> fst w' = fst (gateway_example 0) \<and> snd w' = snd (gateway_example 0)"
proof -
  let ?d = "replicate 65 CHR ''1''" and ?W = "worker_example\<lparr>wk_db := strict_gorm\<rparr>"
  have ascii: "list_all (\<lambda>c. (of_char c :: nat) < 128) ?d" by (simp add: list_all_iff)
  note ok = sent_to_ok [OF ascii_valid_utf8 [OF ascii]]
  have m: "json_Marshal (sent_to ?d) = Inr (json_event (sent_to ?d))" using json_roundtrip_aux [OF ok] by blast
  have u: "run_all (map fst migrations) other_schema = (None, after_up other_schema)" by (rule up_effect [OF other_schema_unused])
  have g: "gorm_db (wk_db ?W) fst snd" using strict.gorm_db_axioms by simp
  have e: "enforces (columns_of (after_up other_schema) ''sms_deliveries'') (wk_db ?W)" using strict_enforces by (simp add: after_up_columns)
  have R: "wk_reservations ?W = Some (redis_reservations 1 beside_client None)" by (simp add: worker_example_def)
  have none: "sms_deliveries (fst (gateway_example 0)) (ev_MessageID (sent_to ?d)) = None" by (simp add: gateway_example_sel db_example_def)
  have long: "64 < rune_count (ev_Destination (sent_to ?d)) \<or> 255 < rune_count (ev_ChannelName (sent_to ?d))"
    using rune_count_ascii [OF ascii] by (simp add: sent_to_def)
  show ?thesis using oversized_never_settled [OF g other_schema_unused u e R ok m none long, of ticking None] execute_example_to [of ?d "()"] by auto
qed

end
