(* ===== verification/Spec2Isabelle.thy ===== *)
theory Spec2Isabelle
  imports RedisReplicas PoolProperties FairRows WalletProps ServiceProps WorkerProps DispatcherProps ApiProps RunProps StartupProps Duplicates InterleavingProps ApiDocsProps SchemaProps
begin

text \<open>
  The gateway accepts text messages over HTTP, charges the wallet of the sending channel and delivers
  the messages asynchronously. This development models its Go sources and proves what its parts
  promise to each other. Paths below are relative to \<^verbatim>\<open>src/internal\<close>.

  \<^bold>\<open>The program.\<close> Three processes share PostgreSQL, Redis and RabbitMQ. The API gateway checks a request,
  reserves the price in Redis and stores an event in the outbox table (or, without a reservation
  store, debits the wallet and stores the event in one transaction). The outbox dispatcher
  publishes outbox rows, fairly among channels, and marks the ones the broker confirmed. A
  worker per line consumes the events, calls one provider of a pool guarded by circuit breakers,
  and either debits the wallet and commits the reservation or gives the reservation back.

  \<^bold>\<open>The theories\<close>, in the order of their imports:
  \<^item> Prelude, GoFloat, GoStrings, GoTime, GoBase64: errors as values with wrapping and
    \<^verbatim>\<open>errors.Is\<close>, binary64 numbers, UTF-8 strings with the conversions of \<^verbatim>\<open>strconv\<close>, instants and their text,
    base64. This is the part of the language and its library that the sources use.
  \<^item> Money, SmsDomain, Models: \<^verbatim>\<open>domain/\<close> and the table rows of \<^verbatim>\<open>infrastructure/persistence\<close>. Amounts are
    integers of four decimals that wrap at 64 bits; the event of \<^verbatim>\<open>application/sms/service.go\<close> comes with its JSON text.
  \<^item> CircuitContract, CircuitBreaker, RedisLua, RedisCircuit, RedisReplicas: the circuit breaker of
    \<^verbatim>\<open>infrastructure/sms/provider_pool.go\<close> and the one of \<^verbatim>\<open>redis_provider_state.go\<close>, whose two Lua scripts are translated statement by
    statement over a model of the Redis commands they call. One locale states what a breaker promises
    to concurrent callers and both are interpretations of it.
  \<^item> ProviderPool, PoolProperties: the round robin over providers, with either kind of state, and the mock providers.
  \<^item> Reservation, CreditRuns, ReservationContract: \<^verbatim>\<open>infrastructure/reservation/redis.go\<close>, its three scripts, histories of
    concurrent calls, and the contract that the service and the worker use.
  \<^item> Database, WalletRepo, WalletProps, Repositories: gorm as a parameter with its laws as a locale, and the
    repositories of \<^verbatim>\<open>infrastructure/persistence\<close>.
  \<^item> FairRows, Dispatcher, DispatcherProps: the dispatcher of \<^verbatim>\<open>infrastructure/messaging/rabbitmq.go\<close>.
  \<^item> SmsService, CreditFlow, ServiceProps: \<^verbatim>\<open>application/sms\<close>. CreditFlow joins the laws of the database and of the
    reservation store for the components that use both.
  \<^item> Worker, WorkerFlow, LegacyFlow, WorkerProps: the worker of \<^verbatim>\<open>infrastructure/messaging/rabbitmq.go\<close>, with and without
    reservations.
  \<^item> Steps: a delivery and a request cut into the single calls they make.
  \<^item> WorkerRun, RunProps, GatewayRuns: the consumers of a worker process, whose deliveries overlap, and runs of the whole gateway in
    which requests, deliveries and the dispatcher take turns.
  \<^item> AdminService, HttpApi, ApiProps: \<^verbatim>\<open>application/admin\<close> and \<^verbatim>\<open>interfaces/http\<close>.
  \<^item> Interleaving, InterleavingProps, Duplicates: runs in which the calls of any number of requests and deliveries interleave, what
    holds in such runs, and what happens if two deliveries of one message overlap.
  \<^item> GoParse, Config, Startup, StartupProps: \<^verbatim>\<open>config/config.go\<close> with the library functions that read durations and integers,
    \<^verbatim>\<open>infrastructure/persistence/database.go\<close>, and what the three \<^verbatim>\<open>main\<close> functions of \<^verbatim>\<open>src/cmd\<close> build.
  \<^item> Migrations, SchemaProps: the statements of \<^verbatim>\<open>infrastructure/persistence/migrations\<close> as data, their effect on tables and
    indexes, and the columns that the models of \<^verbatim>\<open>base_model.go\<close> demand.
  \<^item> ApiDocs, ApiDocsProps: the document of \<^verbatim>\<open>src/docs/swagger/docs.go\<close> as a JSON value, the JSON tags of the structures that requests and
    answers are read from and written to (\<^verbatim>\<open>dto.go\<close>, \<^verbatim>\<open>swagger_models.go\<close>), and what the one says about the other.

  \<^bold>\<open>State.\<close> An operation that changes state takes the state and returns it updated; errors are values of
  type \<^verbatim>\<open>error\<close> in the left summand of a result. What several processes share is a type parameter \<^verbatim>\<open>'w\<close>, the world,
  with views on it (\<^verbatim>\<open>dbv\<close> the tables, \<^verbatim>\<open>cred\<close> the credit in Redis, the calls made to providers, the messages in
  the broker), so that the laws of one component say what it leaves alone in the others.
  Concurrency is a sequence of atomic steps: the calls of the scripts in \<^verbatim>\<open>credit_run\<close>, \<^verbatim>\<open>shared_reach\<close> and \<^verbatim>\<open>replica_reach\<close>, the
  admissions in \<^verbatim>\<open>in_flight\<close>, whole requests and deliveries in \<^verbatim>\<open>gateway_run\<close>, and the single calls of deliveries that overlap in \<^verbatim>\<open>worker_Run\<close> (the
  consumers of a process) and of requests and deliveries in \<^verbatim>\<open>interleaved\<close>; the step-wise form is \<^verbatim>\<open>processReserved\<close> and \<^verbatim>\<open>accept\<close> cut at every call to the database, to
  Redis or to a provider (lemmas \<^verbatim>\<open>steps_processReserved\<close>, \<^verbatim>\<open>consume_process\<close>, \<^verbatim>\<open>steps_are_accept\<close>).

  \<^bold>\<open>Parameters.\<close> gorm with PostgreSQL (\<^verbatim>\<open>gorm_db\<close>: transactions that abort leave nothing, one that reports an error
  at commit may have taken effect), the Redis client (\<^verbatim>\<open>redis_client\<close>: a script runs atomically; a call may fail, with or
  without its effect), the AMQP library (\<^verbatim>\<open>outbox_dispatcher\<close>: a confirmed message is in the queue), Gin's binding of bodies
  (\<^verbatim>\<open>binding_ok\<close>) and the handler of the documentation page, the platform of a process (\<^verbatim>\<open>platform\<close>: environment, opening connections, goose), clocks and random numbers. Every locale is interpreted on the model: an in-memory database, the
  model of Redis, an in-memory broker.

  \<^bold>\<open>Fuel.\<close> The retry of \<^verbatim>\<open>Reserve\<close> after a missing balance is a recursion on fuel. Two rounds are enough if
  nobody deletes the balance between the load and the second round (\<^verbatim>\<open>reserve_loads_balance\<close>). The
  loop of the dispatcher has no end; \<^verbatim>\<open>outbox_drained\<close> shows that a number of rounds above the backlog publishes it. Every other
  recursion is structural or has a measure. The attempts to connect are counted down from 30, as in the source.

  \<^bold>\<open>What is shown.\<close> Available, reserved and spent credit always add up to what was there at the start, and credit is given back at most once
  (\<^verbatim>\<open>credit_never_overspent\<close>, \<^verbatim>\<open>refund_restores_once\<close>); a wallet changes by exactly the amount of its ledger entry
  (\<^verbatim>\<open>wallet_mutation_exact\<close>, \<^verbatim>\<open>ledger_conserved\<close>); an accepted message has its reservation and its outbox row
  (\<^verbatim>\<open>execute_reserved\<close>); a row is marked published only after a confirm, and the backlog drains
  (\<^verbatim>\<open>published_means_confirmed\<close>, \<^verbatim>\<open>outbox_drained\<close>); no channel starves another (\<^verbatim>\<open>fair_no_hot_channel\<close>); a processed message is settled
  in one way and a redelivery changes nothing (\<^verbatim>\<open>reserved_settlement\<close>, \<^verbatim>\<open>redelivery_harmless\<close>); at most one
  probe is under way in a half-open circuit, in one process and across processes
  (\<^verbatim>\<open>single_half_open_probe\<close>, \<^verbatim>\<open>redis_single_probe\<close>); the event that is processed is the one that was accepted
  (\<^verbatim>\<open>event_survives_queue\<close>). Across components: as long as a commit that reports an error has no effect,
  available and reserved credit never exceeds the money in the wallet (\<^verbatim>\<open>credit_covered_by_money\<close>). Whatever fails and however its
  consumers overlap, a message that a worker process acknowledges has a final record, if its wallet exists (\<^verbatim>\<open>acknowledged_is_settled\<close>). The credit stays covered however the calls of requests and deliveries interleave and
  wherever processes stop, as long as no write that reports an error has an effect and no two workers process one message at the same time
  (\<^verbatim>\<open>interleaving_covered\<close>); if two do and nothing fails, the wallet pays twice (\<^verbatim>\<open>duplicates_charged_twice\<close>). The fair selection equals a transposition of the channels' rows
  (\<^verbatim>\<open>fair_is_transposition\<close>). Around them: connecting ends (\<^verbatim>\<open>connect_bounded\<close>), what the configuration accepts makes no
  constructor fail (\<^verbatim>\<open>worker_starts\<close>) and never opens the administration (\<^verbatim>\<open>api_never_open\<close>), and the migrations can be undone and
  create what the models need (\<^verbatim>\<open>migrations_reversible\<close>, \<^verbatim>\<open>schema_fits_models\<close>). The API documentation lists exactly the routes but its own page, and names everything in a request that the answer depends on
  (\<^verbatim>\<open>documentation_exact\<close>), and what the routes answer has the documented form, but for errors whose status it leaves out
  (\<^verbatim>\<open>responses_documented\<close>). Seven theorems show behaviour that the authors are unlikely to want:
  \<^verbatim>\<open>topup_forgets_reservations\<close>, \<^verbatim>\<open>submillisecond_lease_two_probes\<close>, \<^verbatim>\<open>NewMoney_limit_overflows\<close>,
  \<^verbatim>\<open>oversized_never_settled\<close>, \<^verbatim>\<open>duplicates_charged_twice\<close>, and the second halves of \<^verbatim>\<open>provider_time_bounded\<close> and \<^verbatim>\<open>numbers_read\<close>.

  \<^bold>\<open>Not modelled.\<close> Logging, the parsing of command-line flags, signal handling and the closing of connections at exit,
  which only concern libraries outside of the sources; the registration of the API documentation with \<^verbatim>\<open>swag\<close> and the handler that serves it (its route is modelled, its answers are a
  parameter); and the
  deployment files and tests of the repository. Nothing else of the Go sources is left out. In \<^verbatim>\<open>interleaved\<close> a write that
  reports an error has no effect; what can happen to one message when it does is part of \<^verbatim>\<open>reserved_settlement\<close>.
\<close>

section \<open>From the API to the worker\<close>

text \<open>
  C40: the event survives the queue. The row that the service stores for an event is attributed to
  the event's channel by the fair selection, is published with its payload, and the worker that
  receives this payload processes exactly the event that was accepted.
\<close>

theorem event_survives_queue:
  assumes "event_ok ev" "json_Marshal ev = Inr payload" "row = (outbox_row ev payload)\<lparr>om_ID := i, om_CreatedAt := t\<rparr>"
  shows "channel_of row = (if ev_ChannelName ev = [] then ''__unknown__'' else ev_ChannelName ev)
    \<and> om_RoutingKey row = ev_Line ev
    \<and> process W now c (Some (pb_Body (publishing_of row))) w = (case wk_reservations W of
        None \<Rightarrow> processLegacy W now c ev w | Some R \<Rightarrow> processReserved W R now c ev w)"
proof -
  have "json_Unmarshal (Some (om_Payload row)) = Inr ev" using json_roundtrip_aux [OF assms(1)] assms(2,3) by (simp add: outbox_row_def)
  then show ?thesis using assms(3) by (simp add: channel_of_def publishing_of_def process_def outbox_row_def)
qed

theorem event_survives_queue_witness:
  "process worker_example ticking None (Some (pb_Body (publishing_of (outbox_row event_example (json_event event_example))))) (gateway_example 0)
    = processReserved worker_example (redis_reservations 1 beside_client None) ticking None event_example (gateway_example 0)"
proof -
  have j: "json_Marshal event_example = Inr (json_event event_example)" using json_roundtrip_aux [OF event_example_ok] by simp
  have r: "outbox_row event_example (json_event event_example) = (outbox_row event_example (json_event event_example))\<lparr>om_ID := 0, om_CreatedAt := 0\<rparr>"
    by (simp add: outbox_row_def)
  from event_survives_queue [OF event_example_ok j r, of worker_example ticking None "gateway_example 0"] show ?thesis
    by (simp add: worker_example_def)
qed

end
